theory Spec2Isabelle
  imports Main "HOL-Library.Word"
begin

section \<open>Errors\<close>

text \<open>
  \<^verbatim>\<open>error(kind, fmt, ...)\<close> prints a diagnostic and terminates the interpreter. A function
  that can call it returns a sum: \<open>Inl kind\<close> when the interpreter stopped there, \<open>Inr\<close> the
  result otherwise. The kinds are the ones the source passes to \<^verbatim>\<open>error\<close>.
\<close>

datatype error =
    SyntaxError
  | NameError
  | TypeError
  | ValueError
  | IndexError
  | ZeroDivisionError
  | OutOfMemoryError
  | SystemError


section \<open>Character constants (object.c, \<^verbatim>\<open>str_to_char\<close>)\<close>

text \<open>
  A C string is a pointer to bytes that end at the first NUL. The model carries the bytes as
  a \<open>string\<close>; \<open>peek\<close> is \<^verbatim>\<open>*s\<close> (the byte under the pointer, NUL at the end of the list)
  and \<open>tl\<close> is \<^verbatim>\<open>++s\<close>. \<open>cstring\<close> is the text a C reader sees: the bytes before the
  first NUL.
\<close>

definition NUL :: char where
  "NUL = CHR 0x00"

definition peek :: "string \<Rightarrow> char" where
  "peek s = (case s of [] \<Rightarrow> NUL | c # _ \<Rightarrow> c)"

definition cstring :: "string \<Rightarrow> string" where
  "cstring s = takeWhile (\<lambda>c. c \<noteq> NUL) s"

text \<open>The \<^verbatim>\<open>switch (*++s)\<close> of \<^verbatim>\<open>str_to_char\<close>; \<open>None\<close> is its \<^verbatim>\<open>default\<close> branch.\<close>

definition escape :: "char \<Rightarrow> char option" where
  "escape e =
    (if e = CHR ''0'' then Some (CHR 0x00)
     else if e = CHR ''b'' then Some (CHR 0x08)
     else if e = CHR ''f'' then Some (CHR 0x0C)
     else if e = CHR ''n'' then Some (CHR 0x0A)
     else if e = CHR ''r'' then Some (CHR 0x0D)
     else if e = CHR ''t'' then Some (CHR 0x09)
     else if e = CHR ''v'' then Some (CHR 0x0B)
     else if e = CHR 0x5C then Some (CHR 0x5C)
     else if e = CHR 0x27 then Some (CHR 0x27)
     else if e = CHR 0x22 then Some (CHR 0x22)
     else None)"

definition str_to_char :: "string \<Rightarrow> error + char" where
  "str_to_char s =
    (if peek s = CHR 0x5C then
       (case escape (peek (tl s)) of
          None \<Rightarrow> Inl ValueError
        | Some c \<Rightarrow> if peek (tl (tl s)) \<noteq> NUL then Inl SyntaxError else Inr c)
     else if peek s = NUL then Inl SyntaxError
     else if peek (tl s) \<noteq> NUL then Inl SyntaxError
     else Inr (peek s))"


section \<open>Objects by value (object.h, object.c)\<close>

text \<open>
  An object is a tagged value. This section carries objects by value: a list object is the
  sequence of the values its nodes own, a list-node is the value it owns, a position is the
  index of a token of the source. Reference counts and sharing are the subject of the
  section on the object store further down.

  \<open>char_t\<close> is one byte, read as an unsigned code. \<open>int_t\<close> is the C \<^verbatim>\<open>long\<close>; the model does
  not bound it, and no arithmetic on it is done here (that is number.c). \<open>float_t\<close> is the
  IEEE-754 double, carried as its 64 bits.
\<close>

type_synonym char_t = char
type_synonym int_t = int
type_synonym float_t = "64 word"

datatype objecttype_t =
    CHAR_T
  | INT_T
  | FLOAT_T
  | STR_T
  | LIST_T
  | LISTNODE_T
  | POSITION_T
  | NONE_T

datatype object =
    CharObject char_t
  | IntObject int_t
  | FloatObject float_t
  | StrObject string
  | ListObject "object list"
  | ListNodeObject object
  | PositionObject nat
  | NoneObject

text \<open>The macros of object.h: \<^verbatim>\<open>TYPE\<close>, \<^verbatim>\<open>isNumber\<close>, \<^verbatim>\<open>isString\<close>, \<^verbatim>\<open>isList\<close>, \<^verbatim>\<open>isListNode\<close>, \<^verbatim>\<open>isSequence\<close>.\<close>

fun TYPE_of :: "object \<Rightarrow> objecttype_t" where
  "TYPE_of (CharObject _) = CHAR_T"
| "TYPE_of (IntObject _) = INT_T"
| "TYPE_of (FloatObject _) = FLOAT_T"
| "TYPE_of (StrObject _) = STR_T"
| "TYPE_of (ListObject _) = LIST_T"
| "TYPE_of (ListNodeObject _) = LISTNODE_T"
| "TYPE_of (PositionObject _) = POSITION_T"
| "TYPE_of NoneObject = NONE_T"

definition isNumber :: "object \<Rightarrow> bool" where
  "isNumber obj \<longleftrightarrow> TYPE_of obj = CHAR_T \<or> TYPE_of obj = INT_T \<or> TYPE_of obj = FLOAT_T"

definition isString :: "object \<Rightarrow> bool" where
  "isString obj \<longleftrightarrow> TYPE_of obj = STR_T"

definition isList :: "object \<Rightarrow> bool" where
  "isList obj \<longleftrightarrow> TYPE_of obj = LIST_T"

definition isListNode :: "object \<Rightarrow> bool" where
  "isListNode obj \<longleftrightarrow> TYPE_of obj = LISTNODE_T"

definition isSequence :: "object \<Rightarrow> bool" where
  "isSequence obj \<longleftrightarrow> TYPE_of obj = STR_T \<or> TYPE_of obj = LIST_T"

text \<open>
  \<^verbatim>\<open>obj_from_listnode\<close> (list.c) hands out the value a node owns. \<open>deref\<close> is the line every
  operator starts with: \<^verbatim>\<open>op = isListNode(op) ? obj_from_listnode(op) : op\<close>.
\<close>

fun obj_from_listnode :: "object \<Rightarrow> object" where
  "obj_from_listnode (ListNodeObject v) = v"
| "obj_from_listnode obj = obj"

definition deref :: "object \<Rightarrow> object" where
  "deref obj = (if isListNode obj then obj_from_listnode obj else obj)"

subsection \<open>The type objects\<close>

text \<open>
  object.c reaches the operations of each type through its type object (\<^verbatim>\<open>numbertype.mul\<close>,
  \<^verbatim>\<open>strtype.repeat\<close>, \<^verbatim>\<open>listtype.item\<close>, ...). Those live in number.c, str.c, list.c and
  position.c, which are not among the sources; so do the C library's conversions. They
  are parameters of the model: every function of object.c below takes the record \<open>T\<close> of
  the operations it calls, and what is proved about it holds for every such record.
  A method returns \<open>Inl\<close> when it calls \<^verbatim>\<open>error\<close>.

  \<open>strtol\<close> and \<open>strtod\<close> give the value, the unparsed rest (\<^verbatim>\<open>*e\<close>) and whether
  \<^verbatim>\<open>errno\<close> was set; \<open>fmt_int\<close> and \<open>fmt_float\<close> are \<^verbatim>\<open>snprintf\<close> with \<^verbatim>\<open>%ld\<close> and \<^verbatim>\<open>%.16lG\<close>; the four
  casts are the C casts between \<open>float_t\<close> and the integer types.
\<close>

record typeobjects =
  number_mul :: "object \<Rightarrow> object \<Rightarrow> error + object"
  number_eql :: "object \<Rightarrow> object \<Rightarrow> error + object"
  number_neq :: "object \<Rightarrow> object \<Rightarrow> error + object"
  str_repeat :: "object \<Rightarrow> object \<Rightarrow> error + object"
  str_eql :: "object \<Rightarrow> object \<Rightarrow> error + object"
  str_neq :: "object \<Rightarrow> object \<Rightarrow> error + object"
  str_item :: "object \<Rightarrow> int \<Rightarrow> error + object"
  str_length :: "object \<Rightarrow> error + object"
  list_repeat :: "object \<Rightarrow> object \<Rightarrow> error + object"
  list_eql :: "object \<Rightarrow> object \<Rightarrow> error + object"
  list_neq :: "object \<Rightarrow> object \<Rightarrow> error + object"
  list_item :: "object \<Rightarrow> int \<Rightarrow> error + object"
  list_length :: "object \<Rightarrow> error + object"
  listnode_alloc :: object
  position_alloc :: object
  float_to_char :: "float_t \<Rightarrow> char_t"
  float_to_int :: "float_t \<Rightarrow> int_t"
  char_to_float :: "char_t \<Rightarrow> float_t"
  int_to_float :: "int_t \<Rightarrow> float_t"
  strtol :: "string \<Rightarrow> int_t \<times> string \<times> bool"
  strtod :: "string \<Rightarrow> float_t \<times> string \<times> bool"
  fmt_int :: "int_t \<Rightarrow> string"
  fmt_float :: "float_t \<Rightarrow> string"

subsection \<open>Conversions\<close>

definition str_to_int :: "typeobjects \<Rightarrow> string \<Rightarrow> error + int_t" where
  "str_to_int T s =
    (case strtol T s of
       (i, e, errno) \<Rightarrow> if peek e \<noteq> NUL \<or> errno then Inl ValueError else Inr i)"

definition str_to_float :: "typeobjects \<Rightarrow> string \<Rightarrow> error + float_t" where
  "str_to_float T s =
    (case strtod T s of
       (f, e, errno) \<Rightarrow> if peek e \<noteq> NUL \<or> errno then Inl ValueError else Inr f)"

definition obj_as_char :: "typeobjects \<Rightarrow> object \<Rightarrow> error + char_t" where
  "obj_as_char T op1 =
    (case deref op1 of
       CharObject cval \<Rightarrow> Inr cval
     | IntObject ival \<Rightarrow> Inr (char_of ival)
     | FloatObject fval \<Rightarrow> Inr (float_to_char T fval)
     | StrObject sptr \<Rightarrow> str_to_char sptr
     | _ \<Rightarrow> Inl ValueError)"

definition obj_as_int :: "typeobjects \<Rightarrow> object \<Rightarrow> error + int_t" where
  "obj_as_int T op1 =
    (case deref op1 of
       CharObject cval \<Rightarrow> Inr (of_char cval)
     | IntObject ival \<Rightarrow> Inr ival
     | FloatObject fval \<Rightarrow> Inr (float_to_int T fval)
     | StrObject sptr \<Rightarrow> str_to_int T sptr
     | _ \<Rightarrow> Inl ValueError)"

definition obj_as_float :: "typeobjects \<Rightarrow> object \<Rightarrow> error + float_t" where
  "obj_as_float T op1 =
    (case deref op1 of
       CharObject cval \<Rightarrow> Inr (char_to_float T cval)
     | IntObject ival \<Rightarrow> Inr (int_to_float T ival)
     | FloatObject fval \<Rightarrow> Inr fval
     | StrObject sptr \<Rightarrow> str_to_float T sptr
     | _ \<Rightarrow> Inl ValueError)"

definition obj_as_str :: "object \<Rightarrow> error + string" where
  "obj_as_str op1 =
    (case deref op1 of
       StrObject sptr \<Rightarrow> Inr sptr
     | _ \<Rightarrow> Inl ValueError)"

definition obj_as_list :: "object \<Rightarrow> error + object" where
  "obj_as_list op1 =
    (case deref op1 of
       ListObject xs \<Rightarrow> Inr (ListObject xs)
     | _ \<Rightarrow> Inl ValueError)"

text \<open>
  A double tests false in C exactly when it compares equal to zero: the two zeros
  \<^verbatim>\<open>+0.0\<close> (all bits clear) and \<^verbatim>\<open>-0.0\<close> (the sign bit alone).
\<close>

definition float_is_zero :: "float_t \<Rightarrow> bool" where
  "float_is_zero f \<longleftrightarrow> f = 0 \<or> f = 0x8000000000000000"

definition obj_as_bool :: "typeobjects \<Rightarrow> object \<Rightarrow> error + bool" where
  "obj_as_bool T op1 =
    (case deref op1 of
       CharObject cval \<Rightarrow> Inr (cval \<noteq> NUL)
     | IntObject ival \<Rightarrow> Inr (ival \<noteq> 0)
     | FloatObject fval \<Rightarrow> Inr (\<not> float_is_zero fval)
     | _ \<Rightarrow> Inl ValueError)"

text \<open>
  \<^verbatim>\<open>obj_to_strobj\<close> switches on the type of the object as it is given: a list-node is not
  dereferenced and falls to the default branch. \<^verbatim>\<open>snprintf\<close> with \<^verbatim>\<open>%c\<close> writes the one byte; as
  a C string that is empty when the byte is NUL.
\<close>

definition obj_to_strobj :: "typeobjects \<Rightarrow> object \<Rightarrow> object" where
  "obj_to_strobj T obj =
    (case obj of
       StrObject sptr \<Rightarrow> StrObject sptr
     | CharObject cval \<Rightarrow> StrObject (cstring [cval])
     | IntObject ival \<Rightarrow> StrObject (cstring (fmt_int T ival))
     | FloatObject fval \<Rightarrow> StrObject (cstring (fmt_float T fval))
     | NoneObject \<Rightarrow> StrObject ''None''
     | PositionObject _ \<Rightarrow> StrObject []
     | _ \<Rightarrow> StrObject [])"

subsection \<open>Allocation, copy and assignment\<close>

text \<open>
  Modelled from the spec: the allocators of number.c, str.c and list.c, which are not
  among the sources. A fresh object holds the default value of its type: numeric 0, the
  empty string, the empty list. What a fresh list-node or position holds is left to the
  type objects. \<^verbatim>\<open>none_alloc\<close> (none.c) hands out the one none object.
  By value there is no memory to run out of and no count to set; \<^verbatim>\<open>obj_alloc\<close> with its
  reference count and its OutOfMemoryError is modelled on the object store below.
\<close>

definition none_alloc :: object where
  "none_alloc = NoneObject"

definition obj_alloc :: "typeobjects \<Rightarrow> objecttype_t \<Rightarrow> object" where
  "obj_alloc T type =
    (case type of
       CHAR_T \<Rightarrow> CharObject NUL
     | INT_T \<Rightarrow> IntObject 0
     | FLOAT_T \<Rightarrow> FloatObject 0
     | STR_T \<Rightarrow> StrObject []
     | LIST_T \<Rightarrow> ListObject []
     | LISTNODE_T \<Rightarrow> listnode_alloc T
     | POSITION_T \<Rightarrow> position_alloc T
     | NONE_T \<Rightarrow> none_alloc)"

text \<open>
  \<^verbatim>\<open>obj_copy\<close>. \<^verbatim>\<open>obj_create(type, value)\<close> allocates an object of the type and lets the
  type's \<^verbatim>\<open>vset\<close> store the value; for a list that is (modelled from the spec: list.c is not
  among the sources) a list of nodes that own deep copies of the source's values, made by
  \<^verbatim>\<open>obj_copy\<close> in turn: \<open>copy_items\<close>.
\<close>

fun obj_copy :: "object \<Rightarrow> error + object"
  and copy_items :: "object list \<Rightarrow> error + object list" where
  "obj_copy (CharObject cval) = Inr (CharObject cval)"
| "obj_copy (IntObject ival) = Inr (IntObject ival)"
| "obj_copy (FloatObject fval) = Inr (FloatObject fval)"
| "obj_copy (StrObject sptr) = Inr (StrObject sptr)"
| "obj_copy (ListObject xs) =
     (case copy_items xs of Inl e \<Rightarrow> Inl e | Inr ys \<Rightarrow> Inr (ListObject ys))"
| "obj_copy (ListNodeObject v) = obj_copy v"
| "obj_copy (PositionObject _) = Inl TypeError"
| "obj_copy NoneObject = Inl TypeError"
| "copy_items [] = Inr []"
| "copy_items (x # xs) =
     (case obj_copy x of
        Inl e \<Rightarrow> Inl e
      | Inr y \<Rightarrow> (case copy_items xs of Inl e \<Rightarrow> Inl e | Inr ys \<Rightarrow> Inr (y # ys)))"

text \<open>
  \<^verbatim>\<open>obj_assign(op1, op2)\<close> stores into \<open>op1\<close> in place; by value it returns the new \<open>op1\<close>.
  The \<^verbatim>\<open>set\<close> method of each type (not among the sources) is taken to store the value it
  is handed.
\<close>

definition obj_assign :: "typeobjects \<Rightarrow> object \<Rightarrow> object \<Rightarrow> error + object" where
  "obj_assign T op1 op2 =
    (case TYPE_of op1 of
       CHAR_T \<Rightarrow> (case obj_as_char T op2 of Inl e \<Rightarrow> Inl e | Inr c \<Rightarrow> Inr (CharObject c))
     | INT_T \<Rightarrow> (case obj_as_int T op2 of Inl e \<Rightarrow> Inl e | Inr i \<Rightarrow> Inr (IntObject i))
     | FLOAT_T \<Rightarrow> (case obj_as_float T op2 of Inl e \<Rightarrow> Inl e | Inr f \<Rightarrow> Inr (FloatObject f))
     | STR_T \<Rightarrow>
        (case obj_as_str (obj_to_strobj T op2) of Inl e \<Rightarrow> Inl e | Inr s \<Rightarrow> Inr (StrObject s))
     | LIST_T \<Rightarrow> (case obj_as_list op2 of Inl e \<Rightarrow> Inl e | Inr l \<Rightarrow> obj_copy l)
     | LISTNODE_T \<Rightarrow>
        (case obj_copy op2 of Inl e \<Rightarrow> Inl e | Inr v \<Rightarrow> Inr (ListNodeObject v))
     | _ \<Rightarrow> Inl TypeError)"

subsection \<open>Sequences\<close>

text \<open>
  \<^verbatim>\<open>obj_item\<close> has the parameter \<^verbatim>\<open>int index\<close>, and its callers \<^verbatim>\<open>obj_in\<close> and \<^verbatim>\<open>for_stmnt\<close>
  pass an \<open>int_t\<close>, which C converts to \<^verbatim>\<open>int\<close>. \<open>int_of_int_t\<close> is that conversion where
  \<^verbatim>\<open>int\<close> has 32 bits: it keeps the low 32 bits and reads them as a signed number, so that
  an index beyond the range of \<^verbatim>\<open>int\<close> wraps. The \<open>index\<close> of \<open>obj_item\<close> and of the \<open>item\<close>
  methods is such a C \<^verbatim>\<open>int\<close>.
\<close>

definition int_of_int_t :: "int_t \<Rightarrow> int" where
  "int_of_int_t i = sint (word_of_int i :: 32 word)"

definition obj_item :: "typeobjects \<Rightarrow> object \<Rightarrow> int \<Rightarrow> error + object" where
  "obj_item T sequence index =
    (if TYPE_of (deref sequence) = STR_T then str_item T (deref sequence) index
     else if TYPE_of (deref sequence) = LIST_T then list_item T (deref sequence) index
     else Inl TypeError)"

definition obj_length :: "typeobjects \<Rightarrow> object \<Rightarrow> error + int_t" where
  "obj_length T sequence =
    (case (if TYPE_of (deref sequence) = STR_T then str_length T (deref sequence)
           else if TYPE_of (deref sequence) = LIST_T then list_length T (deref sequence)
           else Inl TypeError) of
       Inl e \<Rightarrow> Inl e
     | Inr obj \<Rightarrow> obj_as_int T obj)"

subsection \<open>Operators\<close>


definition obj_eql :: "typeobjects \<Rightarrow> object \<Rightarrow> object \<Rightarrow> error + object" where
  "obj_eql T op1 op2 =
    (if isNumber (deref op1) \<and> isNumber (deref op2) then
       number_eql T (deref op1) (deref op2)
     else if isString (deref op1) \<and> isString (deref op2) then
       str_eql T (deref op1) (deref op2)
     else if isList (deref op1) \<and> isList (deref op2) then
       list_eql T (deref op1) (deref op2)
     else Inr (IntObject 0))"

definition obj_neq :: "typeobjects \<Rightarrow> object \<Rightarrow> object \<Rightarrow> error + object" where
  "obj_neq T op1 op2 =
    (if isNumber (deref op1) \<and> isNumber (deref op2) then
       number_neq T (deref op1) (deref op2)
     else if isString (deref op1) \<and> isString (deref op2) then
       str_neq T (deref op1) (deref op2)
     else if isList (deref op1) \<and> isList (deref op2) then
       list_neq T (deref op1) (deref op2)
     else Inr (IntObject 1))"

text \<open>
  \<^verbatim>\<open>obj_in\<close>. The result pointer starts as NULL and is set only inside the loop, so the
  result is an optional object: \<open>None\<close> is the NULL pointer. \<open>obj_in_loop\<close> is the
  \<^verbatim>\<open>for\<close> loop from index \<open>i\<close> on, with the result so far.
\<close>

function obj_in_loop ::
  "typeobjects \<Rightarrow> object \<Rightarrow> object \<Rightarrow> int_t \<Rightarrow> int_t \<Rightarrow> object option \<Rightarrow> error + object option" where
  "obj_in_loop T op1 op2 len i result =
    (if i < len then
       (case obj_item T op2 (int_of_int_t i) of
          Inl e \<Rightarrow> Inl e
        | Inr item \<Rightarrow>
           (case obj_eql T op1 item of
              Inl e \<Rightarrow> Inl e
            | Inr r \<Rightarrow>
               (case obj_as_int T r of
                  Inl e \<Rightarrow> Inl e
                | Inr v \<Rightarrow>
                   if v = 1 then Inr (Some r)
                   else obj_in_loop T op1 op2 len (i + 1) (Some r))))
     else Inr result)"
  by pat_completeness auto
termination
  by (relation "measure (\<lambda>(T, op1, op2, len, i, result). nat (len - i))") auto

declare obj_in_loop.simps [simp del]

definition obj_in :: "typeobjects \<Rightarrow> object \<Rightarrow> object \<Rightarrow> error + object option" where
  "obj_in T op1 op2 =
    (if \<not> isSequence (deref op2) then Inl TypeError
     else
       (case obj_length T (deref op2) of
          Inl e \<Rightarrow> Inl e
        | Inr len \<Rightarrow> obj_in_loop T (deref op1) (deref op2) len 0 None))"

subsection \<open>A record of type objects to run the model on\<close>

text \<open>
  Modelled from the spec: number.c, str.c and list.c are not among the sources. The
  theorems below hold for every record of type objects; to run the model on concrete
  inputs one record is needed, and this one follows the operator table of the spec where
  the table speaks: the length of a sequence is an int; an index counts from the end when
  negative and is an IndexError out of range; \<open>==\<close> and \<open>!=\<close> give int 0 or 1; a string or a
  list times an int is repeated. It covers chars, ints, strings and lists: its numeric
  methods stop with SystemError on a float, and its casts and C library calls are
  placeholders (no run below reaches them). Indexing a string gives the char at the index
  and indexing a list gives the node, which are this record's choices.
\<close>

definition sample_index :: "nat \<Rightarrow> int \<Rightarrow> error + nat" where
  "sample_index n i =
    (if 0 \<le> i \<and> i < int n then Inr (nat i)
     else if i < 0 \<and> 0 \<le> int n + i then Inr (nat (int n + i))
     else Inl IndexError)"

definition sample_item :: "object \<Rightarrow> int \<Rightarrow> error + object" where
  "sample_item sequence i =
    (case sequence of
       StrObject s \<Rightarrow>
        (case sample_index (length s) i of Inl e \<Rightarrow> Inl e | Inr k \<Rightarrow> Inr (CharObject (s ! k)))
     | ListObject xs \<Rightarrow>
        (case sample_index (length xs) i of
           Inl e \<Rightarrow> Inl e
         | Inr k \<Rightarrow> Inr (ListNodeObject (xs ! k)))
     | _ \<Rightarrow> Inl TypeError)"

definition sample_length :: "object \<Rightarrow> error + object" where
  "sample_length sequence =
    (case sequence of
       StrObject s \<Rightarrow> Inr (IntObject (int (length s)))
     | ListObject xs \<Rightarrow> Inr (IntObject (int (length xs)))
     | _ \<Rightarrow> Inl TypeError)"

definition sample_number :: "object \<Rightarrow> error + int" where
  "sample_number obj =
    (case obj of
       CharObject c \<Rightarrow> Inr (of_char c)
     | IntObject i \<Rightarrow> Inr i
     | FloatObject _ \<Rightarrow> Inl SystemError
     | _ \<Rightarrow> Inl TypeError)"

definition sample_bool :: "bool \<Rightarrow> error + object" where
  "sample_bool b = Inr (IntObject (if b then 1 else 0))"

definition sample_number_eql :: "object \<Rightarrow> object \<Rightarrow> error + object" where
  "sample_number_eql a b =
    (case sample_number a of
       Inl e \<Rightarrow> Inl e
     | Inr x \<Rightarrow> (case sample_number b of Inl e \<Rightarrow> Inl e | Inr y \<Rightarrow> sample_bool (x = y)))"

definition sample_number_neq :: "object \<Rightarrow> object \<Rightarrow> error + object" where
  "sample_number_neq a b =
    (case sample_number a of
       Inl e \<Rightarrow> Inl e
     | Inr x \<Rightarrow> (case sample_number b of Inl e \<Rightarrow> Inl e | Inr y \<Rightarrow> sample_bool (x \<noteq> y)))"

definition sample_number_mul :: "object \<Rightarrow> object \<Rightarrow> error + object" where
  "sample_number_mul a b =
    (case (a, b) of
       (IntObject x, IntObject y) \<Rightarrow> Inr (IntObject (x * y))
     | _ \<Rightarrow> Inl SystemError)"

definition sample_repeat :: "object \<Rightarrow> object \<Rightarrow> error + object" where
  "sample_repeat a b =
    (case (a, b) of
       (StrObject s, IntObject n) \<Rightarrow> Inr (StrObject (concat (replicate (nat n) s)))
     | (IntObject n, StrObject s) \<Rightarrow> Inr (StrObject (concat (replicate (nat n) s)))
     | (ListObject xs, IntObject n) \<Rightarrow> Inr (ListObject (concat (replicate (nat n) xs)))
     | (IntObject n, ListObject xs) \<Rightarrow> Inr (ListObject (concat (replicate (nat n) xs)))
     | _ \<Rightarrow> Inl TypeError)"

definition sample_types :: typeobjects where
  "sample_types =
    \<lparr> number_mul = sample_number_mul,
      number_eql = sample_number_eql,
      number_neq = sample_number_neq,
      str_repeat = sample_repeat,
      str_eql = (\<lambda>a b. sample_bool (a = b)),
      str_neq = (\<lambda>a b. sample_bool (a \<noteq> b)),
      str_item = sample_item,
      str_length = sample_length,
      list_repeat = sample_repeat,
      list_eql = (\<lambda>a b. sample_bool (a = b)),
      list_neq = (\<lambda>a b. sample_bool (a \<noteq> b)),
      list_item = sample_item,
      list_length = sample_length,
      listnode_alloc = ListNodeObject NoneObject,
      position_alloc = PositionObject 0,
      float_to_char = (\<lambda>f. NUL),
      float_to_int = (\<lambda>f. 0),
      char_to_float = (\<lambda>c. 0),
      int_to_float = (\<lambda>i. 0),
      strtol = (\<lambda>s. (0, s, False)),
      strtod = (\<lambda>s. (0, s, False)),
      fmt_int = (\<lambda>i. []),
      fmt_float = (\<lambda>f. []) \<rparr>"

section \<open>The interpreter state (scanner, reader, identifier table)\<close>

text \<open>
  parser.c works on global state: the scanner's current token, the reader's position, the
  identifier table with its levels, the return slot and the two loop flags. The scanner,
  the reader and the identifier table are not among the sources.

  Modelled from the spec (4.2, 4.3, 4.4): the source text is the list of its tokens, each
  with its lexeme; the reader's position is the index of the current token, past the end
  of the list the token is ENDMARKER; \<^verbatim>\<open>scanner.next\<close> moves one token on;
  \<^verbatim>\<open>reader.save\<close> hands out the position and \<^verbatim>\<open>reader.jump\<close> goes back to it, current token
  included. The identifier table is a stack of levels, the innermost first; a level
  lists its names, each with the object it is bound to (\<open>None\<close> while it is bound to
  nothing). An \<^verbatim>\<open>Identifier *\<close> is a name of one level, the level counted from the outermost.

  \<open>token_t\<close> has the token kinds parser.c names; \<open>STR_tok\<close> is its \<^verbatim>\<open>STR\<close>, and \<open>OTHER\<close>
  stands for the kinds only the expression parser reads (operators, literals).
\<close>

datatype token_t =
    DEFCHAR | DEFINT | DEFFLOAT | DEFSTR | DEFLIST | DEFFUNC
  | FOR | DO | IF | ELSE | IMPORT | INPUT | PASS | PRINT | RETURN | WHILE | BREAK | CONTINUE
  | IN | EQUAL | COMMA | LPAR | RPAR | IDENTIFIER | STR_tok
  | NEWLINE | INDENT | DEDENT | ENDMARKER
  | OTHER string

datatype printed = Printed object | Prompt string

type_synonym frame = "(string \<times> object option) list"

type_synonym Identifier = "nat \<times> string"

record interp =
  tokens :: "(token_t \<times> string) list"
  pos :: nat
  do_break :: bool
  do_continue :: bool
  return_value :: "object option"
  scope :: "frame list"
  stdin :: "string list"
  stdout :: "printed list"

subsection \<open>Outcomes\<close>

text \<open>
  A function of parser.c comes back in one of four ways: it returns (\<open>Ok\<close>); it calls
  \<^verbatim>\<open>error\<close>, which ends the interpreter (\<open>Stop\<close>); a \<^verbatim>\<open>return\<close> statement below it does
  \<^verbatim>\<open>longjmp(return_address, 1)\<close>, which leaves every function on the way to the innermost
  \<^verbatim>\<open>setjmp\<close> with the global state as it is (\<open>Longjmp\<close>); or it needs more steps than the
  fuel it was given (\<open>Timeout\<close>). Loops and calls of the interpreter need not end, so the
  functions that loop over statements take fuel. \<open>NullPointer\<close> is not an error kind of
  the source: it stands for reading through a NULL pointer, where the C code has undefined
  behaviour.
\<close>

datatype 'a run = Timeout | Stop error | NullPointer | Longjmp interp | Ok 'a

definition bind_run :: "'a run \<Rightarrow> ('a \<Rightarrow> 'b run) \<Rightarrow> 'b run" where
  "bind_run m f =
    (case m of
       Timeout \<Rightarrow> Timeout
     | Stop e \<Rightarrow> Stop e
     | NullPointer \<Rightarrow> NullPointer
     | Longjmp s \<Rightarrow> Longjmp s
     | Ok x \<Rightarrow> f x)"

definition lift :: "error + 'a \<Rightarrow> 'a run" where
  "lift r = (case r of Inl e \<Rightarrow> Stop e | Inr x \<Rightarrow> Ok x)"

subsection \<open>Scanner and reader\<close>

definition scanner_token :: "interp \<Rightarrow> token_t" where
  "scanner_token s = (if pos s < length (tokens s) then fst (tokens s ! pos s) else ENDMARKER)"

definition scanner_string :: "interp \<Rightarrow> string" where
  "scanner_string s = (if pos s < length (tokens s) then snd (tokens s ! pos s) else [])"

definition scanner_next :: "interp \<Rightarrow> interp" where
  "scanner_next s = s\<lparr>pos := pos s + 1\<rparr>"

definition reader_save :: "interp \<Rightarrow> nat" where
  "reader_save s = pos s"

definition reader_jump :: "nat \<Rightarrow> interp \<Rightarrow> interp" where
  "reader_jump p s = s\<lparr>pos := p\<rparr>"

subsection \<open>Identifier table\<close>

definition declared :: "string \<Rightarrow> frame \<Rightarrow> bool" where
  "declared name f \<longleftrightarrow> name \<in> fst ` set f"

text \<open>\<^verbatim>\<open>identifier.add\<close>: a new name of the innermost level; \<open>None\<close> (NULL) when the level has it.\<close>

definition identifier_add :: "string \<Rightarrow> interp \<Rightarrow> (Identifier \<times> interp) option" where
  "identifier_add name s =
    (case scope s of
       [] \<Rightarrow> Some ((0, name), s\<lparr>scope := [[(name, None)]]\<rparr>)
     | f # fs \<Rightarrow>
        if declared name f then None
        else Some ((length fs, name), s\<lparr>scope := (f @ [(name, None)]) # fs\<rparr>))"

text \<open>\<^verbatim>\<open>identifier.search\<close>: the innermost level that has the name.\<close>

fun search_levels :: "string \<Rightarrow> frame list \<Rightarrow> Identifier option" where
  "search_levels name [] = None"
| "search_levels name (f # fs) =
     (if declared name f then Some (length fs, name) else search_levels name fs)"

definition identifier_search :: "string \<Rightarrow> interp \<Rightarrow> Identifier option" where
  "identifier_search name s = search_levels name (scope s)"

text \<open>\<open>id->object\<close>, \<^verbatim>\<open>identifier.bind\<close> and \<^verbatim>\<open>identifier.unbind\<close>.\<close>

definition level_index :: "interp \<Rightarrow> nat \<Rightarrow> nat" where
  "level_index s lvl = length (scope s) - 1 - lvl"

definition identifier_object :: "Identifier \<Rightarrow> interp \<Rightarrow> object option" where
  "identifier_object ident s =
    (if fst ident < length (scope s) then
       (case map_of (scope s ! level_index s (fst ident)) (snd ident) of
          None \<Rightarrow> None
        | Some b \<Rightarrow> b)
     else None)"

definition set_binding :: "string \<Rightarrow> object option \<Rightarrow> frame \<Rightarrow> frame" where
  "set_binding name b f = map (\<lambda>(k, x). if k = name then (k, b) else (k, x)) f"

definition set_object :: "Identifier \<Rightarrow> object option \<Rightarrow> interp \<Rightarrow> interp" where
  "set_object ident b s =
    (if fst ident < length (scope s) then
       s\<lparr>scope := (scope s)[level_index s (fst ident) :=
                    set_binding (snd ident) b (scope s ! level_index s (fst ident))]\<rparr>
     else s)"

definition identifier_bind :: "Identifier \<Rightarrow> object \<Rightarrow> interp \<Rightarrow> interp" where
  "identifier_bind ident obj s = set_object ident (Some obj) s"

definition identifier_unbind :: "Identifier \<Rightarrow> interp \<Rightarrow> interp" where
  "identifier_unbind ident s = set_object ident None s"

definition scope_append_level :: "interp \<Rightarrow> interp" where
  "scope_append_level s = s\<lparr>scope := [] # scope s\<rparr>"

definition scope_remove_level :: "interp \<Rightarrow> interp" where
  "scope_remove_level s = s\<lparr>scope := tl (scope s)\<rparr>"

subsection \<open>The expression parser and the import\<close>

text \<open>
  expression.c (\<^verbatim>\<open>comma_expr\<close>, \<^verbatim>\<open>assignment_expr\<close>) and \<^verbatim>\<open>reader.import\<close> are not among the
  sources either. They are parameters: an expression parser gets the state and the means
  to call a function (\<^verbatim>\<open>function_call\<close> of parser.c, by the position the function's name
  is bound to) and comes back with an object and the state.
\<close>

type_synonym callfn = "nat \<Rightarrow> interp \<Rightarrow> (object \<times> interp) run"

record exts =
  typeobjs :: typeobjects
  assignment_expr :: "callfn \<Rightarrow> interp \<Rightarrow> (object \<times> interp) run"
  comma_expr :: "callfn \<Rightarrow> interp \<Rightarrow> (object \<times> interp) run"
  reader_import :: "string \<Rightarrow> interp \<Rightarrow> interp run"

section \<open>The parser (parser.c)\<close>

subsection \<open>Tokens\<close>

definition accept :: "token_t \<Rightarrow> interp \<Rightarrow> bool \<times> interp" where
  "accept t s = (if scanner_token s = t then (True, scanner_next s) else (False, s))"

definition expect :: "token_t \<Rightarrow> interp \<Rightarrow> interp run" where
  "expect t s = (if fst (accept t s) then Ok (snd (accept t s)) else Stop SyntaxError)"

subsection \<open>Skipping\<close>

text \<open>
  The loop of \<^verbatim>\<open>skip_block\<close>, which \<^verbatim>\<open>block\<close> repeats to leave a block early:
  \<^verbatim>\<open>do { next; if INDENT level++; if DEDENT level--; } while (level && token != ENDMARKER)\<close>.
  It ends because the token list does.
\<close>

function skip_levels :: "int \<Rightarrow> interp \<Rightarrow> interp" where
  "skip_levels level s =
    (let s1 = scanner_next s;
         level1 = (if scanner_token s1 = INDENT then level + 1 else level);
         level2 = (if scanner_token s1 = DEDENT then level1 - 1 else level1)
     in if level2 \<noteq> 0 \<and> scanner_token s1 \<noteq> ENDMARKER then skip_levels level2 s1 else s1)"
  by pat_completeness auto
termination
  by (relation "measure (\<lambda>(level, s). length (tokens s) - pos s)")
     (auto simp add: scanner_next_def scanner_token_def split: if_splits)

declare skip_levels.simps [simp del]

definition skip_block :: "interp \<Rightarrow> interp run" where
  "skip_block s =
    bind_run (expect NEWLINE s) (\<lambda>s1.
    bind_run (expect INDENT s1) (\<lambda>s2.
    Ok (scanner_next (skip_levels 1 s2))))"

text \<open>\<^verbatim>\<open>while (token != NEWLINE && token != ENDMARKER) next\<close> of \<^verbatim>\<open>skip_function\<close>.\<close>

function skip_line :: "interp \<Rightarrow> interp" where
  "skip_line s =
    (if scanner_token s \<noteq> NEWLINE \<and> scanner_token s \<noteq> ENDMARKER then skip_line (scanner_next s)
     else s)"
  by pat_completeness auto
termination
  by (relation "measure (\<lambda>s. length (tokens s) - pos s)")
     (auto simp add: scanner_next_def scanner_token_def split: if_splits)

declare skip_line.simps [simp del]

definition skip_function :: "interp \<Rightarrow> interp run" where
  "skip_function s =
    bind_run (expect IDENTIFIER s) (\<lambda>s1.
    bind_run (expect LPAR s1) (\<lambda>s2.
    skip_block (skip_line s2)))"

subsection \<open>Blocks\<close>

text \<open>
  \<^verbatim>\<open>block\<close> runs statements until the token is DEDENT or ENDMARKER, or until a flag is set
  and the rest of the block is skipped. \<open>stmt\<close> is \<^verbatim>\<open>statement\<close>.
\<close>

primrec block_loop :: "nat \<Rightarrow> (interp \<Rightarrow> interp run) \<Rightarrow> interp \<Rightarrow> interp run" where
  "block_loop 0 stmt s = Timeout"
| "block_loop (Suc n) stmt s =
    bind_run (stmt s) (\<lambda>s1.
      if scanner_token s1 = DEDENT \<or> scanner_token s1 = ENDMARKER then Ok s1
      else if do_break s1 \<or> do_continue s1 then Ok (skip_levels 1 s1)
      else block_loop n stmt s1)"

definition block :: "nat \<Rightarrow> (interp \<Rightarrow> interp run) \<Rightarrow> interp \<Rightarrow> interp run" where
  "block n stmt s =
    bind_run (expect NEWLINE s) (\<lambda>s1.
    bind_run (expect INDENT s1) (\<lambda>s2.
    block_loop n stmt s2))"

subsection \<open>Simple statements\<close>

definition expression_stmnt :: "exts \<Rightarrow> callfn \<Rightarrow> interp \<Rightarrow> interp run" where
  "expression_stmnt X call s =
    bind_run (comma_expr X call s) (\<lambda>(obj, s1). expect NEWLINE s1)"

text \<open>
  \<^verbatim>\<open>obj_create(type, value)\<close>: an object of the type that holds the value. The sources
  call it with a value of the type asked for; \<open>IntArg\<close> and its like are the variable
  argument.
\<close>

datatype vararg = CharArg char_t | IntArg int_t | FloatArg float_t | StrArg string

definition obj_create :: "typeobjects \<Rightarrow> objecttype_t \<Rightarrow> vararg \<Rightarrow> object" where
  "obj_create T type arg =
    (case (obj_alloc T type, arg) of
       (CharObject _, CharArg c) \<Rightarrow> CharObject c
     | (IntObject _, IntArg i) \<Rightarrow> IntObject i
     | (FloatObject _, FloatArg f) \<Rightarrow> FloatObject f
     | (StrObject _, StrArg s) \<Rightarrow> StrObject (cstring s)
     | (obj, _) \<Rightarrow> obj)"

primrec variable_declaration ::
  "nat \<Rightarrow> exts \<Rightarrow> callfn \<Rightarrow> objecttype_t \<Rightarrow> interp \<Rightarrow> interp run" where
  "variable_declaration 0 X call type s = Timeout"
| "variable_declaration (Suc n) X call type s =
    (if scanner_token s \<noteq> IDENTIFIER then Stop SyntaxError
     else
       (case identifier_add (scanner_string s) s of
          None \<Rightarrow> Stop NameError
        | Some (ident, s1) \<Rightarrow>
           bind_run
             (let s2 = scanner_next (identifier_bind ident (obj_alloc (typeobjs X) type) s1)
              in if fst (accept EQUAL s2) then
                   bind_run (assignment_expr X call (snd (accept EQUAL s2))) (\<lambda>(obj, s3).
                     (case identifier_object ident s3 of
                        None \<Rightarrow> NullPointer
                      | Some target \<Rightarrow>
                         bind_run (lift (obj_assign (typeobjs X) target obj)) (\<lambda>v.
                           Ok (identifier_bind ident v s3))))
                 else Ok s2)
             (\<lambda>s4.
               if fst (accept NEWLINE s4) then Ok (snd (accept NEWLINE s4))
               else bind_run (expect COMMA s4) (\<lambda>s5. variable_declaration n X call type s5))))"

definition condition :: "exts \<Rightarrow> callfn \<Rightarrow> interp \<Rightarrow> (bool \<times> interp) run" where
  "condition X call s =
    bind_run (comma_expr X call s) (\<lambda>(obj, s1).
    bind_run (lift (obj_as_bool (typeobjs X) obj)) (\<lambda>result. Ok (result, s1)))"

primrec print_loop :: "nat \<Rightarrow> exts \<Rightarrow> callfn \<Rightarrow> interp \<Rightarrow> interp run" where
  "print_loop 0 X call s = Timeout"
| "print_loop (Suc n) X call s =
    bind_run (assignment_expr X call s) (\<lambda>(obj, s1).
      let s2 = s1\<lparr>stdout := stdout s1 @ [Printed obj]\<rparr>
      in if fst (accept COMMA s2) then print_loop n X call (snd (accept COMMA s2))
         else expect NEWLINE s2)"

definition print_stmnt :: "nat \<Rightarrow> exts \<Rightarrow> callfn \<Rightarrow> interp \<Rightarrow> interp run" where
  "print_stmnt n X call s = print_loop n X call s"

text \<open>
  \<^verbatim>\<open>obj_scan\<close> (object.c) reads one line of standard input, cuts it at the first carriage
  return or newline and converts it. At the end of the input the buffer stays empty.
  Lines longer than the buffer are beyond the model.
\<close>

definition obj_scan :: "typeobjects \<Rightarrow> objecttype_t \<Rightarrow> interp \<Rightarrow> (object \<times> interp) run" where
  "obj_scan T type s =
    (let buffer = takeWhile (\<lambda>c. c \<noteq> CHR 0x0D \<and> c \<noteq> CHR 0x0A)
                    (case stdin s of [] \<Rightarrow> [] | l # _ \<Rightarrow> l);
         s1 = s\<lparr>stdin := tl (stdin s)\<rparr>
     in case type of
          CHAR_T \<Rightarrow>
            bind_run (lift (str_to_char buffer)) (\<lambda>c. Ok (obj_create T CHAR_T (CharArg c), s1))
        | INT_T \<Rightarrow>
            bind_run (lift (str_to_int T buffer)) (\<lambda>i. Ok (obj_create T INT_T (IntArg i), s1))
        | FLOAT_T \<Rightarrow>
            bind_run (lift (str_to_float T buffer)) (\<lambda>f. Ok (obj_create T FLOAT_T (FloatArg f), s1))
        | STR_T \<Rightarrow> Ok (obj_create T STR_T (StrArg buffer), s1)
        | _ \<Rightarrow> Stop TypeError)"

primrec input_loop :: "nat \<Rightarrow> exts \<Rightarrow> interp \<Rightarrow> interp run" where
  "input_loop 0 X s = Timeout"
| "input_loop (Suc n) X s =
    (let s1 = (if scanner_token s = STR_tok
               then scanner_next (s\<lparr>stdout := stdout s @ [Prompt (scanner_string s)]\<rparr>)
               else s)
     in if scanner_token s1 \<noteq> IDENTIFIER then Stop SyntaxError
        else
          (case identifier_search (scanner_string s1) s1 of
             None \<Rightarrow> Stop NameError
           | Some ident \<Rightarrow>
              (case identifier_object ident s1 of
                 None \<Rightarrow> NullPointer
               | Some target \<Rightarrow>
                  bind_run (obj_scan (typeobjs X) (TYPE_of target) s1) (\<lambda>(obj, s2).
                    let s3 = snd (accept IDENTIFIER (identifier_bind ident obj s2))
                    in if fst (accept COMMA s3) then input_loop n X (snd (accept COMMA s3))
                       else expect NEWLINE s3))))"

definition input_stmnt :: "nat \<Rightarrow> exts \<Rightarrow> interp \<Rightarrow> interp run" where
  "input_stmnt n X s = input_loop n X s"

primrec import_loop :: "nat \<Rightarrow> exts \<Rightarrow> callfn \<Rightarrow> interp \<Rightarrow> interp run" where
  "import_loop 0 X call s = Timeout"
| "import_loop (Suc n) X call s =
    bind_run (assignment_expr X call s) (\<lambda>(obj, s1).
    bind_run (lift (obj_as_str obj)) (\<lambda>path.
    bind_run (reader_import X path s1) (\<lambda>s2.
      let s3 = reader_jump (reader_save s1) s2
      in if fst (accept COMMA s3) then import_loop n X call (snd (accept COMMA s3))
         else expect NEWLINE s3)))"

definition import_stmt :: "nat \<Rightarrow> exts \<Rightarrow> callfn \<Rightarrow> interp \<Rightarrow> interp run" where
  "import_stmt n X call s = import_loop n X call s"

text \<open>
  \<^verbatim>\<open>return_stmt\<close> fills the return slot and jumps: it never comes back to its caller.
\<close>

definition return_stmt :: "exts \<Rightarrow> callfn \<Rightarrow> interp \<Rightarrow> interp run" where
  "return_stmt X call s =
    bind_run
      (if scanner_token s = NEWLINE
       then Ok (s\<lparr>return_value := Some (obj_create (typeobjs X) INT_T (IntArg 0))\<rparr>)
       else bind_run (comma_expr X call s) (\<lambda>(obj, s1). Ok (s1\<lparr>return_value := Some obj\<rparr>)))
      (\<lambda>s2. bind_run (expect NEWLINE s2) (\<lambda>s3. Longjmp s3))"

subsection \<open>Conditional and loops\<close>

text \<open>In the statements below \<open>blk\<close> is \<^verbatim>\<open>block\<close>.\<close>

definition if_stmnt ::
  "exts \<Rightarrow> callfn \<Rightarrow> (interp \<Rightarrow> interp run) \<Rightarrow> interp \<Rightarrow> interp run" where
  "if_stmnt X call blk s =
    bind_run (condition X call s) (\<lambda>(c, s1).
      if c then
        bind_run (blk s1) (\<lambda>s2.
        bind_run (expect DEDENT s2) (\<lambda>s3.
          if fst (accept ELSE s3) then skip_block (snd (accept ELSE s3)) else Ok s3))
      else
        bind_run (skip_block s1) (\<lambda>s2.
          if fst (accept ELSE s2) then
            bind_run (blk (snd (accept ELSE s2))) (\<lambda>s3. expect DEDENT s3)
          else Ok s2))"

text \<open>
  \<^verbatim>\<open>while (condition() && !do_break) { block(); do_continue = 0; reader.jump(loop); }\<close>.
  The loop comes back with the state in which the test failed.
\<close>

primrec while_loop ::
  "nat \<Rightarrow> exts \<Rightarrow> callfn \<Rightarrow> (interp \<Rightarrow> interp run) \<Rightarrow> nat \<Rightarrow> interp \<Rightarrow> interp run" where
  "while_loop 0 X call blk loop s = Timeout"
| "while_loop (Suc n) X call blk loop s =
    bind_run (condition X call s) (\<lambda>(c, s1).
      if c \<and> \<not> do_break s1 then
        bind_run (blk s1) (\<lambda>s2.
          while_loop n X call blk loop (reader_jump loop (s2\<lparr>do_continue := False\<rparr>)))
      else Ok s1)"

definition while_stmnt ::
  "nat \<Rightarrow> exts \<Rightarrow> callfn \<Rightarrow> (interp \<Rightarrow> interp run) \<Rightarrow> interp \<Rightarrow> interp run" where
  "while_stmnt n X call blk s =
    (let s1 = s\<lparr>do_break := False, do_continue := False\<rparr>;
         loop = reader_save s1
     in bind_run (while_loop n X call blk loop s1) (\<lambda>s2.
          skip_block (s2\<lparr>do_break := False\<rparr>)))"

text \<open>
  \<^verbatim>\<open>do { reader.jump(loop); block(); do_continue = 0; expect(DEDENT); expect(WHILE); }
  while (condition() && !do_break);\<close>
\<close>

primrec do_loop ::
  "nat \<Rightarrow> exts \<Rightarrow> callfn \<Rightarrow> (interp \<Rightarrow> interp run) \<Rightarrow> nat \<Rightarrow> interp \<Rightarrow> interp run" where
  "do_loop 0 X call blk loop s = Timeout"
| "do_loop (Suc n) X call blk loop s =
    bind_run (blk (reader_jump loop s)) (\<lambda>s1.
    bind_run (expect DEDENT (s1\<lparr>do_continue := False\<rparr>)) (\<lambda>s2.
    bind_run (expect WHILE s2) (\<lambda>s3.
    bind_run (condition X call s3) (\<lambda>(c, s4).
      if c \<and> \<not> do_break s4 then do_loop n X call blk loop s4 else Ok s4))))"

definition do_stmnt ::
  "nat \<Rightarrow> exts \<Rightarrow> callfn \<Rightarrow> (interp \<Rightarrow> interp run) \<Rightarrow> interp \<Rightarrow> interp run" where
  "do_stmnt n X call blk s =
    (if scanner_token s \<noteq> NEWLINE then Stop SyntaxError
     else
       (let s1 = s\<lparr>do_break := False, do_continue := False\<rparr>;
            loop = reader_save s1
        in bind_run (do_loop n X call blk loop s1) (\<lambda>s2.
             expect NEWLINE (s2\<lparr>do_break := False\<rparr>))))"

text \<open>
  \<^verbatim>\<open>for (i = 0; i < len && !do_break; i++) { identifier.bind(id, obj_item(sequence, i));
  block(); identifier.unbind(id); do_continue = 0; reader.jump(loop); }\<close>.
  \<open>ident\<close> is the \<^verbatim>\<open>id\<close> of \<^verbatim>\<open>for_stmnt\<close>, \<open>None\<close> when it is NULL.
\<close>

primrec for_loop ::
  "nat \<Rightarrow> exts \<Rightarrow> (interp \<Rightarrow> interp run) \<Rightarrow> nat \<Rightarrow> Identifier option \<Rightarrow> object \<Rightarrow>
   int_t \<Rightarrow> int_t \<Rightarrow> interp \<Rightarrow> interp run" where
  "for_loop 0 X blk loop ident sequence len i s = Timeout"
| "for_loop (Suc n) X blk loop ident sequence len i s =
    (if i < len \<and> \<not> do_break s then
       bind_run (lift (obj_item (typeobjs X) sequence (int_of_int_t i))) (\<lambda>item.
         (case ident of
            None \<Rightarrow> NullPointer
          | Some ident' \<Rightarrow>
             bind_run (blk (identifier_bind ident' item s)) (\<lambda>s1.
               for_loop n X blk loop ident sequence len (i + 1)
                 (reader_jump loop ((identifier_unbind ident' s1)\<lparr>do_continue := False\<rparr>)))))
     else Ok s)"

definition for_stmnt ::
  "nat \<Rightarrow> exts \<Rightarrow> callfn \<Rightarrow> (interp \<Rightarrow> interp run) \<Rightarrow> interp \<Rightarrow> interp run" where
  "for_stmnt n X call blk s =
    (let (ident, s0) =
           (if scanner_token s = IDENTIFIER then
              (case identifier_search (scanner_string s) s of
                 Some ident' \<Rightarrow> (Some ident', s)
               | None \<Rightarrow>
                  (case identifier_add (scanner_string s) s of
                     None \<Rightarrow> (None, s)
                   | Some (ident', s') \<Rightarrow> (Some ident', s')))
            else (None, s))
     in bind_run (expect IDENTIFIER s0) (\<lambda>s1.
        bind_run (expect IN s1) (\<lambda>s2.
        bind_run (comma_expr X call s2) (\<lambda>(sequence, s3).
        bind_run (lift (obj_length (typeobjs X) sequence)) (\<lambda>len.
          if scanner_token s3 \<noteq> NEWLINE then Stop SyntaxError
          else
            (let s4 = s3\<lparr>do_break := False, do_continue := False\<rparr>;
                 loop = reader_save s4
             in bind_run (for_loop n X blk loop ident sequence len 0 s4) (\<lambda>s5.
                  skip_block (s5\<lparr>do_break := False\<rparr>))))))))"

subsection \<open>Function calls\<close>

text \<open>
  The argument list is the list of the values its nodes own. \<^verbatim>\<open>listnode_append\<close> adds a
  node at the end, \<^verbatim>\<open>listnode_remove(list, 0)\<close> takes the first node off and hands out its
  value, NULL when the list is empty (modelled from the spec: list.c is not among the
  sources).
\<close>

primrec push_loop ::
  "nat \<Rightarrow> exts \<Rightarrow> callfn \<Rightarrow> object list \<Rightarrow> interp \<Rightarrow> (object list \<times> interp) run" where
  "push_loop 0 X call list s = Timeout"
| "push_loop (Suc n) X call list s =
    (if scanner_token s \<noteq> RPAR then
       bind_run (assignment_expr X call s) (\<lambda>(obj, s1).
       bind_run (lift (obj_copy obj)) (\<lambda>copy.
         if scanner_token s1 = RPAR then push_loop n X call (list @ [copy]) s1
         else bind_run (expect COMMA s1) (\<lambda>s2. push_loop n X call (list @ [copy]) s2)))
     else Ok (list, s))"

definition push_arguments ::
  "nat \<Rightarrow> exts \<Rightarrow> callfn \<Rightarrow> interp \<Rightarrow> (object list \<times> interp) run" where
  "push_arguments n X call s =
    bind_run (expect LPAR s) (\<lambda>s1. push_loop n X call [] s1)"

text \<open>
  \<^verbatim>\<open>pop_arguments\<close>: the formal parameters, each bound to the value taken off the front of
  the argument list. \<open>pop_loop\<close> is its \<^verbatim>\<open>while (scanner.token != RPAR)\<close>; it comes back
  with what is left of the list.
\<close>

function pop_loop :: "object list \<Rightarrow> interp \<Rightarrow> (object list \<times> interp) run" where
  "pop_loop list s =
    (if scanner_token s \<noteq> RPAR then
       (if scanner_token s \<noteq> IDENTIFIER then Stop SyntaxError
        else
          (case identifier_add (scanner_string s) s of
             None \<Rightarrow> Stop NameError
           | Some (ident, s1) \<Rightarrow>
              (case list of
                 [] \<Rightarrow> Stop SyntaxError
               | obj # rest \<Rightarrow>
                  bind_run (expect IDENTIFIER (identifier_bind ident obj s1)) (\<lambda>s2.
                    pop_loop rest (snd (accept COMMA s2))))))
     else Ok (list, s))"
  by pat_completeness auto
termination
  by (relation "measure (\<lambda>(list, s). length list)") auto

declare pop_loop.simps [simp del]

definition pop_arguments :: "object list \<Rightarrow> interp \<Rightarrow> (object list \<times> interp) run" where
  "pop_arguments list s = bind_run (expect LPAR s) (\<lambda>s1. pop_loop list s1)"

text \<open>
  \<^verbatim>\<open>function_call\<close>. \<open>function_return\<close> is what follows the \<^verbatim>\<open>setjmp\<close>: control arrives
  there when the block returns and when a \<^verbatim>\<open>return\<close> statement jumps.
\<close>

definition function_return :: "exts \<Rightarrow> nat \<Rightarrow> interp \<Rightarrow> (object \<times> interp) run" where
  "function_return X return_to s =
    (let obj = (case return_value s of
                  None \<Rightarrow> obj_create (typeobjs X) INT_T (IntArg 0)
                | Some v \<Rightarrow> v);
         s1 = snd (accept RPAR (reader_jump return_to s));
         s2 = scope_remove_level s1
     in Ok (obj, s2\<lparr>return_value := None\<rparr>))"

definition function_call_body ::
  "nat \<Rightarrow> exts \<Rightarrow> (interp \<Rightarrow> interp run) \<Rightarrow> callfn \<Rightarrow> nat \<Rightarrow> interp \<Rightarrow> (object \<times> interp) run" where
  "function_call_body n X stmt call addr s =
    bind_run (push_arguments n X call s) (\<lambda>(arglist, s1).
      let s2 = scope_append_level s1;
          return_to = reader_save s2
      in bind_run (expect IDENTIFIER (reader_jump addr s2)) (\<lambda>s3.
         bind_run (pop_arguments arglist s3) (\<lambda>(rest, s4).
         bind_run (expect RPAR s4) (\<lambda>s5.
           (case block n stmt s5 of
              Timeout \<Rightarrow> Timeout
            | Stop e \<Rightarrow> Stop e
            | NullPointer \<Rightarrow> NullPointer
            | Longjmp s6 \<Rightarrow> function_return X return_to s6
            | Ok s6 \<Rightarrow> function_return X return_to s6)))))"

subsection \<open>Statements\<close>

text \<open>
  \<^verbatim>\<open>statement\<close> tries the tokens in the order of the source. \<open>stmt\<close> is \<^verbatim>\<open>statement\<close>
  itself, for the blocks of the compound statements, and \<open>call\<close> is \<^verbatim>\<open>function_call\<close>,
  for the expression parser.
\<close>

definition statement_body ::
  "nat \<Rightarrow> exts \<Rightarrow> (interp \<Rightarrow> interp run) \<Rightarrow> callfn \<Rightarrow> interp \<Rightarrow> interp run" where
  "statement_body n X stmt call s =
    (if fst (accept DEFCHAR s) then variable_declaration n X call CHAR_T (snd (accept DEFCHAR s))
     else if fst (accept DEFINT s) then variable_declaration n X call INT_T (snd (accept DEFINT s))
     else if fst (accept DEFFLOAT s) then
       variable_declaration n X call FLOAT_T (snd (accept DEFFLOAT s))
     else if fst (accept DEFSTR s) then variable_declaration n X call STR_T (snd (accept DEFSTR s))
     else if fst (accept DEFLIST s) then
       variable_declaration n X call LIST_T (snd (accept DEFLIST s))
     else if fst (accept DEFFUNC s) then skip_function (snd (accept DEFFUNC s))
     else if fst (accept FOR s) then for_stmnt n X call (block n stmt) (snd (accept FOR s))
     else if fst (accept DO s) then do_stmnt n X call (block n stmt) (snd (accept DO s))
     else if fst (accept IF s) then if_stmnt X call (block n stmt) (snd (accept IF s))
     else if fst (accept IMPORT s) then import_stmt n X call (snd (accept IMPORT s))
     else if fst (accept INPUT s) then input_stmnt n X (snd (accept INPUT s))
     else if fst (accept PASS s) then expect NEWLINE (snd (accept PASS s))
     else if fst (accept PRINT s) then print_stmnt n X call (snd (accept PRINT s))
     else if fst (accept RETURN s) then return_stmt X call (snd (accept RETURN s))
     else if fst (accept DEDENT s) then return_stmt X call (snd (accept DEDENT s))
     else if fst (accept WHILE s) then while_stmnt n X call (block n stmt) (snd (accept WHILE s))
     else if fst (accept BREAK s) then Ok ((snd (accept BREAK s))\<lparr>do_break := True\<rparr>)
     else if fst (accept CONTINUE s) then Ok ((snd (accept CONTINUE s))\<lparr>do_continue := True\<rparr>)
     else if fst (accept ENDMARKER s) then Ok (snd (accept ENDMARKER s))
     else expression_stmnt X call s)"

text \<open>
  \<^verbatim>\<open>statement\<close> and \<^verbatim>\<open>function_call\<close> call each other (through the blocks and through the
  expression parser). With fuel \<open>Suc n\<close> each runs its body, in which every statement and
  every call has fuel \<open>n\<close> and every loop makes at most \<open>n\<close> rounds.
\<close>

fun statement :: "nat \<Rightarrow> exts \<Rightarrow> interp \<Rightarrow> interp run"
  and function_call :: "nat \<Rightarrow> exts \<Rightarrow> nat \<Rightarrow> interp \<Rightarrow> (object \<times> interp) run" where
  "statement 0 X s = Timeout"
| "statement (Suc n) X s = statement_body n X (statement n X) (function_call n X) s"
| "function_call 0 X addr s = Timeout"
| "function_call (Suc n) X addr s =
     function_call_body n X (statement n X) (function_call n X) addr s"

subsection \<open>An expression parser to run the model on\<close>

text \<open>
  Modelled from the spec (4.5.14): expression.c is not among the sources. The theorems
  below hold for every expression parser; to run the interpreter on concrete programs one
  is needed, and this one reads the primaries the runs below use: an integer literal (a
  token of kind \<open>OTHER ''INT''\<close> whose lexeme is its decimal digits), an identifier (the
  object it is bound to), and a call \<^verbatim>\<open>IDENTIFIER ( args )\<close> of the function whose
  position the identifier is bound to. Importing a file does nothing here.
\<close>

definition sample_decimal :: "string \<Rightarrow> int" where
  "sample_decimal ds = foldl (\<lambda>a c. 10 * a + (of_char c - 48)) 0 ds"

definition sample_expr :: "callfn \<Rightarrow> interp \<Rightarrow> (object \<times> interp) run" where
  "sample_expr call s =
    (if scanner_token s = OTHER ''INT'' then
       Ok (IntObject (sample_decimal (scanner_string s)), scanner_next s)
     else if scanner_token s = IDENTIFIER then
       (case identifier_search (scanner_string s) s of
          None \<Rightarrow> Stop NameError
        | Some ident \<Rightarrow>
           (case identifier_object ident s of
              None \<Rightarrow> NullPointer
            | Some obj \<Rightarrow>
               if scanner_token (scanner_next s) = LPAR then
                 (case obj of
                    PositionObject addr \<Rightarrow> call addr (scanner_next s)
                  | _ \<Rightarrow> Stop TypeError)
               else Ok (obj, scanner_next s)))
     else Stop SyntaxError)"

definition sample_exts :: exts where
  "sample_exts =
    \<lparr> typeobjs = sample_types,
      assignment_expr = sample_expr,
      comma_expr = sample_expr,
      reader_import = (\<lambda>path s. Ok s) \<rparr>"

section \<open>Notions the claims are stated with\<close>

subsection \<open>Blocks of the token list\<close>

text \<open>
  \<open>token_at\<close> reads the token list as the scanner does. \<open>depth\<close> counts INDENT up and
  DEDENT down. \<open>open_at level body\<close>: reading \<open>body\<close> from nesting \<open>level\<close> never closes
  the level and never meets ENDMARKER.

  \<open>past_block toks q p\<close>: position \<open>p\<close> is just past the block that starts at \<open>q\<close>. The
  block is NEWLINE at \<open>q\<close>, INDENT, the first token of its first statement, a body that
  stays inside the block, and the DEDENT that closes it (or ENDMARKER, when the source ends
  inside the block); \<open>p\<close> is the position after that last token.
\<close>

definition token_at :: "(token_t \<times> string) list \<Rightarrow> nat \<Rightarrow> token_t" where
  "token_at toks p = (if p < length toks then fst (toks ! p) else ENDMARKER)"

fun depth :: "token_t list \<Rightarrow> int" where
  "depth [] = 0"
| "depth (t # ts) = (if t = INDENT then 1 else if t = DEDENT then - 1 else 0) + depth ts"

definition open_at :: "int \<Rightarrow> token_t list \<Rightarrow> bool" where
  "open_at level body \<longleftrightarrow>
     ENDMARKER \<notin> set body \<and> (\<forall>k \<le> length body. 0 < level + depth (take k body))"

definition past_block :: "(token_t \<times> string) list \<Rightarrow> nat \<Rightarrow> nat \<Rightarrow> bool" where
  "past_block toks q p \<longleftrightarrow>
     q + 3 < p \<and> token_at toks q = NEWLINE \<and> token_at toks (q + 1) = INDENT \<and>
     open_at 1 (map (token_at toks) [q + 3 ..< p - 1]) \<and>
     (token_at toks (p - 1) = DEDENT \<and> depth (map (token_at toks) [q + 3 ..< p - 1]) = 0 \<or>
      token_at toks (p - 1) = ENDMARKER)"

subsection \<open>The head of a \<^verbatim>\<open>for\<close> statement\<close>

text \<open>
  \<open>for_header\<close> is what \<^verbatim>\<open>for_stmnt\<close> does before it assigns the loop flags: it finds or
  adds the loop variable, expects the identifier and \<^verbatim>\<open>in\<close>, evaluates the sequence
  expression, takes its length and checks for NEWLINE. It hands on the loop variable, the
  sequence, the length and the state.
\<close>

definition for_header ::
  "exts \<Rightarrow> callfn \<Rightarrow> interp \<Rightarrow> (Identifier option \<times> object \<times> int_t \<times> interp) run" where
  "for_header X call s =
    (let (ident, s0) =
           (if scanner_token s = IDENTIFIER then
              (case identifier_search (scanner_string s) s of
                 Some ident' \<Rightarrow> (Some ident', s)
               | None \<Rightarrow>
                  (case identifier_add (scanner_string s) s of
                     None \<Rightarrow> (None, s)
                   | Some (ident', s') \<Rightarrow> (Some ident', s')))
            else (None, s))
     in bind_run (expect IDENTIFIER s0) (\<lambda>s1.
        bind_run (expect IN s1) (\<lambda>s2.
        bind_run (comma_expr X call s2) (\<lambda>(sequence, s3).
        bind_run (lift (obj_length (typeobjs X) sequence)) (\<lambda>len.
          if scanner_token s3 \<noteq> NEWLINE then Stop SyntaxError
          else Ok (ident, sequence, len, s3))))))"

subsection \<open>Formal parameter lists\<close>

text \<open>
  \<open>formals_at toks p fs\<close>: from position \<open>p\<close> the token list holds the identifiers \<open>fs\<close>,
  each with the flag whether a comma follows it, and then RPAR.
\<close>

fun formals_at :: "(token_t \<times> string) list \<Rightarrow> nat \<Rightarrow> (string \<times> bool) list \<Rightarrow> bool" where
  "formals_at toks p [] \<longleftrightarrow> token_at toks p = RPAR"
| "formals_at toks p ((name, comma) # fs) \<longleftrightarrow>
     p < length toks \<and> toks ! p = (IDENTIFIER, name) \<and>
     (if comma then token_at toks (p + 1) = COMMA \<and> formals_at toks (p + 2) fs
      else token_at toks (p + 1) \<noteq> COMMA \<and> formals_at toks (p + 1) fs)"

fun formals_end :: "nat \<Rightarrow> (string \<times> bool) list \<Rightarrow> nat" where
  "formals_end p [] = p"
| "formals_end p ((name, comma) # fs) = formals_end (if comma then p + 2 else p + 1) fs"

text \<open>
  \<open>bind_formals fs args f\<close>: the level \<open>f\<close> with the formals \<open>fs\<close> added, each bound to the
  argument at its place in \<open>args\<close>.
\<close>

definition bind_formals :: "(string \<times> bool) list \<Rightarrow> object list \<Rightarrow> frame \<Rightarrow> frame" where
  "bind_formals fs args f = f @ map (\<lambda>((name, comma), obj). (name, Some obj)) (zip fs args)"

subsection \<open>The return slot and the jump of \<^verbatim>\<open>return\<close>\<close>



text \<open>
  \<open>good P st rv r\<close>, for an outcome \<open>r\<close> of a run that started with the return slot \<open>rv\<close>:
  if the run jumped, the state it jumped with satisfies \<open>P\<close>; if it returned and the slot
  was empty at the start, the slot is empty in the state \<open>st\<close> reads off the result.
  \<open>returned X u\<close>: the state \<open>u\<close> is the one some run of \<^verbatim>\<open>return_stmt\<close> jumped with.
\<close>

definition good :: "(interp \<Rightarrow> bool) \<Rightarrow> ('a \<Rightarrow> interp) \<Rightarrow> object option \<Rightarrow> 'a run \<Rightarrow> bool" where
  "good P st rv r \<longleftrightarrow>
     (\<forall>u. r = Longjmp u \<longrightarrow> P u) \<and>
     (\<forall>x. r = Ok x \<longrightarrow> rv = None \<longrightarrow> return_value (st x) = None)"


section \<open>Programs the model is run on\<close>

text \<open>
  \<^verbatim>\<open>for x in xs\<close> with the body \<^verbatim>\<open>print x\<close>; the state is the one after \<^verbatim>\<open>statement\<close>
  accepted FOR, with \<open>xs\<close> a list of two ints.
\<close>

definition for_prog :: "(token_t \<times> string) list" where
  "for_prog =
    [(FOR, ''for''), (IDENTIFIER, ''x''), (IN, ''in''), (IDENTIFIER, ''xs''), (NEWLINE, []),
     (INDENT, []), (PRINT, ''print''), (IDENTIFIER, ''x''), (NEWLINE, []), (DEDENT, []), (ENDMARKER, [])]"

definition for_state :: interp where
  "for_state =
    \<lparr> tokens = for_prog, pos = 1, do_break = False, do_continue = False, return_value = None,
      scope = [[(''xs'', Some (ListObject [IntObject 1, IntObject 2]))]],
      stdin = [], stdout = [] \<rparr>"

text \<open>
  A \<^verbatim>\<open>while\<close> loop whose condition is 0 and a \<^verbatim>\<open>do\<close> loop that makes one round; the states
  are the ones after \<^verbatim>\<open>statement\<close> accepted WHILE and DO, entered with both flags set.
\<close>

definition do_prog :: "(token_t \<times> string) list" where
  "do_prog =
    [(DO, ''do''), (NEWLINE, []), (INDENT, []), (PRINT, ''print''), (IDENTIFIER, ''x''),
     (NEWLINE, []), (DEDENT, []), (WHILE, ''while''), (IDENTIFIER, ''x''), (NEWLINE, []),
     (ENDMARKER, [])]"

definition do_state :: interp where
  "do_state =
    \<lparr> tokens = do_prog, pos = 1, do_break = True, do_continue = True,
      return_value = None, scope = [[(''x'', Some (IntObject 0))]],
      stdin = [], stdout = [] \<rparr>"

definition never_prog :: "(token_t \<times> string) list" where
  "never_prog =
    [(WHILE, ''while''), (IDENTIFIER, ''x''), (NEWLINE, []), (INDENT, []), (PRINT, ''print''),
     (IDENTIFIER, ''x''), (NEWLINE, []), (DEDENT, []), (ENDMARKER, [])]"

definition never_state :: interp where
  "never_state =
    \<lparr> tokens = never_prog, pos = 1, do_break = True, do_continue = True,
      return_value = None, scope = [[(''x'', Some (IntObject 0))]],
      stdin = [], stdout = [] \<rparr>"

text \<open>
  \<^verbatim>\<open>def f()\<close> with the body \<^verbatim>\<open>continue\<close>, and \<^verbatim>\<open>while f()\<close> with the body \<^verbatim>\<open>pass\<close>. The
  identifier \<open>f\<close> is bound to the position of its name in the definition, as
  \<^verbatim>\<open>function_declaration\<close> binds it; the state is the one after \<^verbatim>\<open>statement\<close> accepted WHILE.
\<close>

definition while_prog :: "(token_t \<times> string) list" where
  "while_prog =
    [(DEFFUNC, ''def''), (IDENTIFIER, ''f''), (LPAR, ''(''), (RPAR, '')''), (NEWLINE, []),
     (INDENT, []), (CONTINUE, ''continue''), (NEWLINE, []), (DEDENT, []),
     (WHILE, ''while''), (IDENTIFIER, ''f''), (LPAR, ''(''), (RPAR, '')''), (NEWLINE, []),
     (INDENT, []), (PASS, ''pass''), (NEWLINE, []), (DEDENT, []), (ENDMARKER, [])]"

definition while_state :: interp where
  "while_state =
    \<lparr> tokens = while_prog, pos = 10, do_break = False, do_continue = False,
      return_value = None, scope = [[(''f'', Some (PositionObject 1))]],
      stdin = [], stdout = [] \<rparr>"

text \<open>
  \<^verbatim>\<open>def f(a, b)\<close> with the body \<^verbatim>\<open>print a, b\<close>, called as \<^verbatim>\<open>f(1, 2, 3)\<close> and as \<^verbatim>\<open>f(1)\<close>.
  The state is the one in which \<^verbatim>\<open>function_call\<close> is entered for the first call: the token
  is the LPAR of the argument list.
\<close>

definition call_prog :: "(token_t \<times> string) list" where
  "call_prog =
    [(DEFFUNC, ''def''), (IDENTIFIER, ''f''), (LPAR, ''(''), (IDENTIFIER, ''a''), (COMMA, '',''),
     (IDENTIFIER, ''b''), (RPAR, '')''), (NEWLINE, []), (INDENT, []),
     (PRINT, ''print''), (IDENTIFIER, ''a''), (COMMA, '',''), (IDENTIFIER, ''b''),
     (NEWLINE, []), (DEDENT, []),
     (IDENTIFIER, ''f''), (LPAR, ''(''), (OTHER ''INT'', ''1''), (COMMA, '',''),
     (OTHER ''INT'', ''2''), (COMMA, '',''), (OTHER ''INT'', ''3''), (RPAR, '')''),
     (NEWLINE, []),
     (IDENTIFIER, ''f''), (LPAR, ''(''), (OTHER ''INT'', ''1''), (RPAR, '')''), (NEWLINE, []),
     (ENDMARKER, [])]"

definition call_state :: interp where
  "call_state =
    \<lparr> tokens = call_prog, pos = 16, do_break = False, do_continue = False,
      return_value = None, scope = [[(''f'', Some (PositionObject 1))]],
      stdin = [], stdout = [] \<rparr>"



text \<open>
  \<^verbatim>\<open>def f()\<close> with the body \<^verbatim>\<open>return 1\<close>, and \<^verbatim>\<open>while f()\<close> with the body \<^verbatim>\<open>print 5\<close>,
  \<^verbatim>\<open>break\<close>. The state is the one after \<^verbatim>\<open>statement\<close> accepted WHILE, entered with both
  flags set.
\<close>

definition while_call_prog :: "(token_t \<times> string) list" where
  "while_call_prog =
    [(DEFFUNC, ''def''), (IDENTIFIER, ''f''), (LPAR, ''(''), (RPAR, '')''), (NEWLINE, []),
     (INDENT, []), (RETURN, ''return''), (OTHER ''INT'', ''1''), (NEWLINE, []), (DEDENT, []),
     (WHILE, ''while''), (IDENTIFIER, ''f''), (LPAR, ''(''), (RPAR, '')''), (NEWLINE, []),
     (INDENT, []), (PRINT, ''print''), (OTHER ''INT'', ''5''), (NEWLINE, []),
     (BREAK, ''break''), (NEWLINE, []), (DEDENT, []), (ENDMARKER, [])]"

definition while_call_state :: interp where
  "while_call_state =
    \<lparr> tokens = while_call_prog, pos = 11, do_break = True, do_continue = True,
      return_value = None, scope = [[(''f'', Some (PositionObject 1))]],
      stdin = [], stdout = [] \<rparr>"

text \<open>
  \<^verbatim>\<open>def f()\<close> with the body \<^verbatim>\<open>return 0\<close>, and \<^verbatim>\<open>do\<close> with the body \<^verbatim>\<open>print 5\<close> and the
  condition \<^verbatim>\<open>f()\<close>. The state is the one after \<^verbatim>\<open>statement\<close> accepted DO, entered with
  both flags set.
\<close>

definition do_call_prog :: "(token_t \<times> string) list" where
  "do_call_prog =
    [(DEFFUNC, ''def''), (IDENTIFIER, ''f''), (LPAR, ''(''), (RPAR, '')''), (NEWLINE, []),
     (INDENT, []), (RETURN, ''return''), (OTHER ''INT'', ''0''), (NEWLINE, []), (DEDENT, []),
     (DO, ''do''), (NEWLINE, []), (INDENT, []), (PRINT, ''print''), (OTHER ''INT'', ''5''),
     (NEWLINE, []), (DEDENT, []), (WHILE, ''while''), (IDENTIFIER, ''f''), (LPAR, ''(''),
     (RPAR, '')''), (NEWLINE, []), (ENDMARKER, [])]"

definition do_call_state :: interp where
  "do_call_state =
    \<lparr> tokens = do_call_prog, pos = 11, do_break = True, do_continue = True,
      return_value = None, scope = [[(''f'', Some (PositionObject 1))]],
      stdin = [], stdout = [] \<rparr>"

text \<open>
  \<^verbatim>\<open>def h()\<close> with the body \<^verbatim>\<open>continue\<close>; \<^verbatim>\<open>def g()\<close> with the body \<^verbatim>\<open>pass\<close>, \<^verbatim>\<open>return xs\<close>;
  the statement \<^verbatim>\<open>h()\<close>; and \<^verbatim>\<open>for x in g()\<close> with the body \<^verbatim>\<open>print x\<close>. \<open>xs\<close> is a list of
  two ints. The state is the one in which the statement \<^verbatim>\<open>h()\<close> starts.
\<close>

definition pending_prog :: "(token_t \<times> string) list" where
  "pending_prog =
    [(DEFFUNC, ''def''), (IDENTIFIER, ''h''), (LPAR, ''(''), (RPAR, '')''), (NEWLINE, []),
     (INDENT, []), (CONTINUE, ''continue''), (NEWLINE, []), (DEDENT, []),
     (DEFFUNC, ''def''), (IDENTIFIER, ''g''), (LPAR, ''(''), (RPAR, '')''), (NEWLINE, []),
     (INDENT, []), (PASS, ''pass''), (NEWLINE, []), (RETURN, ''return''), (IDENTIFIER, ''xs''),
     (NEWLINE, []), (DEDENT, []),
     (IDENTIFIER, ''h''), (LPAR, ''(''), (RPAR, '')''), (NEWLINE, []),
     (FOR, ''for''), (IDENTIFIER, ''x''), (IN, ''in''), (IDENTIFIER, ''g''), (LPAR, ''(''),
     (RPAR, '')''), (NEWLINE, []), (INDENT, []), (PRINT, ''print''), (IDENTIFIER, ''x''),
     (NEWLINE, []), (DEDENT, []), (ENDMARKER, [])]"

definition pending_state :: interp where
  "pending_state =
    \<lparr> tokens = pending_prog, pos = 21, do_break = False, do_continue = False,
      return_value = None,
      scope = [[(''h'', Some (PositionObject 1)), (''g'', Some (PositionObject 10)),
                (''xs'', Some (ListObject [IntObject 1, IntObject 2]))]],
      stdin = [], stdout = [] \<rparr>"

section \<open>Objects in the store (object.h, object.c, none.c)\<close>

text \<open>
  In C an object is a struct in memory, known by its address: the \<^verbatim>\<open>refcount\<close> and the
  payload of its type. This section carries objects that way, for what depends on which
  object a pointer points to. A list holds the addresses of its nodes in their order, and
  a node holds the address of the object it owns (NULL while it owns nothing).

  Modelled from the spec (section 3 and 4.1; object.h, number.c, str.c, list.c and
  position.c are not among the sources): the store is the sequence of the structs handed
  out so far, an address is an index into it, and \<open>room\<close> is the number of structs that
  can still be handed out. The \<^verbatim>\<open>alloc\<close> of a type hands out a new struct with the default
  value of the type and the count 0 (\<^verbatim>\<open>obj_alloc\<close> then makes it 1), or NULL when there is
  no room. \<^verbatim>\<open>obj_incref\<close> adds one to the count and \<^verbatim>\<open>obj_decref\<close> takes one off;
  freeing is not modelled, so a struct stays where it is and no address is used twice.

  The none object is the one struct that is not handed out by \<^verbatim>\<open>malloc\<close>: none.c declares
  it with the count 1, and it is at address 0 of every store that \<open>store_init\<close> starts.
\<close>

type_synonym addr = nat

datatype payload =
    CharCell char_t
  | IntCell int_t
  | FloatCell float_t
  | StrCell string
  | ListCell "addr list"
  | NodeCell "addr option"
  | PositionCell nat
  | NoneCell

record cell =
  refcount :: int
  content :: payload

record store =
  cells :: "cell list"
  room :: nat

definition none :: addr where
  "none = 0"


definition valid :: "store \<Rightarrow> addr \<Rightarrow> bool" where
  "valid h a \<longleftrightarrow> a < length (cells h)"

definition load :: "store \<Rightarrow> addr \<Rightarrow> cell" where
  "load h a = cells h ! a"

definition set_content :: "addr \<Rightarrow> payload \<Rightarrow> store \<Rightarrow> store" where
  "set_content a c h = h\<lparr>cells := (cells h)[a := (load h a)\<lparr>content := c\<rparr>]\<rparr>"

definition obj_incref :: "addr \<Rightarrow> store \<Rightarrow> store" where
  "obj_incref a h = h\<lparr>cells := (cells h)[a := (load h a)\<lparr>refcount := refcount (load h a) + 1\<rparr>]\<rparr>"

definition obj_decref :: "addr \<Rightarrow> store \<Rightarrow> store" where
  "obj_decref a h = h\<lparr>cells := (cells h)[a := (load h a)\<lparr>refcount := refcount (load h a) - 1\<rparr>]\<rparr>"


subsection \<open>Allocation\<close>

definition malloc :: "payload \<Rightarrow> store \<Rightarrow> addr option \<times> store" where
  "malloc c h =
    (if room h = 0 then (None, h)
     else (Some (length (cells h)),
           h\<lparr>cells := cells h @ [\<lparr> refcount = 0, content = c \<rparr>], room := room h - 1\<rparr>))"

text \<open>\<^verbatim>\<open>none_alloc\<close> (none.c) returns \<^verbatim>\<open>&none\<close>.\<close>

definition none_alloc_ptr :: "store \<Rightarrow> addr option \<times> store" where
  "none_alloc_ptr h = (Some none, h)"

text \<open>
  \<^verbatim>\<open>obj_alloc\<close>: the \<^verbatim>\<open>alloc\<close> of the type, OutOfMemoryError when that is NULL, then
  \<^verbatim>\<open>obj_incref\<close>. Its \<^verbatim>\<open>default\<close> branch (SystemError for a type that is none of the eight)
  has no input here: \<open>objecttype_t\<close> has the eight types only.
\<close>

definition obj_alloc_ptr :: "objecttype_t \<Rightarrow> store \<Rightarrow> (addr \<times> store) run" where
  "obj_alloc_ptr type h =
    (case (case type of
             CHAR_T \<Rightarrow> malloc (CharCell NUL) h
           | INT_T \<Rightarrow> malloc (IntCell 0) h
           | FLOAT_T \<Rightarrow> malloc (FloatCell 0) h
           | STR_T \<Rightarrow> malloc (StrCell []) h
           | LIST_T \<Rightarrow> malloc (ListCell []) h
           | LISTNODE_T \<Rightarrow> malloc (NodeCell None) h
           | POSITION_T \<Rightarrow> malloc (PositionCell 0) h
           | NONE_T \<Rightarrow> none_alloc_ptr h) of
       (None, h1) \<Rightarrow> Stop OutOfMemoryError
     | (Some obj, h1) \<Rightarrow> Ok (obj, obj_incref obj h1))"

text \<open>
  \<^verbatim>\<open>obj_create(type, value)\<close>: \<^verbatim>\<open>obj_alloc\<close>, then the \<^verbatim>\<open>vset\<close> of the object's type stores the
  value (modelled from the spec for the scalar types and strings, which keep their own
  copy of the characters; \<^verbatim>\<open>none_vset\<close> of none.c stores nothing).
\<close>

definition vset :: "addr \<Rightarrow> vararg \<Rightarrow> store \<Rightarrow> store" where
  "vset obj arg h =
    (case (content (load h obj), arg) of
       (CharCell _, CharArg c) \<Rightarrow> set_content obj (CharCell c) h
     | (IntCell _, IntArg i) \<Rightarrow> set_content obj (IntCell i) h
     | (FloatCell _, FloatArg f) \<Rightarrow> set_content obj (FloatCell f) h
     | (StrCell _, StrArg s) \<Rightarrow> set_content obj (StrCell (cstring s)) h
     | _ \<Rightarrow> h)"

definition obj_create_ptr :: "objecttype_t \<Rightarrow> vararg \<Rightarrow> store \<Rightarrow> (addr \<times> store) run" where
  "obj_create_ptr type arg h =
    bind_run (obj_alloc_ptr type h) (\<lambda>(obj, h1). Ok (obj, vset obj arg h1))"

subsection \<open>Copy\<close>

text \<open>
  Modelled from the spec (list.c is not among the sources; 4.1: a list stores nodes that
  own freshly deep-copied children). \<^verbatim>\<open>listnode_append(list, obj)\<close> allocates a node, lets
  it own \<open>obj\<close> and puts it at the end of the list. The \<^verbatim>\<open>vset\<close> of the list type, which
  \<^verbatim>\<open>obj_create(LIST_T, source)\<close> calls, appends to the new list a node with a copy of the
  object of each node of the source, in their order; \<open>copy\<close> is \<^verbatim>\<open>obj_copy\<close>.
\<close>

definition listnode_append :: "addr \<Rightarrow> addr \<Rightarrow> store \<Rightarrow> store run" where
  "listnode_append list obj h =
    bind_run (obj_alloc_ptr LISTNODE_T h) (\<lambda>(node, h1).
      (case content (load h1 list) of
         ListCell nodes \<Rightarrow>
           Ok (set_content list (ListCell (nodes @ [node]))
                 (set_content node (NodeCell (Some obj)) h1))
       | _ \<Rightarrow> NullPointer))"

fun list_vset ::
  "(addr \<Rightarrow> store \<Rightarrow> (addr \<times> store) run) \<Rightarrow> addr \<Rightarrow> addr list \<Rightarrow> store \<Rightarrow> store run" where
  "list_vset copy list [] h = Ok h"
| "list_vset copy list (node # nodes) h =
    (if \<not> valid h node then NullPointer
     else
       (case content (load h node) of
          NodeCell (Some obj) \<Rightarrow>
            bind_run (copy obj h) (\<lambda>(c, h1).
            bind_run (listnode_append list c h1) (\<lambda>h2.
              list_vset copy list nodes h2))
        | _ \<Rightarrow> NullPointer))"

text \<open>
  \<^verbatim>\<open>obj_copy\<close>. The C function calls itself for the object of a list-node, and the list
  type calls it for every item, so it takes fuel: \<open>Suc n\<close> allows \<open>n\<close> nested calls.
  An address outside the store and a node that owns nothing are read through a bad
  pointer.
\<close>

primrec obj_copy_ptr :: "nat \<Rightarrow> addr \<Rightarrow> store \<Rightarrow> (addr \<times> store) run" where
  "obj_copy_ptr 0 op1 h = Timeout"
| "obj_copy_ptr (Suc n) op1 h =
    (if \<not> valid h op1 then NullPointer
     else
       (case content (load h op1) of
          CharCell cval \<Rightarrow> obj_create_ptr CHAR_T (CharArg cval) h
        | IntCell ival \<Rightarrow> obj_create_ptr INT_T (IntArg ival) h
        | FloatCell fval \<Rightarrow> obj_create_ptr FLOAT_T (FloatArg fval) h
        | StrCell sptr \<Rightarrow> obj_create_ptr STR_T (StrArg sptr) h
        | ListCell nodes \<Rightarrow>
            bind_run (obj_alloc_ptr LIST_T h) (\<lambda>(list, h1).
            bind_run (list_vset (obj_copy_ptr n) list nodes h1) (\<lambda>h2. Ok (list, h2)))
        | NodeCell obj \<Rightarrow>
            (case obj of None \<Rightarrow> NullPointer | Some v \<Rightarrow> obj_copy_ptr n v h)
        | _ \<Rightarrow> Stop TypeError))"

subsection \<open>Assignment\<close>

text \<open>
  The conversions of object.c look at the tag and the scalar payload of their operand,
  after the list-node dereference. \<open>view\<close> hands them the object at an address by value,
  the items of a list left out, so that they are the conversions of the section by value.
\<close>

definition flat :: "payload \<Rightarrow> object" where
  "flat c =
    (case c of
       CharCell cval \<Rightarrow> CharObject cval
     | IntCell ival \<Rightarrow> IntObject ival
     | FloatCell fval \<Rightarrow> FloatObject fval
     | StrCell sptr \<Rightarrow> StrObject sptr
     | ListCell _ \<Rightarrow> ListObject []
     | NodeCell _ \<Rightarrow> ListNodeObject NoneObject
     | PositionCell p \<Rightarrow> PositionObject p
     | NoneCell \<Rightarrow> NoneObject)"

definition view :: "store \<Rightarrow> addr \<Rightarrow> object" where
  "view h a =
    (case content (load h a) of
       NodeCell (Some v) \<Rightarrow> ListNodeObject (flat (content (load h v)))
     | c \<Rightarrow> flat c)"

definition obj_as_list_ptr :: "store \<Rightarrow> addr \<Rightarrow> error + addr" where
  "obj_as_list_ptr h op1 =
    (case content (load h op1) of
       ListCell _ \<Rightarrow> Inr op1
     | NodeCell (Some v) \<Rightarrow>
        (case content (load h v) of ListCell _ \<Rightarrow> Inr v | _ \<Rightarrow> Inl ValueError)
     | _ \<Rightarrow> Inl ValueError)"

text \<open>
  \<^verbatim>\<open>obj_to_strobj\<close> hands back a string object that its caller releases: the operand
  itself, counted once more, when it is a string, and a new string otherwise.
\<close>

definition obj_to_strobj_ptr :: "typeobjects \<Rightarrow> addr \<Rightarrow> store \<Rightarrow> (addr \<times> store) run" where
  "obj_to_strobj_ptr T obj h =
    (case content (load h obj) of
       StrCell _ \<Rightarrow> Ok (obj, obj_incref obj h)
     | c \<Rightarrow>
        (case obj_as_str (obj_to_strobj T (flat c)) of
           Inl e \<Rightarrow> Stop e
         | Inr buffer \<Rightarrow> obj_create_ptr STR_T (StrArg buffer) h))"

text \<open>
  Modelled from the spec (the \<^verbatim>\<open>set\<close> methods are not among the sources): the \<^verbatim>\<open>set\<close> of a
  scalar type and of the string type stores the value; the \<^verbatim>\<open>set\<close> of the list type
  replaces the nodes of the list by nodes with copies of the source's items; the \<^verbatim>\<open>set\<close> of
  the list-node type releases the object the node owns and lets it own the new one.
\<close>

definition listnode_set :: "addr \<Rightarrow> addr \<Rightarrow> store \<Rightarrow> store" where
  "listnode_set node obj h =
    set_content node (NodeCell (Some obj))
      (case content (load h node) of
         NodeCell (Some old) \<Rightarrow> obj_decref old h
       | _ \<Rightarrow> h)"

definition list_set ::
  "(addr \<Rightarrow> store \<Rightarrow> (addr \<times> store) run) \<Rightarrow> addr \<Rightarrow> addr \<Rightarrow> store \<Rightarrow> store run" where
  "list_set copy list source h =
    (case content (load h source) of
       ListCell nodes \<Rightarrow> list_vset copy list nodes (set_content list (ListCell []) h)
     | _ \<Rightarrow> NullPointer)"

definition obj_assign_ptr :: "typeobjects \<Rightarrow> nat \<Rightarrow> addr \<Rightarrow> addr \<Rightarrow> store \<Rightarrow> store run" where
  "obj_assign_ptr T n op1 op2 h =
    (if \<not> valid h op1 \<or> \<not> valid h op2 then NullPointer
     else
       (case content (load h op1) of
          CharCell _ \<Rightarrow>
            bind_run (lift (obj_as_char T (view h op2))) (\<lambda>c.
              Ok (set_content op1 (CharCell c) h))
        | IntCell _ \<Rightarrow>
            bind_run (lift (obj_as_int T (view h op2))) (\<lambda>i.
              Ok (set_content op1 (IntCell i) h))
        | FloatCell _ \<Rightarrow>
            bind_run (lift (obj_as_float T (view h op2))) (\<lambda>f.
              Ok (set_content op1 (FloatCell f) h))
        | StrCell _ \<Rightarrow>
            bind_run (obj_to_strobj_ptr T op2 h) (\<lambda>(obj, h1).
            bind_run (lift (obj_as_str (view h1 obj))) (\<lambda>s.
              Ok (obj_decref obj (set_content op1 (StrCell s) h1))))
        | ListCell _ \<Rightarrow>
            bind_run (lift (obj_as_list_ptr h op2)) (\<lambda>source.
              list_set (obj_copy_ptr n) op1 source h)
        | NodeCell _ \<Rightarrow>
            bind_run (obj_copy_ptr n op2 h) (\<lambda>(c, h1). Ok (listnode_set op1 c h1))
        | _ \<Rightarrow> Stop TypeError))"

subsection \<open>Operators\<close>





























subsection \<open>The structure under an address\<close>

text \<open>
  \<open>atree\<close> is a finite structure of objects, each with its address: a scalar or string
  with its payload, a list with its nodes (the address of each node and what the node
  owns), a node with what it owns. \<open>shape h t\<close>: the store \<open>h\<close> holds the structure \<open>t\<close> at
  the address \<open>root t\<close>; it looks at the payloads only, not at the counts. A string of the
  structure is a C string: it has no NUL but the one that ends it. \<open>addrs t\<close> are
  the addresses of the structure, and \<open>val t\<close> is the object by value that it stands for.
\<close>

datatype atree =
    Leaf addr payload
  | ListT addr "(addr \<times> atree) list"
  | NodeT addr atree

fun root :: "atree \<Rightarrow> addr" where
  "root (Leaf a c) = a"
| "root (ListT a items) = a"
| "root (NodeT a t) = a"

definition scalar :: "payload \<Rightarrow> bool" where
  "scalar c \<longleftrightarrow>
     (case c of
        CharCell _ \<Rightarrow> True
      | IntCell _ \<Rightarrow> True
      | FloatCell _ \<Rightarrow> True
      | StrCell sptr \<Rightarrow> cstring sptr = sptr
      | _ \<Rightarrow> False)"

fun shape :: "store \<Rightarrow> atree \<Rightarrow> bool"
  and shapes :: "store \<Rightarrow> (addr \<times> atree) list \<Rightarrow> bool" where
  "shape h (Leaf a c) \<longleftrightarrow> valid h a \<and> content (load h a) = c \<and> scalar c"
| "shape h (ListT a items) \<longleftrightarrow>
     valid h a \<and> content (load h a) = ListCell (map fst items) \<and> shapes h items"
| "shape h (NodeT a t) \<longleftrightarrow>
     valid h a \<and> content (load h a) = NodeCell (Some (root t)) \<and> shape h t"
| "shapes h [] \<longleftrightarrow> True"
| "shapes h (item # items) \<longleftrightarrow>
     valid h (fst item) \<and> content (load h (fst item)) = NodeCell (Some (root (snd item))) \<and>
     shape h (snd item) \<and> shapes h items"

fun addrs :: "atree \<Rightarrow> addr list"
  and addrs_items :: "(addr \<times> atree) list \<Rightarrow> addr list" where
  "addrs (Leaf a c) = [a]"
| "addrs (ListT a items) = a # addrs_items items"
| "addrs (NodeT a t) = a # addrs t"
| "addrs_items [] = []"
| "addrs_items (item # items) = fst item # addrs (snd item) @ addrs_items items"

fun val :: "atree \<Rightarrow> object"
  and val_items :: "(addr \<times> atree) list \<Rightarrow> object list" where
  "val (Leaf a c) = flat c"
| "val (ListT a items) = ListObject (val_items items)"
| "val (NodeT a t) = ListNodeObject (val t)"
| "val_items [] = []"
| "val_items (item # items) = val (snd item) # val_items items"

text \<open>
  \<open>height t\<close> is the number of nested calls \<^verbatim>\<open>obj_copy\<close> makes for the structure \<open>t\<close>, the
  first one counted, and \<open>cost t\<close> is the number of objects the copy of \<open>t\<close> allocates: one
  for a scalar or string, one for a list and one for each of its nodes, none for a node
  that is copied (the copy is the copy of what it owns).
\<close>

fun height :: "atree \<Rightarrow> nat"
  and height_items :: "(addr \<times> atree) list \<Rightarrow> nat" where
  "height (Leaf a c) = 1"
| "height (ListT a items) = Suc (height_items items)"
| "height (NodeT a t) = Suc (height t)"
| "height_items [] = 0"
| "height_items (item # items) = max (height (snd item)) (height_items items)"

fun cost :: "atree \<Rightarrow> nat"
  and cost_items :: "(addr \<times> atree) list \<Rightarrow> nat" where
  "cost (Leaf a c) = 1"
| "cost (ListT a items) = Suc (cost_items items)"
| "cost (NodeT a t) = cost t"
| "cost_items [] = 0"
| "cost_items (item # items) = Suc (cost (snd item) + cost_items items)"

text \<open>\<open>default_of type\<close>: the payload of a new object of the type.\<close>

definition default_of :: "objecttype_t \<Rightarrow> payload" where
  "default_of type =
    (case type of
       CHAR_T \<Rightarrow> CharCell NUL
     | INT_T \<Rightarrow> IntCell 0
     | FLOAT_T \<Rightarrow> FloatCell 0
     | STR_T \<Rightarrow> StrCell []
     | LIST_T \<Rightarrow> ListCell []
     | LISTNODE_T \<Rightarrow> NodeCell None
     | POSITION_T \<Rightarrow> PositionCell 0
     | NONE_T \<Rightarrow> NoneCell)"


subsection \<open>Type operations and stores to run the model on\<close>





definition assign_store :: store where
  "assign_store =
    \<lparr> cells = [\<lparr> refcount = 1, content = NoneCell \<rparr>,
               \<lparr> refcount = 1, content = ListCell [2] \<rparr>,
               \<lparr> refcount = 1, content = NodeCell (Some 3) \<rparr>,
               \<lparr> refcount = 1, content = IntCell 5 \<rparr>,
               \<lparr> refcount = 1, content = ListCell [5] \<rparr>,
               \<lparr> refcount = 1, content = NodeCell (Some 6) \<rparr>,
               \<lparr> refcount = 1, content = StrCell ''ab'' \<rparr>],
      room = 8 \<rparr>"

section \<open>Properties of character constants\<close>

lemma cstring_Nil [simp]: "cstring [] = []"
  by (simp add: cstring_def)

lemma cstring_Cons [simp]:
  "cstring (c # s) = (if c = NUL then [] else c # cstring s)"
  by (simp add: cstring_def)

lemma peek_simps [simp]: "peek [] = NUL" "peek (c # s) = c"
  by (simp_all add: peek_def)

lemma peek_NUL_iff: "peek s = NUL \<longleftrightarrow> cstring s = []"
  by (cases s) auto

lemma escape_Some_iff:
  "escape e = Some c \<longleftrightarrow>
     (e, c) \<in> {(CHR ''0'', CHR 0x00), (CHR ''b'', CHR 0x08), (CHR ''f'', CHR 0x0C),
               (CHR ''n'', CHR 0x0A), (CHR ''r'', CHR 0x0D), (CHR ''t'', CHR 0x09),
               (CHR ''v'', CHR 0x0B), (CHR 0x5C, CHR 0x5C), (CHR 0x27, CHR 0x27),
               (CHR 0x22, CHR 0x22)}"
  unfolding escape_def by (simp split: if_split) blast

lemma escape_NUL [simp]: "escape NUL = None"
  by (simp add: escape_def NUL_def)


lemma NUL_neq_backslash [simp]: "NUL \<noteq> CHR 0x5C" "CHR 0x5C \<noteq> NUL"
  by (simp_all add: NUL_def)

lemma escape_None_iff:
  "escape e = None \<longleftrightarrow>
     e \<notin> {CHR ''0'', CHR ''b'', CHR ''f'', CHR ''n'', CHR ''r'', CHR ''t'', CHR ''v'',
           CHR 0x5C, CHR 0x27, CHR 0x22}"
  unfolding escape_def by (simp split: if_split)

lemma escape_dom_iff:
  "(\<exists>v. escape e = Some v) \<longleftrightarrow>
     e \<in> {CHR ''0'', CHR ''b'', CHR ''f'', CHR ''n'', CHR ''r'', CHR ''t'', CHR ''v'',
           CHR 0x5C, CHR 0x27, CHR 0x22}"
  using escape_None_iff [of e] by (cases "escape e") simp_all

lemma str_to_char_cstring:
  "str_to_char s =
    (case cstring s of
       [] \<Rightarrow> Inl SyntaxError
     | c # r \<Rightarrow>
        if c = CHR 0x5C then
          (case r of
             [] \<Rightarrow> Inl ValueError
           | e # r' \<Rightarrow>
              (case escape e of
                 None \<Rightarrow> Inl ValueError
               | Some v \<Rightarrow> if r' = [] then Inr v else Inl SyntaxError))
        else if r = [] then Inr c else Inl SyntaxError)"
proof (cases s)
  case Nil
  then show ?thesis by (simp add: str_to_char_def)
next
  case (Cons c r)
  note s = this
  show ?thesis
  proof (cases r)
    case Nil
    with s show ?thesis by (simp add: str_to_char_def)
  next
    case (Cons e r')
    with s show ?thesis
      by (cases r') (auto simp add: str_to_char_def peek_NUL_iff split: option.splits)
  qed
qed

lemma str_to_char_Inr_iff:
  "str_to_char s = Inr c \<longleftrightarrow>
     (\<exists>e. cstring s = [CHR 0x5C, e] \<and> escape e = Some c) \<or>
     (cstring s = [c] \<and> c \<noteq> CHR 0x5C)"
  unfolding str_to_char_cstring
  by (auto split: list.splits option.splits)

lemma str_to_char_ValueError_iff:
  "str_to_char s = Inl ValueError \<longleftrightarrow>
     cstring s = [CHR 0x5C] \<or> (\<exists>e r. cstring s = CHR 0x5C # e # r \<and> escape e = None)"
  unfolding str_to_char_cstring
  by (auto split: list.splits option.splits)

lemma str_to_char_SyntaxError_iff:
  "str_to_char s = Inl SyntaxError \<longleftrightarrow>
     cstring s = [] \<or>
     (\<exists>c d r. cstring s = c # d # r \<and> c \<noteq> CHR 0x5C) \<or>
     (\<exists>e d r. cstring s = CHR 0x5C # e # d # r \<and> \<not> escape e = None)"
  unfolding str_to_char_cstring
  by (auto simp: neq_Nil_conv split: list.splits option.splits)

text \<open>
  Claim C6, as the code has it. \<^verbatim>\<open>str_to_char\<close> returns a character exactly for a
  backslash followed by one of \<^verbatim>\<open>0 b f n r t v \ ' "\<close> and nothing more (the escape's
  value), or for a single character that is not a backslash. It stops with ValueError
  exactly when a backslash is followed by anything else (the end of the string included).
  It stops with SyntaxError, not ValueError, exactly when the constant is empty or holds
  more than one character (after a legal escape: more than the escape).
\<close>

theorem str_to_char_accepts:
  "(str_to_char s = Inr c \<longleftrightarrow>
      (\<exists>e. cstring s = [CHR 0x5C, e] \<and>
           (e, c) \<in> {(CHR ''0'', CHR 0x00), (CHR ''b'', CHR 0x08), (CHR ''f'', CHR 0x0C),
                     (CHR ''n'', CHR 0x0A), (CHR ''r'', CHR 0x0D), (CHR ''t'', CHR 0x09),
                     (CHR ''v'', CHR 0x0B), (CHR 0x5C, CHR 0x5C), (CHR 0x27, CHR 0x27),
                     (CHR 0x22, CHR 0x22)}) \<or>
      (cstring s = [c] \<and> c \<noteq> CHR 0x5C)) \<and>
   (str_to_char s = Inl ValueError \<longleftrightarrow>
      cstring s = [CHR 0x5C] \<or>
      (\<exists>e r. cstring s = CHR 0x5C # e # r \<and>
           e \<notin> {CHR ''0'', CHR ''b'', CHR ''f'', CHR ''n'', CHR ''r'', CHR ''t'',
                  CHR ''v'', CHR 0x5C, CHR 0x27, CHR 0x22})) \<and>
   (str_to_char s = Inl SyntaxError \<longleftrightarrow>
      cstring s = [] \<or>
      (\<exists>c d r. cstring s = c # d # r \<and> c \<noteq> CHR 0x5C) \<or>
      (\<exists>e d r. cstring s = CHR 0x5C # e # d # r \<and>
           e \<in> {CHR ''0'', CHR ''b'', CHR ''f'', CHR ''n'', CHR ''r'', CHR ''t'',
                 CHR ''v'', CHR 0x5C, CHR 0x27, CHR 0x22}))"
  unfolding str_to_char_Inr_iff str_to_char_ValueError_iff str_to_char_SyntaxError_iff
    escape_Some_iff escape_None_iff not_not
  by (intro conjI refl)

theorem str_to_char_accepts_witness:
  "str_to_char [CHR 0x5C, CHR ''n''] = Inr (CHR 0x0A) \<and>
   str_to_char ''a'' = Inr (CHR ''a'') \<and>
   str_to_char [CHR 0x5C, CHR ''q''] = Inl ValueError \<and>
   str_to_char [CHR 0x5C] = Inl ValueError"
  using str_to_char_accepts [of "[CHR 0x5C, CHR ''n'']" "CHR 0x0A"]
    str_to_char_accepts [of "''a''" "CHR ''a''"]
    str_to_char_accepts [of "[CHR 0x5C, CHR ''q'']"]
    str_to_char_accepts [of "[CHR 0x5C]"]
  by (simp add: NUL_def)

text \<open>
  Claim C6 as stated fails: the empty constant and a constant of two characters stop with
  SyntaxError, not with ValueError.
\<close>

theorem str_to_char_empty_or_long_counterexample:
  "str_to_char [] \<noteq> Inl ValueError \<and> str_to_char ''ab'' \<noteq> Inl ValueError \<and>
   str_to_char [] = Inl SyntaxError \<and> str_to_char ''ab'' = Inl SyntaxError"
  by (simp add: str_to_char_def NUL_def)


section \<open>Properties of the operators\<close>

lemma deref_simps [simp]:
  "deref (CharObject c) = CharObject c"
  "deref (IntObject i) = IntObject i"
  "deref (FloatObject f) = FloatObject f"
  "deref (StrObject s) = StrObject s"
  "deref (ListObject xs) = ListObject xs"
  "deref (ListNodeObject v) = v"
  "deref (PositionObject p) = PositionObject p"
  "deref NoneObject = NoneObject"
  by (simp_all add: deref_def isListNode_def)

lemma sample_types_simps [simp]:
  "number_mul sample_types = sample_number_mul"
  "number_eql sample_types = sample_number_eql"
  "number_neq sample_types = sample_number_neq"
  "str_repeat sample_types = sample_repeat"
  "str_eql sample_types = (\<lambda>a b. sample_bool (a = b))"
  "str_neq sample_types = (\<lambda>a b. sample_bool (a \<noteq> b))"
  "str_item sample_types = sample_item"
  "str_length sample_types = sample_length"
  "list_repeat sample_types = sample_repeat"
  "list_eql sample_types = (\<lambda>a b. sample_bool (a = b))"
  "list_neq sample_types = (\<lambda>a b. sample_bool (a \<noteq> b))"
  "list_item sample_types = sample_item"
  "list_length sample_types = sample_length"
  by (simp_all add: sample_types_def)

text \<open>
  Claim C4. With \<open>a\<close> and \<open>b\<close> the operands after the list-node dereference: when they are
  not both numeric, not both strings and not both lists, \<open>==\<close> gives int 0 and \<open>!=\<close> gives
  int 1. \<^verbatim>\<open>obj_eql\<close> and \<^verbatim>\<open>obj_neq\<close> have no error branch of their own: whenever one of them
  stops with an error, the operands are both numeric, both strings or both lists and the
  error is the one the comparison method of that type stopped with.
\<close>

theorem obj_eql_neq_unlike_types:
  "(\<not> (isNumber (deref op1) \<and> isNumber (deref op2)) \<and>
    \<not> (isString (deref op1) \<and> isString (deref op2)) \<and>
    \<not> (isList (deref op1) \<and> isList (deref op2)) \<longrightarrow>
      obj_eql T op1 op2 = Inr (IntObject 0) \<and> obj_neq T op1 op2 = Inr (IntObject 1)) \<and>
   (obj_eql T op1 op2 = Inl e \<longrightarrow>
      (isNumber (deref op1) \<and> isNumber (deref op2) \<and>
         number_eql T (deref op1) (deref op2) = Inl e) \<or>
      (isString (deref op1) \<and> isString (deref op2) \<and>
         str_eql T (deref op1) (deref op2) = Inl e) \<or>
      (isList (deref op1) \<and> isList (deref op2) \<and>
         list_eql T (deref op1) (deref op2) = Inl e)) \<and>
   (obj_neq T op1 op2 = Inl e \<longrightarrow>
      (isNumber (deref op1) \<and> isNumber (deref op2) \<and>
         number_neq T (deref op1) (deref op2) = Inl e) \<or>
      (isString (deref op1) \<and> isString (deref op2) \<and>
         str_neq T (deref op1) (deref op2) = Inl e) \<or>
      (isList (deref op1) \<and> isList (deref op2) \<and>
         list_neq T (deref op1) (deref op2) = Inl e))"
  by (simp add: obj_eql_def obj_neq_def)

theorem obj_eql_neq_unlike_types_witness:
  "obj_eql sample_types (IntObject 1) (StrObject ''1'') = Inr (IntObject 0) \<and>
   obj_neq sample_types (IntObject 1) (StrObject ''1'') = Inr (IntObject 1) \<and>
   obj_eql sample_types (ListNodeObject NoneObject) (ListObject []) = Inr (IntObject 0) \<and>
   obj_neq sample_types (ListNodeObject NoneObject) (ListObject []) = Inr (IntObject 1) \<and>
   obj_eql sample_types (IntObject 1) (FloatObject 0) = Inl SystemError \<and>
   number_eql sample_types (IntObject 1) (FloatObject 0) = Inl SystemError"
  using obj_eql_neq_unlike_types [of "IntObject 1" "StrObject ''1''" sample_types TypeError]
    obj_eql_neq_unlike_types [of "ListNodeObject NoneObject" "ListObject []" sample_types TypeError]
    obj_eql_neq_unlike_types [of "IntObject 1" "FloatObject 0" sample_types SystemError]
  by (simp add: isNumber_def isString_def isList_def obj_eql_def sample_number_eql_def
      sample_number_def)



text \<open>
  Claim C1 at the empty sequence. The loop of \<^verbatim>\<open>obj_in\<close> does not run, and the function
  returns the NULL pointer its result variable was initialised with: no int object.
\<close>

theorem obj_in_empty_sequence:
  "obj_in sample_types (IntObject 1) (StrObject []) = Inr None \<and>
   obj_in sample_types (IntObject 1) (ListObject []) = Inr None \<and>
   obj_in sample_types (CharObject CHR ''b'') (StrObject ''abc'') = Inr (Some (IntObject 1)) \<and>
   obj_in sample_types (CharObject CHR ''d'') (StrObject ''abc'') = Inr (Some (IntObject 0)) \<and>
   obj_in sample_types (IntObject 1) (IntObject 1) = Inl TypeError"
  by (simp add: obj_in_def obj_in_loop.simps int_of_int_t_def isSequence_def obj_length_def sample_length_def
      obj_as_int_def obj_item_def sample_item_def sample_index_def obj_eql_def isNumber_def
      isString_def isList_def sample_number_eql_def sample_number_def sample_bool_def)

section \<open>Properties of the parser\<close>

subsection \<open>Outcomes, tokens and skipping\<close>

lemma bind_run_simps [simp]:
  "bind_run Timeout f = Timeout"
  "bind_run (Stop e) f = Stop e"
  "bind_run NullPointer f = NullPointer"
  "bind_run (Longjmp s) f = Longjmp s"
  "bind_run (Ok x) f = f x"
  by (simp_all add: bind_run_def)

lemma bind_run_Ok_iff: "bind_run m f = Ok y \<longleftrightarrow> (\<exists>x. m = Ok x \<and> f x = Ok y)"
  by (cases m) simp_all

lemma bind_run_Longjmp_iff:
  "bind_run m f = Longjmp t \<longleftrightarrow> m = Longjmp t \<or> (\<exists>x. m = Ok x \<and> f x = Longjmp t)"
  by (cases m) simp_all

lemma lift_simps [simp]: "lift (Inl e) = Stop e" "lift (Inr x) = Ok x"
  by (simp_all add: lift_def)

lemma lift_Ok_iff [simp]: "lift r = Ok x \<longleftrightarrow> r = Inr x"
  by (cases r) simp_all

lemma lift_not_Longjmp [simp]: "lift r \<noteq> Longjmp t"
  by (cases r) simp_all

lemma scanner_next_fields [simp]:
  "pos (scanner_next s) = pos s + 1"
  "tokens (scanner_next s) = tokens s"
  "do_break (scanner_next s) = do_break s"
  "do_continue (scanner_next s) = do_continue s"
  "return_value (scanner_next s) = return_value s"
  "scope (scanner_next s) = scope s"
  by (simp_all add: scanner_next_def)

lemma reader_jump_fields [simp]:
  "pos (reader_jump p s) = p"
  "tokens (reader_jump p s) = tokens s"
  "do_break (reader_jump p s) = do_break s"
  "do_continue (reader_jump p s) = do_continue s"
  "return_value (reader_jump p s) = return_value s"
  "scope (reader_jump p s) = scope s"
  by (simp_all add: reader_jump_def)

lemma scanner_token_at: "scanner_token s = token_at (tokens s) (pos s)"
  by (simp add: scanner_token_def token_at_def)

lemma accept_simps [simp]:
  "fst (accept t s) \<longleftrightarrow> scanner_token s = t"
  "snd (accept t s) = (if scanner_token s = t then scanner_next s else s)"
  by (simp_all add: accept_def)

lemma expect_Ok_iff: "expect t s = Ok s' \<longleftrightarrow> scanner_token s = t \<and> s' = scanner_next s"
  by (auto simp add: expect_def)

lemma expect_not_Longjmp [simp]: "expect t s \<noteq> Longjmp u"
  by (simp add: expect_def)

lemma skip_levels_spec:
  "1 \<le> level \<Longrightarrow>
   \<exists>p. skip_levels level s = s\<lparr>pos := p\<rparr> \<and> pos s < p \<and>
       open_at level (map (token_at (tokens s)) [pos s + 1 ..< p]) \<and>
       (token_at (tokens s) p = DEDENT \<and>
          level + depth (map (token_at (tokens s)) [pos s + 1 ..< p]) = 1 \<or>
        token_at (tokens s) p = ENDMARKER)"
proof (induction level s rule: skip_levels.induct)
  case (1 level s)
  define t where "t = token_at (tokens s) (pos s + 1)"
  define level2 where
    "level2 = (if t = DEDENT then (if t = INDENT then level + 1 else level) - 1
               else (if t = INDENT then level + 1 else level))"
  have tok: "scanner_token (scanner_next s) = t"
    by (simp add: scanner_token_at t_def)
  show ?case
  proof (cases "level2 \<noteq> 0 \<and> t \<noteq> ENDMARKER")
    case False
    then have "skip_levels level s = scanner_next s"
      by (subst skip_levels.simps) (auto simp add: tok level2_def Let_def)
    then have eq: "skip_levels level s = s\<lparr>pos := pos s + 1\<rparr>"
      by (simp add: scanner_next_def)
    have "t = ENDMARKER \<or> (t = DEDENT \<and> level = 1)"
      using False "1.prems" by (auto simp add: level2_def split: if_splits)
    then show ?thesis
      using eq "1.prems" by (intro exI [of _ "pos s + 1"]) (auto simp add: open_at_def t_def)
  next
    case True
    then have eq: "skip_levels level s = skip_levels level2 (scanner_next s)"
      by (subst skip_levels.simps) (auto simp add: tok level2_def Let_def)
    have l2: "1 \<le> level2"
      using True "1.prems" by (auto simp add: level2_def split: if_splits)
    have l2': "level2 = level + (if t = INDENT then 1 else if t = DEDENT then - 1 else 0)"
      by (simp add: level2_def)
    have "\<exists>p. skip_levels level2 (scanner_next s) = (scanner_next s)\<lparr>pos := p\<rparr> \<and>
        pos (scanner_next s) < p \<and>
        open_at level2 (map (token_at (tokens (scanner_next s))) [pos (scanner_next s) + 1 ..< p]) \<and>
        (token_at (tokens (scanner_next s)) p = DEDENT \<and>
           level2 + depth (map (token_at (tokens (scanner_next s)))
             [pos (scanner_next s) + 1 ..< p]) = 1 \<or>
         token_at (tokens (scanner_next s)) p = ENDMARKER)"
      using "1.IH" [OF refl refl refl] True l2 unfolding tok level2_def by blast
    then obtain p where p: "skip_levels level2 (scanner_next s) = (scanner_next s)\<lparr>pos := p\<rparr>"
      "pos s + 1 < p"
      "open_at level2 (map (token_at (tokens s)) [pos s + 2 ..< p])"
      "token_at (tokens s) p = DEDENT \<and>
         level2 + depth (map (token_at (tokens s)) [pos s + 2 ..< p]) = 1 \<or>
       token_at (tokens s) p = ENDMARKER"
      by (auto simp add: numeral_2_eq_2)
    have upt: "[pos s + 1 ..< p] = (pos s + 1) # [pos s + 2 ..< p]"
      using p(2) by (simp add: upt_conv_Cons)
    have body: "map (token_at (tokens s)) [pos s + 1 ..< p] =
        t # map (token_at (tokens s)) [pos s + 2 ..< p]"
      by (subst upt) (simp add: t_def)
    have op: "open_at level (t # map (token_at (tokens s)) [pos s + 2 ..< p])"
      unfolding open_at_def
    proof (intro conjI allI impI)
      show "ENDMARKER \<notin> set (t # map (token_at (tokens s)) [pos s + 2 ..< p])"
        using True p(3) by (auto simp add: open_at_def)
    next
      fix k assume k: "k \<le> length (t # map (token_at (tokens s)) [pos s + 2 ..< p])"
      show "0 < level + depth (take k (t # map (token_at (tokens s)) [pos s + 2 ..< p]))"
      proof (cases k)
        case 0
        then show ?thesis using "1.prems" by simp
      next
        case (Suc j)
        with k have "j \<le> length (map (token_at (tokens s)) [pos s + 2 ..< p])" by simp
        with p(3) have "0 < level2 + depth (take j (map (token_at (tokens s)) [pos s + 2 ..< p]))"
          by (simp add: open_at_def)
        then show ?thesis using Suc by (simp add: l2')
      qed
    qed
    have dp: "level + depth (map (token_at (tokens s)) [pos s + 1 ..< p]) =
        level2 + depth (map (token_at (tokens s)) [pos s + 2 ..< p])"
      unfolding body by (simp add: l2')
    have e1: "skip_levels level s = s\<lparr>pos := p\<rparr>"
      unfolding eq p(1) by (simp add: scanner_next_def)
    have e2: "pos s < p" using p(2) by simp
    have e3: "open_at level (map (token_at (tokens s)) [pos s + 1 ..< p])"
      unfolding body by (rule op)
    have e4: "token_at (tokens s) p = DEDENT \<and>
          level + depth (map (token_at (tokens s)) [pos s + 1 ..< p]) = 1 \<or>
        token_at (tokens s) p = ENDMARKER"
      unfolding dp by (rule p(4))
    show ?thesis
      using e1 e2 e3 e4 by blast
  qed
qed

subsection \<open>The loop flags on entry to a loop\<close>

lemma flags_fields [simp]:
  "scanner_token (s\<lparr>do_break := b\<rparr>) = scanner_token s"
  "scanner_token (s\<lparr>do_continue := c\<rparr>) = scanner_token s"
  "scanner_string (s\<lparr>do_break := b\<rparr>) = scanner_string s"
  "scanner_string (s\<lparr>do_continue := c\<rparr>) = scanner_string s"
  "reader_save (s\<lparr>do_break := b\<rparr>) = reader_save s"
  "reader_save (s\<lparr>do_continue := c\<rparr>) = reader_save s"
  "identifier_search name (s\<lparr>do_break := b\<rparr>) = identifier_search name s"
  "identifier_search name (s\<lparr>do_continue := c\<rparr>) = identifier_search name s"
  by (simp_all add: scanner_token_def scanner_string_def reader_save_def identifier_search_def)

lemma scanner_next_flags [simp]:
  "scanner_next (s\<lparr>do_break := b\<rparr>) = (scanner_next s)\<lparr>do_break := b\<rparr>"
  "scanner_next (s\<lparr>do_continue := c\<rparr>) = (scanner_next s)\<lparr>do_continue := c\<rparr>"
  by (simp_all add: scanner_next_def)

lemma while_stmnt_flags:
  "while_stmnt n X call blk (s\<lparr>do_break := b, do_continue := c\<rparr>) = while_stmnt n X call blk s"
  by (simp add: while_stmnt_def)

lemma do_stmnt_flags:
  "do_stmnt n X call blk (s\<lparr>do_break := b, do_continue := c\<rparr>) = do_stmnt n X call blk s"
  by (simp add: do_stmnt_def)

lemma bind_run_assoc:
  "bind_run (bind_run m f) g = bind_run m (\<lambda>x. bind_run (f x) g)"
  by (cases m) simp_all

lemma same_pos [simp]: "reader_jump (pos s) s = s"
  by (simp add: reader_jump_def)

lemma while_stmnt_first:
  "while_stmnt (Suc n) X call blk s =
     bind_run (condition X call (s\<lparr>do_break := False, do_continue := False\<rparr>)) (\<lambda>(c, s1).
       if c \<and> \<not> do_break s1 then
         bind_run (blk s1) (\<lambda>s2.
         bind_run (while_loop n X call blk (pos s)
                    (reader_jump (pos s) (s2\<lparr>do_continue := False\<rparr>))) (\<lambda>s3.
           skip_block (s3\<lparr>do_break := False\<rparr>)))
       else skip_block (s1\<lparr>do_break := False\<rparr>))"
proof (cases "condition X call (s\<lparr>do_break := False, do_continue := False\<rparr>)")
  case (Ok x)
  obtain c s1 where x: "x = (c, s1)" by (cases x)
  show ?thesis
    by (simp add: while_stmnt_def Let_def reader_save_def Ok x bind_run_assoc)
qed (simp_all add: while_stmnt_def Let_def reader_save_def)

lemma do_stmnt_first:
  assumes "scanner_token s = NEWLINE"
  shows "do_stmnt (Suc n) X call blk s =
     bind_run (blk (s\<lparr>do_break := False, do_continue := False\<rparr>)) (\<lambda>s1.
     bind_run (expect DEDENT (s1\<lparr>do_continue := False\<rparr>)) (\<lambda>s2.
     bind_run (expect WHILE s2) (\<lambda>s3.
     bind_run (condition X call s3) (\<lambda>(c, s4).
     bind_run (if c \<and> \<not> do_break s4 then do_loop n X call blk (pos s) s4 else Ok s4) (\<lambda>s5.
       expect NEWLINE (s5\<lparr>do_break := False\<rparr>))))))"
proof -
  have j: "reader_jump (pos s) (s\<lparr>do_break := False, do_continue := False\<rparr>) =
      s\<lparr>do_break := False, do_continue := False\<rparr>"
    by (simp add: reader_jump_def)
  have c: "bind_run (case x of (c, s4) \<Rightarrow>
          if c \<and> \<not> do_break s4 then do_loop n X call blk (pos s) s4 else Ok s4)
        (\<lambda>s5. expect NEWLINE (s5\<lparr>do_break := False\<rparr>)) =
      (case x of (c, s4) \<Rightarrow>
        bind_run (if c \<and> \<not> do_break s4 then do_loop n X call blk (pos s) s4 else Ok s4)
          (\<lambda>s5. expect NEWLINE (s5\<lparr>do_break := False\<rparr>)))" for x
    by (cases x) simp
  show ?thesis
    using assms
    by (simp add: do_stmnt_def Let_def reader_save_def j bind_run_assoc case_prod_unfold
        cong: if_cong)
qed

lemma for_stmnt_first:
  "for_stmnt (Suc n) X call blk s =
     bind_run (for_header X call s) (\<lambda>(ident, sequence, len, s3).
       if 0 < len then
         bind_run (lift (obj_item (typeobjs X) sequence 0)) (\<lambda>item.
           (case ident of
              None \<Rightarrow> NullPointer
            | Some ident' \<Rightarrow>
               bind_run (blk (identifier_bind ident' item
                           (s3\<lparr>do_break := False, do_continue := False\<rparr>))) (\<lambda>s4.
               bind_run (for_loop n X blk (pos s3) ident sequence len 1
                          (reader_jump (pos s3)
                             ((identifier_unbind ident' s4)\<lparr>do_continue := False\<rparr>))) (\<lambda>s5.
                 skip_block (s5\<lparr>do_break := False\<rparr>)))))
       else skip_block (s3\<lparr>do_break := False, do_continue := False\<rparr>))"
proof -
  obtain ident s0 where h: "(if scanner_token s = IDENTIFIER then
              (case identifier_search (scanner_string s) s of
                 Some ident' \<Rightarrow> (Some ident', s)
               | None \<Rightarrow>
                  (case identifier_add (scanner_string s) s of
                     None \<Rightarrow> (None, s)
                   | Some (ident', s') \<Rightarrow> (Some ident', s')))
            else (None, s)) = (ident, s0)"
    by (cases "(if scanner_token s = IDENTIFIER then
              (case identifier_search (scanner_string s) s of
                 Some ident' \<Rightarrow> (Some ident', s)
               | None \<Rightarrow>
                  (case identifier_add (scanner_string s) s of
                     None \<Rightarrow> (None, s)
                   | Some (ident', s') \<Rightarrow> (Some ident', s')))
            else (None, s))") blast
  have z: "int_of_int_t 0 = 0" by (simp add: int_of_int_t_def)
  have swap: "u\<lparr>do_continue := False, do_break := False\<rparr> =
      u\<lparr>do_break := False, do_continue := False\<rparr>" for u :: interp
    by (cases u) simp
  have tail: "(if scanner_token s3 \<noteq> NEWLINE then Stop SyntaxError
          else
            (let s4 = s3\<lparr>do_break := False, do_continue := False\<rparr>;
                 loop = reader_save s4
             in bind_run (for_loop (Suc n) X blk loop ident sequence len 0 s4) (\<lambda>s5.
                  skip_block (s5\<lparr>do_break := False\<rparr>)))) =
      bind_run (if scanner_token s3 \<noteq> NEWLINE then Stop SyntaxError
                else Ok (ident, sequence, len, s3)) (\<lambda>(ident, sequence, len, s3).
       if 0 < len then
         bind_run (lift (obj_item (typeobjs X) sequence 0)) (\<lambda>item.
           (case ident of
              None \<Rightarrow> NullPointer
            | Some ident' \<Rightarrow>
               bind_run (blk (identifier_bind ident' item
                           (s3\<lparr>do_break := False, do_continue := False\<rparr>))) (\<lambda>s4.
               bind_run (for_loop n X blk (pos s3) ident sequence len 1
                          (reader_jump (pos s3)
                             ((identifier_unbind ident' s4)\<lparr>do_continue := False\<rparr>))) (\<lambda>s5.
                 skip_block (s5\<lparr>do_break := False\<rparr>)))))
       else skip_block (s3\<lparr>do_break := False, do_continue := False\<rparr>))"
    for s3 sequence len
  proof (cases "scanner_token s3 \<noteq> NEWLINE")
    case True
    then show ?thesis by simp
  next
    case False
    show ?thesis
    proof (cases "obj_item (typeobjs X) sequence 0")
      case (Inl e)
      with False show ?thesis
        by (simp add: Let_def reader_save_def z swap)
    next
      case (Inr item)
      with False show ?thesis
        by (cases ident) (simp_all add: Let_def reader_save_def z bind_run_assoc swap)
    qed
  qed
  have len: "bind_run (lift r) (\<lambda>len. bind_run (if scanner_token s3 \<noteq> NEWLINE then Stop SyntaxError
                else Ok (ident, sequence, len, s3)) k) =
      bind_run (bind_run (lift r) (\<lambda>len. if scanner_token s3 \<noteq> NEWLINE then Stop SyntaxError
                else Ok (ident, sequence, len, s3))) k" for r s3 sequence k
    by (simp add: bind_run_assoc)
  show ?thesis
    unfolding for_stmnt_def for_header_def h Let_def prod.case
    apply (simp only: tail [unfolded Let_def])
    apply (cases "expect IDENTIFIER s0")
        apply simp_all
    subgoal for s1
      apply (cases "expect IN s1")
          apply simp_all
      subgoal for s2
        apply (cases "comma_expr X call s2")
            apply simp_all
        subgoal for x
          apply (cases x)
          apply (simp add: bind_run_assoc)
          done
        done
      done
    done
qed

text \<open>
  Claim C9, as the code has it. \<^verbatim>\<open>while_stmnt\<close> and \<^verbatim>\<open>do_stmnt\<close> go the same way whatever the
  two flags are when they are entered. \<^verbatim>\<open>while_stmnt\<close> evaluates its condition first, in
  the state it was entered in with both flags clear, and runs the block when the condition
  holds and has set no break. \<^verbatim>\<open>do_stmnt\<close> runs its block first, in the state it was
  entered in with both flags clear. \<^verbatim>\<open>for_stmnt\<close> runs its head first, in the state it was
  entered in, flags included: the sequence expression is evaluated with the flags as they
  were. Then it clears both flags: with a sequence that is not empty the block runs, for
  the first item, in the state the head left with both flags clear.
\<close>

theorem loops_clear_flags_on_entry:
  "while_stmnt n X call blk (s\<lparr>do_break := b, do_continue := c\<rparr>) = while_stmnt n X call blk s \<and>
   while_stmnt (Suc n) X call blk s =
     bind_run (condition X call (s\<lparr>do_break := False, do_continue := False\<rparr>)) (\<lambda>(c, s1).
       if c \<and> \<not> do_break s1 then
         bind_run (blk s1) (\<lambda>s2.
         bind_run (while_loop n X call blk (pos s)
                    (reader_jump (pos s) (s2\<lparr>do_continue := False\<rparr>))) (\<lambda>s3.
           skip_block (s3\<lparr>do_break := False\<rparr>)))
       else skip_block (s1\<lparr>do_break := False\<rparr>)) \<and>
   do_stmnt n X call blk (s\<lparr>do_break := b, do_continue := c\<rparr>) = do_stmnt n X call blk s \<and>
   (scanner_token s = NEWLINE \<longrightarrow>
      do_stmnt (Suc n) X call blk s =
        bind_run (blk (s\<lparr>do_break := False, do_continue := False\<rparr>)) (\<lambda>s1.
        bind_run (expect DEDENT (s1\<lparr>do_continue := False\<rparr>)) (\<lambda>s2.
        bind_run (expect WHILE s2) (\<lambda>s3.
        bind_run (condition X call s3) (\<lambda>(c, s4).
        bind_run (if c \<and> \<not> do_break s4 then do_loop n X call blk (pos s) s4 else Ok s4) (\<lambda>s5.
          expect NEWLINE (s5\<lparr>do_break := False\<rparr>))))))) \<and>
   for_stmnt (Suc n) X call blk s =
     bind_run (for_header X call s) (\<lambda>(ident, sequence, len, s3).
       if 0 < len then
         bind_run (lift (obj_item (typeobjs X) sequence 0)) (\<lambda>item.
           (case ident of
              None \<Rightarrow> NullPointer
            | Some ident' \<Rightarrow>
               bind_run (blk (identifier_bind ident' item
                           (s3\<lparr>do_break := False, do_continue := False\<rparr>))) (\<lambda>s4.
               bind_run (for_loop n X blk (pos s3) ident sequence len 1
                          (reader_jump (pos s3)
                             ((identifier_unbind ident' s4)\<lparr>do_continue := False\<rparr>))) (\<lambda>s5.
                 skip_block (s5\<lparr>do_break := False\<rparr>)))))
       else skip_block (s3\<lparr>do_break := False, do_continue := False\<rparr>))"
  by (intro conjI impI while_stmnt_flags do_stmnt_flags while_stmnt_first do_stmnt_first
      for_stmnt_first)

theorem loops_clear_flags_on_entry_witness:
  "while_stmnt (Suc 5) sample_exts (function_call 5 sample_exts)
     (block 5 (statement 5 sample_exts)) while_call_state =
     Ok (while_call_state\<lparr>pos := 22, do_break := False, do_continue := False,
           stdout := [Printed (IntObject 5)]\<rparr>) \<and>
   do_stmnt (Suc 5) sample_exts (function_call 5 sample_exts)
     (block 5 (statement 5 sample_exts)) do_call_state =
     Ok (do_call_state\<lparr>pos := 22, do_break := False, do_continue := False,
           stdout := [Printed (IntObject 5)]\<rparr>) \<and>
   for_stmnt (Suc 5) sample_exts (function_call 5 sample_exts)
     (block 5 (statement 5 sample_exts)) (for_state\<lparr>do_break := True, do_continue := True\<rparr>) =
     Ok (for_state\<lparr>pos := 10,
         scope := [[(''xs'', Some (ListObject [IntObject 1, IntObject 2])), (''x'', None)]],
         stdout := [Printed (ListNodeObject (IntObject 1)),
                    Printed (ListNodeObject (IntObject 2))]\<rparr>)"
proof -
  let ?call = "function_call 5 sample_exts"
  let ?blk = "block 5 (statement 5 sample_exts)"
  let ?fs = "for_state\<lparr>do_break := True, do_continue := True\<rparr>"
  note W = loops_clear_flags_on_entry [where n = 5 and X = sample_exts and call = ?call
      and blk = ?blk and s = while_call_state, THEN conjunct2, THEN conjunct1]
  have nl: "scanner_token do_call_state = NEWLINE" by code_simp
  note D = loops_clear_flags_on_entry [where n = 5 and X = sample_exts and call = ?call
      and blk = ?blk and s = do_call_state, THEN conjunct2, THEN conjunct2, THEN conjunct2,
      THEN conjunct1, rule_format, OF nl]
  note F = loops_clear_flags_on_entry [where n = 5 and X = sample_exts and call = ?call
      and blk = ?blk and s = ?fs, THEN conjunct2, THEN conjunct2, THEN conjunct2,
      THEN conjunct2]
  have w: "while_stmnt (Suc 5) sample_exts ?call ?blk while_call_state =
     Ok (while_call_state\<lparr>pos := 22, do_break := False, do_continue := False,
           stdout := [Printed (IntObject 5)]\<rparr>)"
    by (subst W) code_simp
  have d: "do_stmnt (Suc 5) sample_exts ?call ?blk do_call_state =
     Ok (do_call_state\<lparr>pos := 22, do_break := False, do_continue := False,
           stdout := [Printed (IntObject 5)]\<rparr>)"
    by (subst D) code_simp
  have f: "for_stmnt (Suc 5) sample_exts ?call ?blk ?fs =
     Ok (for_state\<lparr>pos := 10,
         scope := [[(''xs'', Some (ListObject [IntObject 1, IntObject 2])), (''x'', None)]],
         stdout := [Printed (ListNodeObject (IntObject 1)),
                    Printed (ListNodeObject (IntObject 2))]\<rparr>)"
    by (subst F) code_simp
  show ?thesis
    by (intro conjI w d f)
qed

text \<open>
  Claim C9 as stated fails on the code for \<^verbatim>\<open>for\<close>: the sequence expression is evaluated
  before the flags are cleared. The statement \<^verbatim>\<open>h()\<close> leaves the continue flag set (the
  body of \<open>h\<close> is \<^verbatim>\<open>continue\<close>). \<^verbatim>\<open>for x in g()\<close>, entered with that flag, calls \<open>g\<close>, whose
  block is left after \<^verbatim>\<open>pass\<close>, before \<^verbatim>\<open>return xs\<close>; the call gives int 0, which has no
  length: the statement stops with TypeError before its first round. Entered with both
  flags clear it makes its two rounds.
\<close>

theorem loops_clear_flags_on_entry_counterexample:
  "statement 7 sample_exts pending_state =
     Ok (pending_state\<lparr>pos := 25, do_continue := True\<rparr>) \<and>
   statement 7 sample_exts (pending_state\<lparr>pos := 25, do_continue := True\<rparr>) = Stop TypeError \<and>
   for_stmnt 6 sample_exts (function_call 6 sample_exts) (block 6 (statement 6 sample_exts))
     (pending_state\<lparr>pos := 26, do_continue := True\<rparr>) = Stop TypeError \<and>
   for_stmnt 6 sample_exts (function_call 6 sample_exts) (block 6 (statement 6 sample_exts))
     (pending_state\<lparr>pos := 26\<rparr>) =
     Ok (pending_state\<lparr>pos := 37,
           scope := [[(''h'', Some (PositionObject 1)), (''g'', Some (PositionObject 10)),
                      (''xs'', Some (ListObject [IntObject 1, IntObject 2])), (''x'', None)]],
           stdout := [Printed (ListNodeObject (IntObject 1)),
                      Printed (ListNodeObject (IntObject 2))]\<rparr>)"
  by code_simp

subsection \<open>The loop flags and the cursor when a loop is left\<close>

lemma skip_block_spec:
  assumes "skip_block s = Ok s'"
  shows "\<exists>p. s' = s\<lparr>pos := p\<rparr> \<and> past_block (tokens s) (pos s) p"
proof -
  from assms have nl: "scanner_token s = NEWLINE" and ind: "scanner_token (scanner_next s) = INDENT"
    and s': "s' = scanner_next (skip_levels 1 (scanner_next (scanner_next s)))"
    by (auto simp add: skip_block_def bind_run_Ok_iff expect_Ok_iff)
  let ?s2 = "scanner_next (scanner_next s)"
  from skip_levels_spec [of 1 ?s2]
  obtain p where p: "skip_levels 1 ?s2 = ?s2\<lparr>pos := p\<rparr>" "pos ?s2 < p"
    "open_at 1 (map (token_at (tokens ?s2)) [pos ?s2 + 1 ..< p])"
    "token_at (tokens ?s2) p = DEDENT \<and>
       1 + depth (map (token_at (tokens ?s2)) [pos ?s2 + 1 ..< p]) = 1 \<or>
     token_at (tokens ?s2) p = ENDMARKER"
    by auto
  have e: "s' = s\<lparr>pos := p + 1\<rparr>"
    unfolding s' p(1) by (simp add: scanner_next_def)
  have three: "pos ?s2 + 1 = pos s + 3" by simp
  have "past_block (tokens s) (pos s) (p + 1)"
    unfolding past_block_def
    using nl ind p(2) p(3) p(4) unfolding three
    by (simp add: scanner_token_at)
  then show ?thesis using e by blast
qed

lemma skip_block_not_Longjmp [simp]: "skip_block s \<noteq> Longjmp u"
  by (simp add: skip_block_def bind_run_Longjmp_iff)

lemma while_loop_Ok:
  "while_loop n X call blk loop s = Ok s' \<Longrightarrow> \<not> do_continue s \<Longrightarrow> pos s = loop \<Longrightarrow>
   \<exists>t c. condition X call t = Ok (c, s') \<and> pos t = loop \<and> \<not> do_continue t \<and>
     (\<not> c \<or> do_break s')"
proof (induction n arbitrary: s)
  case 0
  then show ?case by simp
next
  case (Suc n)
  from Suc.prems(1) obtain c s1 where c: "condition X call s = Ok (c, s1)"
    and r: "(if c \<and> \<not> do_break s1 then
        bind_run (blk s1) (\<lambda>s2.
          while_loop n X call blk loop (reader_jump loop (s2\<lparr>do_continue := False\<rparr>)))
      else Ok s1) = Ok s'"
    by (auto simp add: bind_run_Ok_iff)
  show ?case
  proof (cases "c \<and> \<not> do_break s1")
    case False
    with r have "s' = s1" by auto
    with c False Suc.prems(2,3) show ?thesis by blast
  next
    case True
    with r obtain s2 where
      "while_loop n X call blk loop (reader_jump loop (s2\<lparr>do_continue := False\<rparr>)) = Ok s'"
      by (auto simp add: bind_run_Ok_iff)
    then show ?thesis by (rule Suc.IH) simp_all
  qed
qed

lemma do_loop_Ok:
  "do_loop n X call blk loop s = Ok s' \<Longrightarrow>
   \<exists>r s1 c. blk r = Ok s1 \<and> pos r = loop \<and> scanner_token s1 = DEDENT \<and>
     scanner_token (scanner_next s1) = WHILE \<and>
     condition X call (scanner_next (scanner_next (s1\<lparr>do_continue := False\<rparr>))) = Ok (c, s') \<and>
     (\<not> c \<or> do_break s')"
proof (induction n arbitrary: s)
  case 0
  then show ?case by simp
next
  case (Suc n)
  from Suc.prems obtain s1 c s4 where
    b: "blk (reader_jump loop s) = Ok s1"
    and d: "scanner_token s1 = DEDENT" and w: "scanner_token (scanner_next s1) = WHILE"
    and c: "condition X call (scanner_next (scanner_next (s1\<lparr>do_continue := False\<rparr>))) = Ok (c, s4)"
    and r: "(if c \<and> \<not> do_break s4 then do_loop n X call blk loop s4 else Ok s4) = Ok s'"
    by (auto simp add: bind_run_Ok_iff expect_Ok_iff)
  show ?case
  proof (cases "c \<and> \<not> do_break s4")
    case False
    with r have "s' = s4" by auto
    with b c d w False show ?thesis
      by (intro exI [of _ "reader_jump loop s"] exI [of _ s1] exI [of _ c]) simp
  next
    case True
    with r have "do_loop n X call blk loop s4 = Ok s'" by simp
    then show ?thesis by (rule Suc.IH)
  qed
qed

lemma for_loop_Ok:
  "for_loop n X blk loop ident sequence len i s = Ok s' \<Longrightarrow> \<not> do_continue s \<Longrightarrow> pos s = loop \<Longrightarrow>
   \<not> do_continue s' \<and> pos s' = loop"
proof (induction n arbitrary: s i)
  case 0
  then show ?case by simp
next
  case (Suc n)
  show ?case
  proof (cases "i < len \<and> \<not> do_break s")
    case False
    with Suc.prems show ?thesis by auto
  next
    case True
    with Suc.prems(1) obtain ident' s1 where
      "for_loop n X blk loop ident sequence len (i + 1)
         (reader_jump loop ((identifier_unbind ident' s1)\<lparr>do_continue := False\<rparr>)) = Ok s'"
      by (auto simp add: bind_run_Ok_iff split: option.splits)
    then show ?thesis by (rule Suc.IH) simp_all
  qed
qed


lemma identifier_add_cursor:
  "identifier_add name s = Some (i, s1) \<Longrightarrow> tokens s1 = tokens s \<and> pos s1 = pos s"
  by (auto simp add: identifier_add_def split: list.splits if_splits)

text \<open>
  Claim C5, as the code has it. When a loop statement returns, the break flag is clear.
  After \<^verbatim>\<open>for\<close> the continue flag is clear too. After \<^verbatim>\<open>while\<close> and \<^verbatim>\<open>do\<close> the statement
  hands back the state \<open>u\<close> in which the last evaluation of its condition ended, with the
  break flag cleared and the cursor moved: that evaluation started with the continue flag
  clear, and the flag is then what the evaluation made of it.

  The cursor. \<^verbatim>\<open>while\<close>: the last evaluation of the condition started at the position the
  statement was entered at (the first token of the condition), and the cursor is just past
  the block that starts where that evaluation ended. \<^verbatim>\<open>for\<close>: the statement was entered
  at the loop variable, \<^verbatim>\<open>in\<close> follows, the sequence expression was evaluated from the token
  after \<^verbatim>\<open>in\<close>, and the cursor is just past the block that starts where that evaluation
  ended. In both that is so whether or not the body ran. \<^verbatim>\<open>do\<close>: the statement was
  entered at the NEWLINE of its block, the last run of the block started there and ended
  at a DEDENT with \<^verbatim>\<open>while\<close> after it, the condition was evaluated from the token after
  \<^verbatim>\<open>while\<close>, and the cursor is just past the NEWLINE at which that evaluation ended.
\<close>

theorem loops_on_exit:
  "(while_stmnt n X call blk s = Ok s' \<longrightarrow>
      \<not> do_break s' \<and>
      (\<exists>t c u p. condition X call t = Ok (c, u) \<and> pos t = pos s \<and> \<not> do_continue t \<and>
         (\<not> c \<or> do_break u) \<and>
         s' = u\<lparr>do_break := False, pos := p\<rparr> \<and> past_block (tokens u) (pos u) p)) \<and>
   (do_stmnt n X call blk s = Ok s' \<longrightarrow>
      \<not> do_break s' \<and> token_at (tokens s) (pos s) = NEWLINE \<and>
      (\<exists>r s1 c u. blk r = Ok s1 \<and> pos r = pos s \<and>
         token_at (tokens s1) (pos s1) = DEDENT \<and> token_at (tokens s1) (pos s1 + 1) = WHILE \<and>
         condition X call (s1\<lparr>do_continue := False, pos := pos s1 + 2\<rparr>) = Ok (c, u) \<and>
         (\<not> c \<or> do_break u) \<and>
         token_at (tokens u) (pos u) = NEWLINE \<and>
         s' = u\<lparr>do_break := False, pos := pos u + 1\<rparr>)) \<and>
   (for_stmnt n X call blk s = Ok s' \<longrightarrow>
      \<not> do_break s' \<and> \<not> do_continue s' \<and>
      token_at (tokens s) (pos s) = IDENTIFIER \<and> token_at (tokens s) (pos s + 1) = IN \<and>
      (\<exists>t sequence u. comma_expr X call t = Ok (sequence, u) \<and>
         tokens t = tokens s \<and> pos t = pos s + 2 \<and>
         past_block (tokens s') (pos u) (pos s')))"
proof (intro conjI impI)
  assume a: "while_stmnt n X call blk s = Ok s'"
  have "bind_run (while_loop n X call blk (pos s) (s\<lparr>do_break := False, do_continue := False\<rparr>))
      (\<lambda>s2. skip_block (s2\<lparr>do_break := False\<rparr>)) = Ok s'"
    using a by (simp add: while_stmnt_def reader_save_def Let_def)
  then obtain u where l: "while_loop n X call blk (pos s) (s\<lparr>do_break := False, do_continue := False\<rparr>)
      = Ok u"
    and sk: "skip_block (u\<lparr>do_break := False\<rparr>) = Ok s'"
    unfolding bind_run_Ok_iff by blast
  from skip_block_spec [OF sk] obtain p where
    e: "s' = u\<lparr>do_break := False, pos := p\<rparr>" and pb: "past_block (tokens u) (pos u) p"
    by auto
  from e show "\<not> do_break s'" by simp
  from while_loop_Ok [OF l] obtain t c where
    "condition X call t = Ok (c, u)" "pos t = pos s" "\<not> do_continue t" "\<not> c \<or> do_break u"
    by auto
  with e pb show "\<exists>t c u p. condition X call t = Ok (c, u) \<and> pos t = pos s \<and> \<not> do_continue t \<and>
         (\<not> c \<or> do_break u) \<and>
         s' = u\<lparr>do_break := False, pos := p\<rparr> \<and> past_block (tokens u) (pos u) p"
    by blast
next
  assume a: "do_stmnt n X call blk s = Ok s'"
  from a have nl0: "scanner_token s = NEWLINE"
    by (auto simp add: do_stmnt_def split: if_splits)
  then show "token_at (tokens s) (pos s) = NEWLINE"
    by (simp add: scanner_token_at)
  have "bind_run (do_loop n X call blk (pos s) (s\<lparr>do_break := False, do_continue := False\<rparr>))
      (\<lambda>s2. expect NEWLINE (s2\<lparr>do_break := False\<rparr>)) = Ok s'"
    using a by (simp add: do_stmnt_def reader_save_def Let_def split: if_splits)
  then obtain u where l: "do_loop n X call blk (pos s) (s\<lparr>do_break := False, do_continue := False\<rparr>)
      = Ok u"
    and ex: "expect NEWLINE (u\<lparr>do_break := False\<rparr>) = Ok s'"
    unfolding bind_run_Ok_iff by blast
  from ex have nl: "scanner_token u = NEWLINE" and e: "s' = u\<lparr>do_break := False, pos := pos u + 1\<rparr>"
    by (simp_all add: expect_Ok_iff scanner_next_def)
  from e show "\<not> do_break s'" by simp
  from do_loop_Ok [OF l] obtain r s1 c where
    b: "blk r = Ok s1" and pr: "pos r = pos s" and d: "scanner_token s1 = DEDENT"
    and w: "scanner_token (scanner_next s1) = WHILE"
    and c: "condition X call (scanner_next (scanner_next (s1\<lparr>do_continue := False\<rparr>))) = Ok (c, u)"
    and x: "\<not> c \<or> do_break u"
    by blast
  have t: "scanner_next (scanner_next (s1\<lparr>do_continue := False\<rparr>)) =
      s1\<lparr>do_continue := False, pos := pos s1 + 2\<rparr>"
    by (simp add: scanner_next_def)
  from d have d': "token_at (tokens s1) (pos s1) = DEDENT"
    by (simp add: scanner_token_at)
  from w have w': "token_at (tokens s1) (pos s1 + 1) = WHILE"
    by (simp add: scanner_token_at)
  from nl have nl': "token_at (tokens u) (pos u) = NEWLINE"
    by (simp add: scanner_token_at)
  from b pr d' w' c [unfolded t] x nl' e
  show "\<exists>r s1 c u. blk r = Ok s1 \<and> pos r = pos s \<and>
         token_at (tokens s1) (pos s1) = DEDENT \<and> token_at (tokens s1) (pos s1 + 1) = WHILE \<and>
         condition X call (s1\<lparr>do_continue := False, pos := pos s1 + 2\<rparr>) = Ok (c, u) \<and>
         (\<not> c \<or> do_break u) \<and>
         token_at (tokens u) (pos u) = NEWLINE \<and>
         s' = u\<lparr>do_break := False, pos := pos u + 1\<rparr>"
    by blast
next
  assume a: "for_stmnt n X call blk s = Ok s'"
  obtain ident s0 where h: "(if scanner_token s = IDENTIFIER then
              (case identifier_search (scanner_string s) s of
                 Some ident' \<Rightarrow> (Some ident', s)
               | None \<Rightarrow>
                  (case identifier_add (scanner_string s) s of
                     None \<Rightarrow> (None, s)
                   | Some (ident', s') \<Rightarrow> (Some ident', s')))
            else (None, s)) = (ident, s0)"
    by (cases "(if scanner_token s = IDENTIFIER then
              (case identifier_search (scanner_string s) s of
                 Some ident' \<Rightarrow> (Some ident', s)
               | None \<Rightarrow>
                  (case identifier_add (scanner_string s) s of
                     None \<Rightarrow> (None, s)
                   | Some (ident', s') \<Rightarrow> (Some ident', s')))
            else (None, s))") blast
  then have s0: "tokens s0 = tokens s" "pos s0 = pos s"
    by (auto split: if_splits option.splits dest: identifier_add_cursor)
  from a obtain s1 where 1: "expect IDENTIFIER s0 = Ok s1"
    and a1: "bind_run (expect IN s1) (\<lambda>s2.
        bind_run (comma_expr X call s2) (\<lambda>(sequence, s3).
        bind_run (lift (obj_length (typeobjs X) sequence)) (\<lambda>len.
          if scanner_token s3 \<noteq> NEWLINE then Stop SyntaxError
          else
            (let s4 = s3\<lparr>do_break := False, do_continue := False\<rparr>;
                 loop = reader_save s4
             in bind_run (for_loop n X blk loop ident sequence len 0 s4) (\<lambda>s5.
                  skip_block (s5\<lparr>do_break := False\<rparr>)))))) = Ok s'"
    unfolding for_stmnt_def h Let_def prod.case bind_run_Ok_iff [of "expect IDENTIFIER s0"] by blast
  from a1 obtain s2 where 2: "expect IN s1 = Ok s2"
    and a2: "bind_run (comma_expr X call s2) (\<lambda>(sequence, s3).
        bind_run (lift (obj_length (typeobjs X) sequence)) (\<lambda>len.
          if scanner_token s3 \<noteq> NEWLINE then Stop SyntaxError
          else
            (let s4 = s3\<lparr>do_break := False, do_continue := False\<rparr>;
                 loop = reader_save s4
             in bind_run (for_loop n X blk loop ident sequence len 0 s4) (\<lambda>s5.
                  skip_block (s5\<lparr>do_break := False\<rparr>))))) = Ok s'"
    unfolding bind_run_Ok_iff [of "expect IN s1"] by blast
  from 1 have i1: "scanner_token s0 = IDENTIFIER" and e1: "s1 = scanner_next s0"
    by (simp_all add: expect_Ok_iff)
  from 2 have i2: "scanner_token s1 = IN" and e2: "s2 = scanner_next s1"
    by (simp_all add: expect_Ok_iff)
  from i1 s0 show "token_at (tokens s) (pos s) = IDENTIFIER"
    by (simp add: scanner_token_at)
  from i2 e1 s0 show "token_at (tokens s) (pos s + 1) = IN"
    by (simp add: scanner_token_at)
  have t2: "tokens s2 = tokens s" "pos s2 = pos s + 2"
    by (simp_all add: e1 e2 s0)
  from a2 obtain sequence s3 where ce: "comma_expr X call s2 = Ok (sequence, s3)"
    and a3: "bind_run (lift (obj_length (typeobjs X) sequence)) (\<lambda>len.
          if scanner_token s3 \<noteq> NEWLINE then Stop SyntaxError
          else
            (let s4 = s3\<lparr>do_break := False, do_continue := False\<rparr>;
                 loop = reader_save s4
             in bind_run (for_loop n X blk loop ident sequence len 0 s4) (\<lambda>s5.
                  skip_block (s5\<lparr>do_break := False\<rparr>)))) = Ok s'"
    unfolding bind_run_Ok_iff [of "comma_expr X call s2"] by auto
  from a3 obtain len where
    a4: "(if scanner_token s3 \<noteq> NEWLINE then Stop SyntaxError
          else
            (let s4 = s3\<lparr>do_break := False, do_continue := False\<rparr>;
                 loop = reader_save s4
             in bind_run (for_loop n X blk loop ident sequence len 0 s4) (\<lambda>s5.
                  skip_block (s5\<lparr>do_break := False\<rparr>)))) = Ok s'"
    unfolding bind_run_Ok_iff [of "lift (obj_length (typeobjs X) sequence)"] by blast
  then have "bind_run (for_loop n X blk (pos s3) ident sequence len 0
        (s3\<lparr>do_break := False, do_continue := False\<rparr>))
      (\<lambda>s5. skip_block (s5\<lparr>do_break := False\<rparr>)) = Ok s'"
    by (simp add: Let_def reader_save_def split: if_splits)
  then obtain u where
    l: "for_loop n X blk (pos s3) ident sequence len 0
        (s3\<lparr>do_break := False, do_continue := False\<rparr>) = Ok u"
    and sk: "skip_block (u\<lparr>do_break := False\<rparr>) = Ok s'"
    unfolding bind_run_Ok_iff by blast
  from for_loop_Ok [OF l] have u: "\<not> do_continue u" "pos u = pos s3" by simp_all
  from skip_block_spec [OF sk] obtain p where
    e: "s' = u\<lparr>do_break := False, pos := p\<rparr>" and pb: "past_block (tokens u) (pos u) p"
    by auto
  from e show "\<not> do_break s'" by simp
  from e u(1) show "\<not> do_continue s'" by simp
  from e pb u(2) have "past_block (tokens s') (pos s3) (pos s')" by simp
  with ce t2 show "\<exists>t sequence u. comma_expr X call t = Ok (sequence, u) \<and>
         tokens t = tokens s \<and> pos t = pos s + 2 \<and>
         past_block (tokens s') (pos u) (pos s')"
    by blast
qed

theorem loops_on_exit_witness:
  "while_stmnt 4 sample_exts (function_call 4 sample_exts) (block 4 (statement 4 sample_exts))
     never_state = Ok (never_state\<lparr>pos := 8, do_break := False, do_continue := False\<rparr>) \<and>
   (\<exists>t c u p. condition sample_exts (function_call 4 sample_exts) t = Ok (c, u) \<and>
      pos t = pos never_state \<and> \<not> do_continue t \<and> (\<not> c \<or> do_break u) \<and>
      never_state\<lparr>pos := 8, do_break := False, do_continue := False\<rparr> =
        u\<lparr>do_break := False, pos := p\<rparr> \<and>
      past_block (tokens u) (pos u) p) \<and>
   do_stmnt 4 sample_exts (function_call 4 sample_exts) (block 4 (statement 4 sample_exts))
     do_state =
     Ok (do_state\<lparr>pos := 10, do_break := False, do_continue := False,
           stdout := [Printed (IntObject 0)]\<rparr>) \<and>
   (\<exists>r s1 c u. block 4 (statement 4 sample_exts) r = Ok s1 \<and> pos r = pos do_state \<and>
      token_at (tokens s1) (pos s1) = DEDENT \<and> token_at (tokens s1) (pos s1 + 1) = WHILE \<and>
      condition sample_exts (function_call 4 sample_exts)
        (s1\<lparr>do_continue := False, pos := pos s1 + 2\<rparr>) = Ok (c, u) \<and>
      (\<not> c \<or> do_break u) \<and>
      token_at (tokens u) (pos u) = NEWLINE \<and>
      do_state\<lparr>pos := 10, do_break := False, do_continue := False,
           stdout := [Printed (IntObject 0)]\<rparr> = u\<lparr>do_break := False, pos := pos u + 1\<rparr>) \<and>
   for_stmnt 4 sample_exts (function_call 4 sample_exts) (block 4 (statement 4 sample_exts))
     (for_state\<lparr>do_break := True, do_continue := True\<rparr>) =
     Ok (for_state\<lparr>pos := 10,
         scope := [[(''xs'', Some (ListObject [IntObject 1, IntObject 2])), (''x'', None)]],
         stdout := [Printed (ListNodeObject (IntObject 1)),
                    Printed (ListNodeObject (IntObject 2))]\<rparr>) \<and>
   (\<exists>t sequence u. comma_expr sample_exts (function_call 4 sample_exts) t = Ok (sequence, u) \<and>
      tokens t = for_prog \<and> pos t = 1 + 2 \<and> past_block for_prog (pos u) 10) \<and>
   past_block for_prog 4 10 \<and> past_block never_prog 2 8"
proof -
  let ?call = "function_call 4 sample_exts"
  let ?blk = "block 4 (statement 4 sample_exts)"
  let ?w = "never_state\<lparr>pos := 8, do_break := False, do_continue := False\<rparr>"
  let ?d = "do_state\<lparr>pos := 10, do_break := False, do_continue := False,
           stdout := [Printed (IntObject 0)]\<rparr>"
  let ?fs = "for_state\<lparr>do_break := True, do_continue := True\<rparr>"
  let ?f = "for_state\<lparr>pos := 10,
         scope := [[(''xs'', Some (ListObject [IntObject 1, IntObject 2])), (''x'', None)]],
         stdout := [Printed (ListNodeObject (IntObject 1)),
                    Printed (ListNodeObject (IntObject 2))]\<rparr>"
  have w: "while_stmnt 4 sample_exts ?call ?blk never_state = Ok ?w"
    by code_simp
  have d: "do_stmnt 4 sample_exts ?call ?blk do_state = Ok ?d"
    by code_simp
  have f: "for_stmnt 4 sample_exts ?call ?blk ?fs = Ok ?f"
    by code_simp
  have tf: "tokens ?f = for_prog" "pos ?f = 10" "tokens ?fs = for_prog" "pos ?fs = 1"
    by (simp_all add: for_state_def)
  have pb: "past_block for_prog 4 10" "past_block never_prog 2 8"
    by (simp_all add: past_block_def open_at_def token_at_def for_prog_def never_prog_def
        upt_rec [of 7] upt_rec [of 8] upt_rec [of 5] upt_rec [of 6] less_Suc_eq_0_disj
        take_Cons')
  note W = loops_on_exit [where n = 4 and X = sample_exts and call = ?call and blk = ?blk
      and s = never_state and s' = ?w, THEN conjunct1, rule_format, OF w, THEN conjunct2]
  note D = loops_on_exit [where n = 4 and X = sample_exts and call = ?call and blk = ?blk
      and s = do_state and s' = ?d, THEN conjunct2, THEN conjunct1, rule_format, OF d,
      THEN conjunct2, THEN conjunct2]
  note F = loops_on_exit [where n = 4 and X = sample_exts and call = ?call and blk = ?blk
      and s = ?fs and s' = ?f,
      THEN conjunct2, THEN conjunct2, rule_format, OF f, THEN conjunct2, THEN conjunct2,
      THEN conjunct2, THEN conjunct2, unfolded tf]
  show ?thesis
    by (intro conjI w d f W D F pb)
qed

text \<open>
  Claim C5 as stated fails on the code: the condition of a loop is evaluated after the
  continue flag is cleared, and a function the condition calls can set it. Here the body
  of \<open>f\<close> is \<^verbatim>\<open>continue\<close>; \<^verbatim>\<open>while f()\<close> completes, and the continue flag is set.
\<close>

theorem loops_on_exit_counterexample:
  "statement 5 sample_exts (while_state\<lparr>pos := 9\<rparr>) =
     Ok (while_state\<lparr>pos := 18, do_continue := True\<rparr>) \<and>
   while_stmnt 4 sample_exts (function_call 4 sample_exts) (block 4 (statement 4 sample_exts))
     while_state = Ok (while_state\<lparr>pos := 18, do_continue := True\<rparr>)"
  by code_simp

subsection \<open>The formal parameters of a call\<close>

lemma set_binding_fresh:
  "\<not> declared name f \<Longrightarrow> set_binding name b (f @ [(name, x)]) = f @ [(name, b)]"
  by (induction f) (auto simp add: set_binding_def declared_def)

lemma identifier_add_fresh:
  "scope s = f # rest \<Longrightarrow> \<not> declared name f \<Longrightarrow>
   identifier_add name s = Some ((length rest, name), s\<lparr>scope := (f @ [(name, None)]) # rest\<rparr>)"
  by (simp add: identifier_add_def)

lemma identifier_add_declared:
  "scope s = f # rest \<Longrightarrow> declared name f \<Longrightarrow> identifier_add name s = None"
  by (simp add: identifier_add_def)

lemma identifier_bind_innermost:
  "scope s = f # rest \<Longrightarrow>
   identifier_bind (length rest, name) obj s = s\<lparr>scope := set_binding name (Some obj) f # rest\<rparr>"
  by (simp add: identifier_bind_def set_object_def level_index_def)

lemma scanner_at:
  "pos s < length (tokens s) \<Longrightarrow> tokens s ! pos s = (t, str) \<Longrightarrow>
   scanner_token s = t \<and> scanner_string s = str"
  by (simp add: scanner_token_def scanner_string_def)

lemma scanner_scope [simp]:
  "scanner_token (s\<lparr>scope := sc\<rparr>) = scanner_token s"
  "scanner_string (s\<lparr>scope := sc\<rparr>) = scanner_string s"
  "scanner_next (s\<lparr>scope := sc\<rparr>) = (scanner_next s)\<lparr>scope := sc\<rparr>"
  by (simp_all add: scanner_token_def scanner_string_def scanner_next_def)

lemma pop_loop_spec:
  "formals_at (tokens s) (pos s) fs \<Longrightarrow> distinct (map fst fs) \<Longrightarrow> scope s = f # rest \<Longrightarrow>
   \<forall>x \<in> set fs. \<not> declared (fst x) f \<Longrightarrow>
   pop_loop args s =
     (if length args < length fs then Stop SyntaxError
      else Ok (drop (length fs) args,
               s\<lparr>pos := formals_end (pos s) fs, scope := bind_formals fs args f # rest\<rparr>))"
proof (induction fs arbitrary: s f args)
  case Nil
  then have "scanner_token s = RPAR" by (simp add: scanner_token_at)
  then have "pop_loop args s = Ok (args, s)" by (subst pop_loop.simps) simp
  moreover have "s\<lparr>pos := pos s, scope := f # rest\<rparr> = s" using Nil.prems(3) by simp
  ultimately show ?case by (simp add: bind_formals_def)
next
  case (Cons x fs)
  obtain name comma where x: "x = (name, comma)" by (cases x)
  from Cons.prems(1) have p: "pos s < length (tokens s)" "tokens s ! pos s = (IDENTIFIER, name)"
    and nx: "if comma then token_at (tokens s) (pos s + 1) = COMMA \<and>
                formals_at (tokens s) (pos s + 2) fs
             else token_at (tokens s) (pos s + 1) \<noteq> COMMA \<and>
                formals_at (tokens s) (pos s + 1) fs"
    by (auto simp add: x split: if_splits)
  from scanner_at [OF p] have tok: "scanner_token s = IDENTIFIER" "scanner_string s = name"
    by simp_all
  from Cons.prems(4) have fresh: "\<not> declared name f" by (simp add: x)
  note add = identifier_add_fresh [OF Cons.prems(3) fresh]
  show ?case
  proof (cases args)
    case Nil
    then show ?thesis
      by (subst pop_loop.simps) (simp add: tok add)
  next
    case (Cons obj as)
    let ?f' = "f @ [(name, Some obj)]"
    let ?s1 = "s\<lparr>scope := (f @ [(name, None)]) # rest\<rparr>"
    have b: "identifier_bind (length rest, name) obj ?s1 = s\<lparr>scope := ?f' # rest\<rparr>"
      using identifier_bind_innermost [of ?s1 "f @ [(name, None)]" rest name obj]
      by (simp add: set_binding_fresh [OF fresh])
    let ?s3 = "(if comma then scanner_next (scanner_next s) else scanner_next s)\<lparr>scope := ?f' # rest\<rparr>"
    have tok2: "scanner_token (scanner_next s) = token_at (tokens s) (pos s + 1)"
      by (simp add: scanner_token_at)
    have step: "pop_loop args s = pop_loop as ?s3"
      using nx
      by (subst pop_loop.simps)
         (auto simp add: tok tok2 add Cons b expect_def)
    have fa: "formals_at (tokens ?s3) (pos ?s3) fs"
      using nx by (auto simp add: numeral_2_eq_2)
    have d: "distinct (map fst fs)" using Cons.prems(2) by simp
    have sc: "scope ?s3 = ?f' # rest" by simp
    have fr: "\<forall>y \<in> set fs. \<not> declared (fst y) ?f'"
      using Cons.prems(2) Cons.prems(4) by (auto simp add: x declared_def)
    have e: "formals_end (pos ?s3) fs = formals_end (pos s) (x # fs)"
      by (simp add: x numeral_2_eq_2)
    have bf: "bind_formals fs as ?f' = bind_formals (x # fs) args f"
      by (simp add: bind_formals_def x Cons)
    show ?thesis
      unfolding step Cons.IH [OF fa d sc fr] e bf
      by (simp add: Cons scanner_next_def)
  qed
qed


lemma formals_end_RPAR:
  "formals_at toks p fs \<Longrightarrow> token_at toks (formals_end p fs) = RPAR"
  by (induction fs arbitrary: p) (auto split: if_splits)

text \<open>
  Claim C2. \<open>args\<close> is the list \<^verbatim>\<open>push_arguments\<close> made, the deep copies of the arguments in
  their order, and \<open>fs\<close> are the formals of the definition at \<open>addr\<close>, each a unique
  identifier (the spec's condition on a definition, 4.5.12 step 5). With fewer arguments
  than formals the call stops with SyntaxError. Otherwise the body runs in the state whose
  new level has exactly the formals, each bound to the argument at its place; the
  arguments left over are bound to nothing, and the call goes on as the block and
  \<open>function_return\<close> make it go.
\<close>

theorem function_call_formals:
  assumes "push_arguments n X (function_call n X) s = Ok (args, s1)"
    and "token_at (tokens s1) addr = IDENTIFIER"
    and "token_at (tokens s1) (addr + 1) = LPAR"
    and "formals_at (tokens s1) (addr + 2) fs"
    and "distinct (map fst fs)"
  shows "function_call (Suc n) X addr s =
    (if length args < length fs then Stop SyntaxError
     else
       (case block n (statement n X)
               (s1\<lparr>pos := formals_end (addr + 2) fs + 1,
                    scope := bind_formals fs args [] # scope s1\<rparr>) of
          Timeout \<Rightarrow> Timeout
        | Stop e \<Rightarrow> Stop e
        | NullPointer \<Rightarrow> NullPointer
        | Longjmp s6 \<Rightarrow> function_return X (pos s1) s6
        | Ok s6 \<Rightarrow> function_return X (pos s1) s6))"
proof -
  define s2 where "s2 = scope_append_level s1"
  define s3 where "s3 = scanner_next (reader_jump addr s2)"
  define s5 where "s5 = s1\<lparr>pos := formals_end (addr + 2) fs,
      scope := bind_formals fs args [] # scope s1\<rparr>"
  define s6 where "s6 = s1\<lparr>pos := formals_end (addr + 2) fs + 1,
      scope := bind_formals fs args [] # scope s1\<rparr>"
  have ex3: "expect IDENTIFIER (reader_jump addr s2) = Ok s3"
    using assms(2) by (simp add: expect_def scanner_token_at scope_append_level_def s2_def s3_def)
  have t4: "scanner_token s3 = LPAR"
    using assms(3) by (simp add: scanner_token_at scope_append_level_def s2_def s3_def)
  have fa: "formals_at (tokens (scanner_next s3)) (pos (scanner_next s3)) fs"
    using assms(4) by (simp add: scope_append_level_def numeral_2_eq_2 s2_def s3_def)
  have sc: "scope (scanner_next s3) = [] # scope s1"
    by (simp add: scope_append_level_def s2_def s3_def)
  have fr: "\<forall>x \<in> set fs. \<not> declared (fst x) []"
    by (simp add: declared_def)
  have p4: "pos (scanner_next s3) = addr + 2" by (simp add: s3_def)
  have e4: "(scanner_next s3)\<lparr>pos := formals_end (addr + 2) fs,
      scope := bind_formals fs args [] # scope s1\<rparr> = s5"
    by (simp add: s5_def s3_def s2_def scanner_next_def reader_jump_def scope_append_level_def)
  note pl = pop_loop_spec [OF fa assms(5) sc fr, of args, unfolded p4 e4]
  have pa: "pop_arguments args s3 =
      (if length args < length fs then Stop SyntaxError
       else Ok (drop (length fs) args, s5))"
    unfolding pop_arguments_def using t4 pl by (simp add: expect_def)
  have ex5: "expect RPAR s5 = Ok s6"
    using formals_end_RPAR [OF assms(4)]
    by (simp add: expect_def scanner_token_at scanner_next_def s5_def s6_def)
  have rs: "reader_save s2 = pos s1"
    by (simp add: reader_save_def scope_append_level_def s2_def)
  have fc: "function_call (Suc n) X addr s =
      bind_run (pop_arguments args s3) (\<lambda>(rest, s4).
         bind_run (expect RPAR s4) (\<lambda>s5.
           (case block n (statement n X) s5 of
              Timeout \<Rightarrow> Timeout
            | Stop e \<Rightarrow> Stop e
            | NullPointer \<Rightarrow> NullPointer
            | Longjmp s6 \<Rightarrow> function_return X (pos s1) s6
            | Ok s6 \<Rightarrow> function_return X (pos s1) s6)))"
    unfolding function_call.simps function_call_body_def Let_def
    by (simp add: assms(1) ex3 [unfolded s2_def] rs [unfolded s2_def] cong: run.case_cong)
  show ?thesis
    unfolding fc pa by (simp add: ex5) (simp add: s6_def)
qed

theorem function_call_formals_witness:
  "function_call 5 sample_exts 1 call_state =
     Ok (IntObject 0,
         call_state\<lparr>pos := 23, stdout := [Printed (IntObject 1), Printed (IntObject 2)]\<rparr>) \<and>
   function_call 5 sample_exts 1 (call_state\<lparr>pos := 25\<rparr>) = Stop SyntaxError"
proof -
  let ?fs = "[(''a'', True), (''b'', False)]"
  let ?s1 = "call_state\<lparr>pos := 22\<rparr>"
  let ?s1' = "call_state\<lparr>pos := 27\<rparr>"
  have five: "Suc 4 = 5" by simp
  have tk: "token_at (tokens ?s1) 1 = IDENTIFIER" "token_at (tokens ?s1) (1 + 1) = LPAR"
    "formals_at (tokens ?s1) (1 + 2) ?fs" "distinct (map fst ?fs)"
    by code_simp+
  have tk': "token_at (tokens ?s1') 1 = IDENTIFIER" "token_at (tokens ?s1') (1 + 1) = LPAR"
    "formals_at (tokens ?s1') (1 + 2) ?fs"
    by code_simp+
  have p: "push_arguments 4 sample_exts (function_call 4 sample_exts) call_state =
      Ok ([IntObject 1, IntObject 2, IntObject 3], ?s1)"
    by code_simp
  have p': "push_arguments 4 sample_exts (function_call 4 sample_exts) (call_state\<lparr>pos := 25\<rparr>) =
      Ok ([IntObject 1], ?s1')"
    by code_simp
  have r: "(if length [IntObject 1, IntObject 2, IntObject 3] < length ?fs then Stop SyntaxError
     else
       (case block 4 (statement 4 sample_exts)
               (?s1\<lparr>pos := formals_end (1 + 2) ?fs + 1,
                    scope := bind_formals ?fs [IntObject 1, IntObject 2, IntObject 3] [] #
                      scope ?s1\<rparr>) of
          Timeout \<Rightarrow> Timeout
        | Stop e \<Rightarrow> Stop e
        | NullPointer \<Rightarrow> NullPointer
        | Longjmp s6 \<Rightarrow> function_return sample_exts (pos ?s1) s6
        | Ok s6 \<Rightarrow> function_return sample_exts (pos ?s1) s6)) =
     Ok (IntObject 0,
         call_state\<lparr>pos := 23, stdout := [Printed (IntObject 1), Printed (IntObject 2)]\<rparr>)"
    by code_simp
  have r': "(if length [IntObject 1] < length ?fs then Stop SyntaxError
     else
       (case block 4 (statement 4 sample_exts)
               (?s1'\<lparr>pos := formals_end (1 + 2) ?fs + 1,
                    scope := bind_formals ?fs [IntObject 1] [] # scope ?s1'\<rparr>) of
          Timeout \<Rightarrow> Timeout
        | Stop e \<Rightarrow> Stop e
        | NullPointer \<Rightarrow> NullPointer
        | Longjmp s6 \<Rightarrow> function_return sample_exts (pos ?s1') s6
        | Ok s6 \<Rightarrow> function_return sample_exts (pos ?s1') s6)) = Stop SyntaxError"
    by code_simp
  show ?thesis
    using trans [OF function_call_formals [OF p tk] r]
      trans [OF function_call_formals [OF p' tk' tk(4)] r']
    unfolding five by (rule conjI)
qed

subsection \<open>The value of a call\<close>

lemma return_value_accept [simp]: "return_value (snd (accept t s)) = return_value s"
  by (simp add: accept_def)

declare accept_simps [simp del]




lemma good_simps [simp]:
  "good P st rv Timeout"
  "good P st rv (Stop e)"
  "good P st rv NullPointer"
  "good P st rv (Longjmp u) \<longleftrightarrow> P u"
  "good P st rv (Ok x) \<longleftrightarrow> (rv = None \<longrightarrow> return_value (st x) = None)"
  by (simp_all add: good_def)











lemma return_value_set_object [simp]:
  "return_value (set_object i b s) = return_value s"
  "return_value (identifier_bind i obj s) = return_value s"
  "return_value (identifier_unbind i s) = return_value s"
  "return_value (scope_append_level s) = return_value s"
  "return_value (scope_remove_level s) = return_value s"
  by (simp_all add: set_object_def identifier_bind_def identifier_unbind_def
      scope_append_level_def scope_remove_level_def)


lemma return_value_skip_levels [simp]: "return_value (skip_levels level s) = return_value s"
proof (induction level s rule: skip_levels.induct)
  case (1 level s)
  show ?case
    by (subst skip_levels.simps) (simp add: Let_def "1.IH")
qed

lemma return_value_skip_line [simp]: "return_value (skip_line s) = return_value s"
proof (induction s rule: skip_line.induct)
  case (1 s)
  show ?case
    by (subst skip_line.simps) (simp add: "1.IH")
qed





































section \<open>Allocation and the results of the operators\<close>

lemma obj_alloc_ptr_eq:
  "type \<noteq> NONE_T \<Longrightarrow>
   obj_alloc_ptr type h =
     (if room h = 0 then Stop OutOfMemoryError
      else Ok (length (cells h),
               h\<lparr>cells := cells h @ [\<lparr> refcount = 1, content = default_of type \<rparr>],
                  room := room h - 1\<rparr>))"
  by (cases type)
     (simp_all add: obj_alloc_ptr_def default_of_def malloc_def obj_incref_def load_def)








section \<open>Assignment to a list-node\<close>

lemma shape_frame:
  "shape h t \<Longrightarrow>
     (\<forall>a \<in> set (addrs t). a < length (cells h') \<and> content (cells h' ! a) = content (cells h ! a)) \<Longrightarrow>
     shape h' t"
  and shapes_frame:
  "shapes h items \<Longrightarrow>
     (\<forall>a \<in> set (addrs_items items). a < length (cells h') \<and>
        content (cells h' ! a) = content (cells h ! a)) \<Longrightarrow>
     shapes h' items"
  by (induction h t and h items rule: shape_shapes.induct) (auto simp add: valid_def load_def)

lemma shape_valid:
  "shape h t \<Longrightarrow> \<forall>a \<in> set (addrs t). a < length (cells h)"
  and shapes_valid:
  "shapes h items \<Longrightarrow> \<forall>a \<in> set (addrs_items items). a < length (cells h)"
  by (induction h t and h items rule: shape_shapes.induct) (auto simp add: valid_def)

lemma root_addrs: "root t \<in> set (addrs t)"
  by (cases t) simp_all

lemma obj_copy_ptr_leaf:
  assumes "scalar c" and "valid h op" and "content (load h op) = c"
    and "obj_copy_ptr (Suc n) op h = Ok (r, h1)"
  shows "r = length (cells h) \<and> cells h1 = cells h @ [\<lparr> refcount = 1, content = c \<rparr>]"
  using assms
  by (cases c)
     (auto simp add: scalar_def obj_create_ptr_def obj_alloc_ptr_eq default_of_def bind_run_def
        vset_def set_content_def load_def split: if_splits)

lemma listnode_append_Ok:
  assumes "listnode_append L obj h = Ok h2" and "L < length (cells h)"
    and "content (cells h ! L) = ListCell ns"
  shows "length (cells h2) = Suc (length (cells h))"
    and "content (cells h2 ! L) = ListCell (ns @ [length (cells h)])"
    and "content (cells h2 ! length (cells h)) = NodeCell (Some obj)"
    and "\<forall>a < length (cells h). a \<noteq> L \<longrightarrow> cells h2 ! a = cells h ! a"
  using assms
  by (auto simp add: listnode_append_def obj_alloc_ptr_eq default_of_def bind_run_def
      set_content_def load_def nth_append nth_list_update split: if_splits)


lemma list_vset_spec:
  assumes IH: "\<And>op h c h1 t. obj_copy_ptr n op h = Ok (c, h1) \<Longrightarrow> shape h t \<Longrightarrow> root t = op \<Longrightarrow>
      \<exists>t'. shape h1 t' \<and> root t' = c \<and> obj_copy (val t) = Inr (val t') \<and>
        (\<forall>a \<in> set (addrs t'). length (cells h) \<le> a) \<and>
        (\<forall>a < length (cells h). cells h1 ! a = cells h ! a) \<and>
        length (cells h) \<le> length (cells h1)"
  shows "list_vset (obj_copy_ptr n) L (map fst items) h = Ok h' \<Longrightarrow> shapes h items \<Longrightarrow>
      \<forall>a \<in> set (addrs_items items). a < L \<Longrightarrow> L < length (cells h) \<Longrightarrow>
      content (cells h ! L) = ListCell ns \<Longrightarrow>
      \<exists>new. content (cells h' ! L) = ListCell (ns @ map fst new) \<and> shapes h' new \<and>
        copy_items (val_items items) = Inr (val_items new) \<and>
        (\<forall>a \<in> set (addrs_items new). length (cells h) \<le> a) \<and>
        (\<forall>a < length (cells h). a \<noteq> L \<longrightarrow> cells h' ! a = cells h ! a) \<and>
        length (cells h) \<le> length (cells h')"
proof (induction items arbitrary: h ns)
  case Nil
  then have "h' = h" by simp
  then show ?case
    using Nil by (intro exI [where x = "[]"]) simp
next
  case (Cons item rest)
  obtain node ti where item: "item = (node, ti)" by (cases item)
  from Cons.prems(2) item have vn: "valid h node"
    and cn: "content (load h node) = NodeCell (Some (root ti))"
    and sti: "shape h ti" and srest: "shapes h rest"
    by simp_all
  from Cons.prems(1) item vn cn
  have run: "bind_run (obj_copy_ptr n (root ti) h) (\<lambda>(c, h1).
      bind_run (listnode_append L c h1) (\<lambda>h2.
        list_vset (obj_copy_ptr n) L (map fst rest) h2)) = Ok h'"
    by simp
  then obtain c h1 where cp: "obj_copy_ptr n (root ti) h = Ok (c, h1)"
    and run2: "bind_run (listnode_append L c h1) (\<lambda>h2.
        list_vset (obj_copy_ptr n) L (map fst rest) h2) = Ok h'"
    by (auto simp add: bind_run_Ok_iff)
  then obtain h2 where ap: "listnode_append L c h1 = Ok h2"
    and rest: "list_vset (obj_copy_ptr n) L (map fst rest) h2 = Ok h'"
    by (auto simp add: bind_run_Ok_iff)
  from IH [OF cp sti refl] obtain t' where st': "shape h1 t'" and rt': "root t' = c"
    and ct': "obj_copy (val ti) = Inr (val t')"
    and at': "\<forall>a \<in> set (addrs t'). length (cells h) \<le> a"
    and f1: "\<forall>a < length (cells h). cells h1 ! a = cells h ! a"
    and l1: "length (cells h) \<le> length (cells h1)"
    by blast
  note Lh = Cons.prems(4)
  have L1: "L < length (cells h1)" using Lh l1 by simp
  have cL1: "content (cells h1 ! L) = ListCell ns"
    using f1 Lh Cons.prems(5) by simp
  note A = listnode_append_Ok [OF ap L1 cL1]
  let ?m = "length (cells h1)"
  have L2: "L < length (cells h2)" using L1 A(1) by simp
  have below: "\<forall>a \<in> set (addrs_items rest). a < L"
    using Cons.prems(3) item by simp
  have srest2: "shapes h2 rest"
  proof (rule shapes_frame [OF srest], intro ballI)
    fix a assume a: "a \<in> set (addrs_items rest)"
    with below have aL: "a < L" by simp
    then have ah: "a < length (cells h)" using Lh by simp
    have "cells h2 ! a = cells h1 ! a" using A(4) ah l1 aL by simp
    also have "\<dots> = cells h ! a" using f1 ah by simp
    finally show "a < length (cells h2) \<and> content (cells h2 ! a) = content (cells h ! a)"
      using ah l1 A(1) by simp
  qed
  from Cons.IH [OF rest srest2 below L2 A(2)]
  obtain new where cN: "content (cells h' ! L) = ListCell ((ns @ [?m]) @ map fst new)"
    and sN: "shapes h' new"
    and vN: "copy_items (val_items rest) = Inr (val_items new)"
    and aN: "\<forall>a \<in> set (addrs_items new). length (cells h2) \<le> a"
    and f2: "\<forall>a < length (cells h2). a \<noteq> L \<longrightarrow> cells h' ! a = cells h2 ! a"
    and l2: "length (cells h2) \<le> length (cells h')"
    by blast
  have mL: "?m \<noteq> L" using L1 by simp
  have m2: "?m < length (cells h2)" using A(1) by simp
  have cm: "content (cells h' ! ?m) = NodeCell (Some (root t'))"
    using f2 m2 mL A(3) rt' by simp
  have st2: "shape h' t'"
  proof (rule shape_frame [OF st'], intro ballI)
    fix a assume a: "a \<in> set (addrs t')"
    from shape_valid [OF st'] a have a1: "a < length (cells h1)" by simp
    from at' a Lh have aL: "a \<noteq> L" by auto
    have "cells h' ! a = cells h2 ! a" using f2 a1 A(1) aL by simp
    also have "\<dots> = cells h1 ! a" using A(4) a1 aL by simp
    finally show "a < length (cells h') \<and> content (cells h' ! a) = content (cells h1 ! a)"
      using a1 A(1) l2 by simp
  qed
  let ?new = "(?m, t') # new"
  have "content (cells h' ! L) = ListCell (ns @ map fst ?new)"
    using cN by simp
  moreover have "shapes h' ?new"
    using sN st2 cm m2 l2 by (simp add: valid_def load_def)
  moreover have "copy_items (val_items (item # rest)) = Inr (val_items ?new)"
    using ct' vN item by simp
  moreover have "\<forall>a \<in> set (addrs_items ?new). length (cells h) \<le> a"
    using at' aN l1 A(1) by auto
  moreover have "\<forall>a < length (cells h). a \<noteq> L \<longrightarrow> cells h' ! a = cells h ! a"
  proof (intro allI impI)
    fix a assume ah: "a < length (cells h)" and aL: "a \<noteq> L"
    have "cells h' ! a = cells h2 ! a" using f2 ah l1 A(1) aL by simp
    also have "\<dots> = cells h1 ! a" using A(4) ah l1 aL by simp
    also have "\<dots> = cells h ! a" using f1 ah by simp
    finally show "cells h' ! a = cells h ! a" .
  qed
  moreover have "length (cells h) \<le> length (cells h')"
    using l1 A(1) l2 by simp
  ultimately show ?case by blast
qed

lemma obj_copy_ptr_spec:
  "obj_copy_ptr n op h = Ok (c, h1) \<Longrightarrow> shape h t \<Longrightarrow> root t = op \<Longrightarrow>
      \<exists>t'. shape h1 t' \<and> root t' = c \<and> obj_copy (val t) = Inr (val t') \<and>
        (\<forall>a \<in> set (addrs t'). length (cells h) \<le> a) \<and>
        (\<forall>a < length (cells h). cells h1 ! a = cells h ! a) \<and>
        length (cells h) \<le> length (cells h1)"
proof (induction n arbitrary: op h c h1 t)
  case 0
  then show ?case by simp
next
  case (Suc n)
  show ?case
  proof (cases t)
    case (Leaf a p)
    with Suc.prems have v: "valid h op" and cp: "content (load h op) = p" and sc: "scalar p"
      by auto
    from obj_copy_ptr_leaf [OF sc v cp Suc.prems(1)]
    have r: "c = length (cells h)" and h1: "cells h1 = cells h @ [\<lparr> refcount = 1, content = p \<rparr>]"
      by simp_all
    have "obj_copy (flat p) = Inr (flat p)"
      using sc by (cases p) (simp_all add: scalar_def flat_def)
    then show ?thesis
      using Leaf r h1 sc
      by (intro exI [where x = "Leaf c p"]) (simp add: valid_def load_def nth_append)
  next
    case (NodeT a t0)
    with Suc.prems have v: "valid h op" and cp: "content (load h op) = NodeCell (Some (root t0))"
      and s0: "shape h t0"
      by auto
    from Suc.prems(1) v cp have "obj_copy_ptr n (root t0) h = Ok (c, h1)"
      by simp
    from Suc.IH [OF this s0 refl] show ?thesis
      using NodeT by simp
  next
    case (ListT a items)
    with Suc.prems have v: "valid h op" and cp: "content (load h op) = ListCell (map fst items)"
      and si: "shapes h items"
      by auto
    let ?L = "length (cells h)"
    let ?h0 = "h\<lparr>cells := cells h @ [\<lparr> refcount = 1, content = ListCell [] \<rparr>], room := room h - 1\<rparr>"
    from Suc.prems(1) v cp
    have run: "bind_run (obj_alloc_ptr LIST_T h) (\<lambda>(list, h1).
        bind_run (list_vset (obj_copy_ptr n) list (map fst items) h1) (\<lambda>h2. Ok (list, h2))) =
        Ok (c, h1)"
      by simp
    then have vs: "list_vset (obj_copy_ptr n) ?L (map fst items) ?h0 = Ok h1" and c: "c = ?L"
      by (auto simp add: bind_run_Ok_iff obj_alloc_ptr_eq default_of_def split: if_splits)
    have s0: "shapes ?h0 items"
      by (rule shapes_frame [OF si]) (use shapes_valid [OF si] in \<open>auto simp add: nth_append\<close>)
    have below: "\<forall>a \<in> set (addrs_items items). a < ?L"
      using shapes_valid [OF si] by simp
    have L0: "?L < length (cells ?h0)" by simp
    have c0: "content (cells ?h0 ! ?L) = ListCell []" by simp
    have "\<exists>new. content (cells h1 ! ?L) = ListCell ([] @ map fst new) \<and> shapes h1 new \<and>
        copy_items (val_items items) = Inr (val_items new) \<and>
        (\<forall>a \<in> set (addrs_items new). length (cells ?h0) \<le> a) \<and>
        (\<forall>a < length (cells ?h0). a \<noteq> ?L \<longrightarrow> cells h1 ! a = cells ?h0 ! a) \<and>
        length (cells ?h0) \<le> length (cells h1)"
      by (rule list_vset_spec [OF _ vs s0 below L0 c0]) (rule Suc.IH)
    then obtain new where cN: "content (cells h1 ! ?L) = ListCell ([] @ map fst new)"
      and sN: "shapes h1 new"
      and vN: "copy_items (val_items items) = Inr (val_items new)"
      and aN: "\<forall>a \<in> set (addrs_items new). length (cells ?h0) \<le> a"
      and f: "\<forall>a < length (cells ?h0). a \<noteq> ?L \<longrightarrow> cells h1 ! a = cells ?h0 ! a"
      and l: "length (cells ?h0) \<le> length (cells h1)"
      by blast
    have "shape h1 (ListT c new)"
      using cN sN l c by (simp add: valid_def load_def)
    moreover have "obj_copy (val t) = Inr (val (ListT c new))"
      using ListT vN by simp
    moreover have "\<forall>a \<in> set (addrs (ListT c new)). length (cells h) \<le> a"
      using aN c by auto
    moreover have "\<forall>a < length (cells h). cells h1 ! a = cells h ! a"
      using f by (simp add: nth_append)
    moreover have "length (cells h) \<le> length (cells h1)"
      using l by simp
    ultimately show ?thesis
      by (intro exI [where x = "ListT c new"]) simp
  qed
qed


lemma obj_decref_length: "length (cells (obj_decref x h)) = length (cells h)"
  by (simp add: obj_decref_def)

lemma obj_decref_content: "content (cells (obj_decref x h) ! a) = content (cells h ! a)"
proof (cases "x < length (cells h)")
  case True
  then show ?thesis by (simp add: obj_decref_def load_def nth_list_update)
next
  case False
  then show ?thesis by (simp add: obj_decref_def list_update_beyond)
qed

lemma listnode_set_cells:
  assumes "op1 < length (cells h1)"
  shows "length (cells (listnode_set op1 c h1)) = length (cells h1)"
    and "content (cells (listnode_set op1 c h1) ! op1) = NodeCell (Some c)"
    and "\<forall>a. a \<noteq> op1 \<longrightarrow> content (cells (listnode_set op1 c h1) ! a) = content (cells h1 ! a)"
  using assms
  by (auto simp add: listnode_set_def set_content_def obj_decref_length obj_decref_content load_def nth_list_update
      split: payload.splits option.splits)

lemma obj_assign_listnode_copy:
  "valid h op1 \<and> content (load h op1) = NodeCell old \<and> shape h t \<and> root t = op2 \<and>
   obj_assign_ptr T n op1 op2 h = Ok h' \<longrightarrow>
     (\<exists>c h1 t'. obj_copy_ptr n op2 h = Ok (c, h1) \<and> h' = listnode_set op1 c h1 \<and>
        content (load h' op1) = NodeCell (Some c) \<and> root t' = c \<and> shape h' t' \<and>
        obj_copy (val t) = Inr (val t') \<and>
        (\<forall>a \<in> set (addrs t'). \<not> valid h a) \<and>
        set (addrs t') \<inter> set (addrs t) = {} \<and>
        (\<forall>a. valid h a \<and> a \<noteq> op1 \<longrightarrow> content (load h' a) = content (load h a)) \<and>
        (\<forall>h''. length (cells h'') = length (cells h') \<and>
           (\<forall>a < length (cells h'). a \<notin> set (addrs t) \<longrightarrow> load h'' a = load h' a) \<longrightarrow>
           shape h'' t' \<and>
           (op1 \<notin> set (addrs t) \<longrightarrow> content (load h'' op1) = NodeCell (Some c))))"
proof (intro impI)
  assume a: "valid h op1 \<and> content (load h op1) = NodeCell old \<and> shape h t \<and> root t = op2 \<and>
   obj_assign_ptr T n op1 op2 h = Ok h'"
  then have v1: "valid h op1" and c1: "content (load h op1) = NodeCell old" and st: "shape h t"
    and rt: "root t = op2" and run: "obj_assign_ptr T n op1 op2 h = Ok h'"
    by simp_all
  from shape_valid [OF st] root_addrs [of t] rt have v2: "valid h op2"
    by (auto simp add: valid_def)
  from run v1 v2 c1 obtain c h1 where cp: "obj_copy_ptr n op2 h = Ok (c, h1)"
    and h': "h' = listnode_set op1 c h1"
    by (auto simp add: obj_assign_ptr_def bind_run_Ok_iff)
  from obj_copy_ptr_spec [OF cp st rt] obtain t' where st': "shape h1 t'" and rt': "root t' = c"
    and ct': "obj_copy (val t) = Inr (val t')"
    and at': "\<forall>a \<in> set (addrs t'). length (cells h) \<le> a"
    and f1: "\<forall>a < length (cells h). cells h1 ! a = cells h ! a"
    and l1: "length (cells h) \<le> length (cells h1)"
    by blast
  have o1: "op1 < length (cells h1)"
    using v1 l1 by (simp add: valid_def)
  note S = listnode_set_cells [OF o1, of c, folded h']
  have n1: "\<forall>a \<in> set (addrs t'). a \<noteq> op1"
    using at' v1 by (auto simp add: valid_def)
  have sh': "shape h' t'"
  proof (rule shape_frame [OF st'], intro ballI)
    fix a assume "a \<in> set (addrs t')"
    with n1 shape_valid [OF st'] S
    show "a < length (cells h') \<and> content (cells h' ! a) = content (cells h1 ! a)"
      by simp
  qed
  have dj: "set (addrs t') \<inter> set (addrs t) = {}"
    using at' shape_valid [OF st] by fastforce
  have old: "\<forall>a. valid h a \<and> a \<noteq> op1 \<longrightarrow> content (load h' a) = content (load h a)"
    using S(3) f1 by (simp add: valid_def load_def)
  have mut: "\<forall>h''. length (cells h'') = length (cells h') \<and>
           (\<forall>a < length (cells h'). a \<notin> set (addrs t) \<longrightarrow> load h'' a = load h' a) \<longrightarrow>
           shape h'' t' \<and>
           (op1 \<notin> set (addrs t) \<longrightarrow> content (load h'' op1) = NodeCell (Some c))"
  proof (intro allI impI conjI)
    fix h''
    assume m: "length (cells h'') = length (cells h') \<and>
           (\<forall>a < length (cells h'). a \<notin> set (addrs t) \<longrightarrow> load h'' a = load h' a)"
    show "shape h'' t'"
    proof (rule shape_frame [OF sh'], intro ballI)
      fix a assume a: "a \<in> set (addrs t')"
      with dj have "a \<notin> set (addrs t)" by auto
      moreover from shape_valid [OF sh'] a have "a < length (cells h')" by simp
      ultimately show "a < length (cells h'') \<and> content (cells h'' ! a) = content (cells h' ! a)"
        using m by (simp add: load_def)
    qed
    assume "op1 \<notin> set (addrs t)"
    then show "content (load h'' op1) = NodeCell (Some c)"
      using m o1 S(1) S(2) by (simp add: load_def)
  qed
  have cl: "content (load h' op1) = NodeCell (Some c)"
    using S(2) by (simp add: load_def)
  have nv: "\<forall>a \<in> set (addrs t'). \<not> valid h a"
    using at' by (auto simp add: valid_def)
  show "\<exists>c h1 t'. obj_copy_ptr n op2 h = Ok (c, h1) \<and> h' = listnode_set op1 c h1 \<and>
        content (load h' op1) = NodeCell (Some c) \<and> root t' = c \<and> shape h' t' \<and>
        obj_copy (val t) = Inr (val t') \<and>
        (\<forall>a \<in> set (addrs t'). \<not> valid h a) \<and>
        set (addrs t') \<inter> set (addrs t) = {} \<and>
        (\<forall>a. valid h a \<and> a \<noteq> op1 \<longrightarrow> content (load h' a) = content (load h a)) \<and>
        (\<forall>h''. length (cells h'') = length (cells h') \<and>
           (\<forall>a < length (cells h'). a \<notin> set (addrs t) \<longrightarrow> load h'' a = load h' a) \<longrightarrow>
           shape h'' t' \<and>
           (op1 \<notin> set (addrs t) \<longrightarrow> content (load h'' op1) = NodeCell (Some c)))"
    by (rule exI [where x = c], rule exI [where x = h1], rule exI [where x = t'])
       (intro conjI cp h' cl rt' sh' ct' nv dj old mut)
qed

lemma listnode_append_ex:
  assumes "L < length (cells h)" and "content (cells h ! L) = ListCell ns" and "room h \<noteq> 0"
  shows "\<exists>h2. listnode_append L obj h = Ok h2 \<and> room h2 = room h - 1"
  using assms
  by (simp add: listnode_append_def obj_alloc_ptr_eq default_of_def set_content_def load_def
      nth_append)

lemma obj_copy_ptr_leaf_ex:
  assumes "scalar c" and "valid h op" and "content (load h op) = c" and "room h \<noteq> 0"
  shows "\<exists>r h1. obj_copy_ptr (Suc n) op h = Ok (r, h1) \<and> room h1 = room h - 1"
  using assms
  by (cases c)
     (simp_all add: scalar_def obj_create_ptr_def obj_alloc_ptr_eq default_of_def
        vset_def set_content_def load_def)

lemma list_vset_ex:
  assumes IH: "\<And>op h t. shape h t \<Longrightarrow> root t = op \<Longrightarrow> height t \<le> n \<Longrightarrow> cost t \<le> room h \<Longrightarrow>
      \<exists>c h1. obj_copy_ptr n op h = Ok (c, h1) \<and> room h1 = room h - cost t"
  shows "shapes h items \<Longrightarrow> \<forall>a \<in> set (addrs_items items). a < L \<Longrightarrow> L < length (cells h) \<Longrightarrow>
      content (cells h ! L) = ListCell ns \<Longrightarrow> height_items items \<le> n \<Longrightarrow>
      cost_items items \<le> room h \<Longrightarrow>
      \<exists>h'. list_vset (obj_copy_ptr n) L (map fst items) h = Ok h' \<and>
        room h' = room h - cost_items items"
proof (induction items arbitrary: h ns)
  case Nil
  then show ?case by simp
next
  case (Cons item rest)
  obtain node ti where item: "item = (node, ti)" by (cases item)
  from Cons.prems(1) item have vn: "valid h node"
    and cn: "content (load h node) = NodeCell (Some (root ti))"
    and sti: "shape h ti" and srest: "shapes h rest"
    by simp_all
  from Cons.prems(5) item have hi: "height ti \<le> n" and hr: "height_items rest \<le> n"
    by simp_all
  from Cons.prems(6) item have ci: "cost ti \<le> room h"
    and cr: "Suc (cost ti + cost_items rest) \<le> room h"
    by simp_all
  from IH [OF sti refl hi ci] obtain c h1 where cp: "obj_copy_ptr n (root ti) h = Ok (c, h1)"
    and r1: "room h1 = room h - cost ti"
    by blast
  from obj_copy_ptr_spec [OF cp sti refl]
  have f1: "\<forall>a < length (cells h). cells h1 ! a = cells h ! a"
    and l1: "length (cells h) \<le> length (cells h1)"
    by blast+
  note Lh = Cons.prems(3)
  have L1: "L < length (cells h1)" using Lh l1 by simp
  have cL1: "content (cells h1 ! L) = ListCell ns"
    using f1 Lh Cons.prems(4) by simp
  have "room h1 \<noteq> 0" using r1 cr by simp
  from listnode_append_ex [OF L1 cL1 this] obtain h2 where ap: "listnode_append L c h1 = Ok h2"
    and r2: "room h2 = room h1 - 1"
    by blast
  note A = listnode_append_Ok [OF ap L1 cL1]
  have L2: "L < length (cells h2)" using L1 A(1) by simp
  have below: "\<forall>a \<in> set (addrs_items rest). a < L"
    using Cons.prems(2) item by simp
  have srest2: "shapes h2 rest"
  proof (rule shapes_frame [OF srest], intro ballI)
    fix a assume a: "a \<in> set (addrs_items rest)"
    with below have aL: "a < L" by simp
    then have ah: "a < length (cells h)" using Lh by simp
    have "cells h2 ! a = cells h1 ! a" using A(4) ah l1 aL by simp
    also have "\<dots> = cells h ! a" using f1 ah by simp
    finally show "a < length (cells h2) \<and> content (cells h2 ! a) = content (cells h ! a)"
      using ah l1 A(1) by simp
  qed
  have cr2: "cost_items rest \<le> room h2" using r2 r1 cr by simp
  from Cons.IH [OF srest2 below L2 A(2) hr cr2]
  obtain h' where rest: "list_vset (obj_copy_ptr n) L (map fst rest) h2 = Ok h'"
    and r': "room h' = room h2 - cost_items rest"
    by blast
  have "list_vset (obj_copy_ptr n) L (map fst (item # rest)) h = Ok h'"
    using item vn cn cp ap rest by simp
  moreover have "room h' = room h - cost_items (item # rest)"
    using r' r2 r1 item by simp
  ultimately show ?case by blast
qed

lemma obj_copy_ptr_ex:
  "shape h t \<Longrightarrow> root t = op \<Longrightarrow> height t \<le> n \<Longrightarrow> cost t \<le> room h \<Longrightarrow>
      \<exists>c h1. obj_copy_ptr n op h = Ok (c, h1) \<and> room h1 = room h - cost t"
proof (induction n arbitrary: op h t)
  case 0
  then show ?case by (cases t) simp_all
next
  case (Suc n)
  show ?case
  proof (cases t)
    case (Leaf a p)
    with Suc.prems have v: "valid h op" and cp: "content (load h op) = p" and sc: "scalar p"
      and r: "room h \<noteq> 0"
      by auto
    from obj_copy_ptr_leaf_ex [OF sc v cp r] show ?thesis
      using Leaf by simp
  next
    case (NodeT a t0)
    with Suc.prems have v: "valid h op" and cp: "content (load h op) = NodeCell (Some (root t0))"
      and s0: "shape h t0" and h0: "height t0 \<le> n" and c0: "cost t0 \<le> room h"
      by auto
    from Suc.IH [OF s0 refl h0 c0] show ?thesis
      using NodeT v cp by simp
  next
    case (ListT a items)
    with Suc.prems have v: "valid h op" and cp: "content (load h op) = ListCell (map fst items)"
      and si: "shapes h items" and hi: "height_items items \<le> n"
      and ci: "Suc (cost_items items) \<le> room h"
      by auto
    let ?L = "length (cells h)"
    let ?h0 = "h\<lparr>cells := cells h @ [\<lparr> refcount = 1, content = ListCell [] \<rparr>], room := room h - 1\<rparr>"
    have al: "obj_alloc_ptr LIST_T h = Ok (?L, ?h0)"
      using ci by (simp add: obj_alloc_ptr_eq default_of_def)
    have s0: "shapes ?h0 items"
      by (rule shapes_frame [OF si]) (use shapes_valid [OF si] in \<open>auto simp add: nth_append\<close>)
    have below: "\<forall>a \<in> set (addrs_items items). a < ?L"
      using shapes_valid [OF si] by simp
    have L0: "?L < length (cells ?h0)" by simp
    have c0: "content (cells ?h0 ! ?L) = ListCell []" by simp
    have r0: "cost_items items \<le> room ?h0" using ci by simp
    have "\<exists>h'. list_vset (obj_copy_ptr n) ?L (map fst items) ?h0 = Ok h' \<and>
        room h' = room ?h0 - cost_items items"
      by (rule list_vset_ex [OF _ s0 below L0 c0 hi r0]) (rule Suc.IH)
    then obtain h' where vs: "list_vset (obj_copy_ptr n) ?L (map fst items) ?h0 = Ok h'"
      and r': "room h' = room ?h0 - cost_items items"
      by blast
    have "obj_copy_ptr (Suc n) op h = Ok (?L, h')"
      using v cp al vs by simp
    moreover have "room h' = room h - cost t"
      using r' ListT by simp
    ultimately show ?thesis by blast
  qed
qed


lemma obj_assign_listnode_returns:
  "valid h op1 \<and> content (load h op1) = NodeCell old \<and> shape h t \<and> root t = op2 \<and>
   height t \<le> n \<and> cost t \<le> room h \<longrightarrow>
     (\<exists>h'. obj_assign_ptr T n op1 op2 h = Ok h')"
proof (intro impI)
  assume a: "valid h op1 \<and> content (load h op1) = NodeCell old \<and> shape h t \<and> root t = op2 \<and>
   height t \<le> n \<and> cost t \<le> room h"
  then have v1: "valid h op1" and c1: "content (load h op1) = NodeCell old" and st: "shape h t"
    and rt: "root t = op2" and ht: "height t \<le> n" and ct: "cost t \<le> room h"
    by simp_all
  from shape_valid [OF st] root_addrs [of t] rt have v2: "valid h op2"
    by (auto simp add: valid_def)
  from obj_copy_ptr_ex [OF st rt ht ct] obtain c h1 where "obj_copy_ptr n op2 h = Ok (c, h1)"
    by blast
  then show "\<exists>h'. obj_assign_ptr T n op1 op2 h = Ok h'"
    using v1 v2 c1 by (simp add: obj_assign_ptr_def)
qed

text \<open>
  Claim C10. \<open>op1\<close> is a list-node of the store \<open>h\<close> and \<open>t\<close> is the structure the store
  holds at \<open>op2\<close>. When \<^verbatim>\<open>obj_assign(op1, op2)\<close> returns, with the store \<open>h'\<close>: \<^verbatim>\<open>obj_copy(op2)\<close>
  returned an object \<open>c\<close>, and \<open>h'\<close> is the store it left with the node set to \<open>c\<close>; the
  node owns \<open>c\<close>; \<open>h'\<close> holds at \<open>c\<close> a structure \<open>t'\<close> whose value is the value \<^verbatim>\<open>obj_copy\<close>
  gives by value for the value of \<open>t\<close>; no object of \<open>t'\<close> was in \<open>h\<close>, so \<open>t'\<close> has no
  object in common with \<open>t\<close>; the assignment changed the payload of no object of \<open>h\<close> but the
  node's; and every store that differs from \<open>h'\<close> only in objects of \<open>t\<close> holds the same
  structure \<open>t'\<close> and, unless the node is itself an object of \<open>t\<close>, has the node own \<open>c\<close>.
  And \<^verbatim>\<open>obj_assign\<close> does return when the fuel covers the height of \<open>t\<close> and the store has
  room for the objects of the copy.
\<close>

theorem obj_assign_listnode:
  "(valid h op1 \<and> content (load h op1) = NodeCell old \<and> shape h t \<and> root t = op2 \<and>
    obj_assign_ptr T n op1 op2 h = Ok h' \<longrightarrow>
     (\<exists>c h1 t'. obj_copy_ptr n op2 h = Ok (c, h1) \<and> h' = listnode_set op1 c h1 \<and>
        content (load h' op1) = NodeCell (Some c) \<and> root t' = c \<and> shape h' t' \<and>
        obj_copy (val t) = Inr (val t') \<and>
        (\<forall>a \<in> set (addrs t'). \<not> valid h a) \<and>
        set (addrs t') \<inter> set (addrs t) = {} \<and>
        (\<forall>a. valid h a \<and> a \<noteq> op1 \<longrightarrow> content (load h' a) = content (load h a)) \<and>
        (\<forall>h''. length (cells h'') = length (cells h') \<and>
           (\<forall>a < length (cells h'). a \<notin> set (addrs t) \<longrightarrow> load h'' a = load h' a) \<longrightarrow>
           shape h'' t' \<and>
           (op1 \<notin> set (addrs t) \<longrightarrow> content (load h'' op1) = NodeCell (Some c))))) \<and>
   (valid h op1 \<and> content (load h op1) = NodeCell old \<and> shape h t \<and> root t = op2 \<and>
    height t \<le> n \<and> cost t \<le> room h \<longrightarrow>
     (\<exists>h'. obj_assign_ptr T n op1 op2 h = Ok h'))"
  by (intro conjI obj_assign_listnode_copy obj_assign_listnode_returns)

theorem obj_assign_listnode_witness:
  "obj_assign_ptr sample_types 3 2 4 assign_store =
     Ok \<lparr> cells = [\<lparr> refcount = 1, content = NoneCell \<rparr>,
                  \<lparr> refcount = 1, content = ListCell [2] \<rparr>,
                  \<lparr> refcount = 1, content = NodeCell (Some 7) \<rparr>,
                  \<lparr> refcount = 0, content = IntCell 5 \<rparr>,
                  \<lparr> refcount = 1, content = ListCell [5] \<rparr>,
                  \<lparr> refcount = 1, content = NodeCell (Some 6) \<rparr>,
                  \<lparr> refcount = 1, content = StrCell ''ab'' \<rparr>,
                  \<lparr> refcount = 1, content = ListCell [9] \<rparr>,
                  \<lparr> refcount = 1, content = StrCell ''ab'' \<rparr>,
                  \<lparr> refcount = 1, content = NodeCell (Some 8) \<rparr>],
          room = 5 \<rparr> \<and>
   (\<exists>t'. root t' = 7 \<and> obj_copy (ListObject [StrObject ''ab'']) = Inr (val t') \<and>
      set (addrs t') \<inter> {4, 5, 6} = {} \<and>
      shape \<lparr> cells = [\<lparr> refcount = 1, content = NoneCell \<rparr>,
                  \<lparr> refcount = 1, content = ListCell [2] \<rparr>,
                  \<lparr> refcount = 1, content = NodeCell (Some 7) \<rparr>,
                  \<lparr> refcount = 0, content = IntCell 5 \<rparr>,
                  \<lparr> refcount = 1, content = ListCell [] \<rparr>,
                  \<lparr> refcount = 1, content = NodeCell None \<rparr>,
                  \<lparr> refcount = 1, content = StrCell ''zz'' \<rparr>,
                  \<lparr> refcount = 1, content = ListCell [9] \<rparr>,
                  \<lparr> refcount = 1, content = StrCell ''ab'' \<rparr>,
                  \<lparr> refcount = 1, content = NodeCell (Some 8) \<rparr>],
          room = 5 \<rparr> t')"
proof -
  let ?t = "ListT 4 [(5, Leaf 6 (StrCell ''ab''))]"
  let ?R = "\<lparr> cells = [\<lparr> refcount = 1, content = NoneCell \<rparr>,
                  \<lparr> refcount = 1, content = ListCell [2] \<rparr>,
                  \<lparr> refcount = 1, content = NodeCell (Some 7) \<rparr>,
                  \<lparr> refcount = 0, content = IntCell 5 \<rparr>,
                  \<lparr> refcount = 1, content = ListCell [5] \<rparr>,
                  \<lparr> refcount = 1, content = NodeCell (Some 6) \<rparr>,
                  \<lparr> refcount = 1, content = StrCell ''ab'' \<rparr>,
                  \<lparr> refcount = 1, content = ListCell [9] \<rparr>,
                  \<lparr> refcount = 1, content = StrCell ''ab'' \<rparr>,
                  \<lparr> refcount = 1, content = NodeCell (Some 8) \<rparr>],
          room = 5 \<rparr>"
  let ?M = "\<lparr> cells = [\<lparr> refcount = 1, content = NoneCell \<rparr>,
                  \<lparr> refcount = 1, content = ListCell [2] \<rparr>,
                  \<lparr> refcount = 1, content = NodeCell (Some 7) \<rparr>,
                  \<lparr> refcount = 0, content = IntCell 5 \<rparr>,
                  \<lparr> refcount = 1, content = ListCell [] \<rparr>,
                  \<lparr> refcount = 1, content = NodeCell None \<rparr>,
                  \<lparr> refcount = 1, content = StrCell ''zz'' \<rparr>,
                  \<lparr> refcount = 1, content = ListCell [9] \<rparr>,
                  \<lparr> refcount = 1, content = StrCell ''ab'' \<rparr>,
                  \<lparr> refcount = 1, content = NodeCell (Some 8) \<rparr>],
          room = 5 \<rparr>"
  have run: "obj_assign_ptr sample_types 3 2 4 assign_store = Ok ?R" by code_simp
  have pre: "valid assign_store 2 \<and> content (load assign_store 2) = NodeCell (Some 3) \<and>
      shape assign_store ?t \<and> root ?t = 4"
    by code_simp
  have fuel: "height ?t \<le> 3 \<and> cost ?t \<le> room assign_store" by code_simp
  note inst = obj_assign_listnode [where h = assign_store and ?op1.0 = 2 and old = "Some 3"
      and t = ?t and ?op2.0 = 4 and T = sample_types and n = 3 and h' = ?R]
  from inst [THEN conjunct2] pre fuel
  have "\<exists>h'. obj_assign_ptr sample_types 3 2 4 assign_store = Ok h'"
    by blast
  from inst [THEN conjunct1] pre run
  obtain c h1 t' where c: "content (load ?R 2) = NodeCell (Some c)" and rt: "root t' = c"
    and cp: "obj_copy (val ?t) = Inr (val t')"
    and dj: "set (addrs t') \<inter> set (addrs ?t) = {}"
    and mut: "\<forall>h''. length (cells h'') = length (cells ?R) \<and>
           (\<forall>a < length (cells ?R). a \<notin> set (addrs ?t) \<longrightarrow> load h'' a = load ?R a) \<longrightarrow>
           shape h'' t' \<and>
           (2 \<notin> set (addrs ?t) \<longrightarrow> content (load h'' 2) = NodeCell (Some c))"
    by blast
  have c7: "c = 7" using c by (simp add: load_def)
  have vt: "val ?t = ListObject [StrObject ''ab'']"
    by (simp add: flat_def)
  have "length (cells ?M) = length (cells ?R) \<and>
      (\<forall>a < length (cells ?R). a \<notin> set (addrs ?t) \<longrightarrow> load ?M a = load ?R a)"
    by (simp add: load_def less_Suc_eq)
  with mut have "shape ?M t'" by blast
  moreover have "set (addrs t') \<inter> {4, 5, 6} = {}" using dj by simp
  moreover have "obj_copy (ListObject [StrObject ''ab'']) = Inr (val t')"
    using cp [unfolded vt] .
  ultimately show ?thesis
    using run rt c7 by blast
qed

end
